(* ===== verification/Prelude.thy ===== *)
theory Prelude
  imports Main "HOL-Library.Word" "HOL-Library.Monad_Syntax" "HOL-Library.Code_Target_Nat"
begin

text \<open>
  The vocabulary the components share: the machine integer types, size_t arithmetic with its
  wrap-around, pointers into a packet buffer, bounds-checked memory access and C strings.

  A computation has type \<open>'a option\<close>. \<open>None\<close> is a run that does not return: it reads or writes
  outside an array, goes through NULL, or never leaves a loop. Error codes of the C code are
  ordinary values inside \<open>Some\<close>. The platform is LP64 and little endian: size_t has 64 bits.
\<close>

unbundle bit_operations_syntax

named_theorems mem_simps \<open>bounds-checked memory access\<close>
named_theorems size_simps \<open>size_t arithmetic below the wrap-around\<close>

type_synonym u8 = "8 word"
type_synonym u16 = "16 word"
type_synonym u32 = "32 word"
type_synonym u64 = "64 word"
type_synonym bytes = "u8 list"


section \<open>Small numbers as words\<close>

lemma u8_unat_lt: "unat (b :: u8) < 256"
  using unsigned_less [where 'a = nat and w = b] by simp

lemma u16_unat_lt: "unat (x :: u16) < 65536"
  using unsigned_less [where 'a = nat and w = x] by simp

lemma u8_inc: "i < 255 \<Longrightarrow> unat (i + 1 :: u8) = unat i + 1"
  by (simp add: unat_word_ariths word_less_nat_alt)

lemma unat_of_nat_u8: "x < 256 \<Longrightarrow> unat (of_nat x :: u8) = x"
  by (simp add: unat_of_nat)

lemma unat_of_nat_u16: "x < 65536 \<Longrightarrow> unat (of_nat x :: u16) = x"
  by (simp add: unat_of_nat)

lemma of_nat_ucast_u16: "x < 256 \<Longrightarrow> ucast (of_nat x :: u8) = (of_nat x :: u16)"
  by (simp add: word_unat_eq_iff unsigned_ucast_eq unat_of_nat unsigned_take_bit_eq take_bit_eq_mod)


section \<open>size_t\<close>

text \<open>A size_t is a \<open>nat\<close> below \<open>2^64\<close>; sums and differences are reduced as in C.\<close>

definition size_max :: nat where
  "size_max = 18446744073709551616"

definition add64 :: "nat \<Rightarrow> nat \<Rightarrow> nat" where
  "add64 a b = (a + b) mod size_max"

definition sub64 :: "nat \<Rightarrow> nat \<Rightarrow> nat" where
  "sub64 a b = nat ((int a - int b) mod int size_max)"

definition of_int64 :: "int \<Rightarrow> nat" where
  "of_int64 i = nat (i mod int size_max)"

lemma add64_eq [size_simps]: "a + b < size_max \<Longrightarrow> add64 a b = a + b"
  by (simp add: add64_def)

lemma sub64_eq [size_simps]: "b \<le> a \<Longrightarrow> a < size_max \<Longrightarrow> sub64 a b = a - b"
  unfolding sub64_def size_max_def by (simp add: nat_diff_distrib)

lemma of_int64_eq [size_simps]: "0 \<le> i \<Longrightarrow> i < int size_max \<Longrightarrow> of_int64 i = nat i"
  by (simp add: of_int64_def)

lemma sub64_less: "sub64 a b < size_max"
  unfolding sub64_def size_max_def by (simp add: nat_less_iff)

lemma sub64_wraps:
  assumes "a < b" "b < size_max"
  shows "sub64 a b = size_max - (b - a)"
proof -
  have "(int a - int b) mod int size_max = (int a - int b + int size_max) mod int size_max"
    by simp
  also have "\<dots> = int a - int b + int size_max"
    using assms by (intro mod_pos_pos_trivial) (simp_all add: size_max_def)
  finally show ?thesis
    using assms by (simp add: sub64_def)
qed

lemma sub64_eq_0_iff:
  assumes "a < size_max" "b < size_max"
  shows "sub64 a b = 0 \<longleftrightarrow> a = b"
proof (cases "b \<le> a")
  case True
  then show ?thesis using assms by (auto simp: sub64_eq)
next
  case False
  then show ?thesis using assms by (simp add: sub64_wraps)
qed


section \<open>Pointers and bounds-checked memory\<close>

text \<open>A pointer into a packet buffer: NULL, or \<open>buf + n\<close>.\<close>

datatype ptr = NULL | Buf nat

fun ptr_add :: "ptr \<Rightarrow> nat \<Rightarrow> ptr" where
  "ptr_add NULL n = NULL"
| "ptr_add (Buf i) n = Buf (i + n)"

fun ptr_off :: "ptr \<Rightarrow> nat" where
  "ptr_off NULL = 0"
| "ptr_off (Buf i) = i"

definition rd :: "bytes \<Rightarrow> nat \<Rightarrow> u8 option" where
  "rd buf i = (if i < length buf then Some (buf ! i) else None)"

definition wr :: "bytes \<Rightarrow> nat \<Rightarrow> u8 \<Rightarrow> bytes option" where
  "wr buf i v = (if i < length buf then Some (buf[i := v]) else None)"

fun deref :: "bytes \<Rightarrow> ptr \<Rightarrow> u8 option" where
  "deref buf NULL = None"
| "deref buf (Buf i) = rd buf i"

definition mem_read :: "bytes \<Rightarrow> nat \<Rightarrow> nat \<Rightarrow> bytes option" where
  "mem_read buf i n = (if i + n \<le> length buf then Some (take n (drop i buf)) else None)"

definition mem_write :: "bytes \<Rightarrow> nat \<Rightarrow> bytes \<Rightarrow> bytes option" where
  "mem_write buf i bs =
     (if i + length bs \<le> length buf then Some (take i buf @ bs @ drop (i + length bs) buf) else None)"

definition memmove :: "bytes \<Rightarrow> nat \<Rightarrow> nat \<Rightarrow> nat \<Rightarrow> bytes option" where
  "memmove buf dst src n = do { bs \<leftarrow> mem_read buf src n; mem_write buf dst bs }"

lemma rd_Some [mem_simps]: "i < length buf \<Longrightarrow> rd buf i = Some (buf ! i)"
  by (simp add: rd_def)

lemma rd_None_iff: "rd buf i = None \<longleftrightarrow> length buf \<le> i"
  by (auto simp: rd_def)

lemma rd_eq_Some_iff: "rd buf i = Some v \<longleftrightarrow> i < length buf \<and> v = buf ! i"
  by (auto simp: rd_def)

lemma rd_append [mem_simps]: "rd (pre @ x # post) (length pre) = Some x"
  by (simp add: rd_def)

lemma rd_take: "i < n \<Longrightarrow> i < length buf \<Longrightarrow> rd buf i = Some (take n buf ! i)"
  by (simp add: rd_def)

lemma wr_Some [mem_simps]: "i < length buf \<Longrightarrow> wr buf i v = Some (buf[i := v])"
  by (simp add: wr_def)

lemma wr_append [mem_simps]: "wr (pre @ x # post) (length pre) v = Some (pre @ v # post)"
  by (simp add: wr_def)

lemma wr_length: "wr buf i v = Some buf' \<Longrightarrow> length buf' = length buf"
  by (auto simp: wr_def split: if_splits)

lemma mem_read_append [mem_simps]:
  "mem_read (pre @ bs @ post) (length pre) (length bs) = Some bs"
  by (simp add: mem_read_def)

lemma mem_read_length: "mem_read buf i n = Some bs \<Longrightarrow> length bs = n"
  by (auto simp: mem_read_def split: if_splits)

lemma mem_write_append [mem_simps]:
  "length old = length bs \<Longrightarrow> mem_write (pre @ old @ post) (length pre) bs = Some (pre @ bs @ post)"
  by (simp add: mem_write_def)

lemma mem_write_length: "mem_write buf i bs = Some buf' \<Longrightarrow> length buf' = length buf"
  by (auto simp: mem_write_def split: if_splits)

lemma mem_write_Some_iff:
  "(\<exists>buf'. mem_write buf i bs = Some buf') \<longleftrightarrow> i + length bs \<le> length buf"
  by (auto simp: mem_write_def)

lemma memmove_length: "memmove buf d s n = Some buf' \<Longrightarrow> length buf' = length buf"
  by (auto simp: memmove_def bind_eq_Some_conv dest: mem_write_length)

lemma take_mem_write:
  assumes "mem_write buf i bs = Some buf'"
  shows "take (i + length bs) buf' = take i buf @ bs"
  using assms by (auto simp: mem_write_def split: if_splits)


section \<open>C strings and C arrays of bytes\<close>

text \<open>The characters of a NUL-terminated string; \<open>None\<close> where no NUL stops the scan.\<close>

definition cstr :: "bytes \<Rightarrow> bytes option" where
  "cstr block = (if 0 \<in> set block then Some (takeWhile (\<lambda>c. c \<noteq> 0) block) else None)"

definition strlen :: "bytes \<Rightarrow> nat option" where
  "strlen block = map_option length (cstr block)"

definition str_bytes :: "string \<Rightarrow> bytes" where
  "str_bytes s = map of_char s"

definition c_literal :: "string \<Rightarrow> bytes" where
  "c_literal s = str_bytes s @ [0]"

lemma cstr_prefix:
  assumes "cstr block = Some s"
  shows "length s < length block" and "take (length s) block = s"
proof -
  from assms have s: "s = takeWhile (\<lambda>c. c \<noteq> 0) block" and z: "0 \<in> set block"
    by (auto simp: cstr_def split: if_splits)
  have "takeWhile (\<lambda>c. c \<noteq> 0) block \<noteq> block"
    using z by (auto simp: takeWhile_eq_all_conv)
  then show "length s < length block"
    unfolding s by (metis length_takeWhile_le nat_less_le takeWhile_eq_take take_all_iff order_refl)
  show "take (length s) block = s"
    unfolding s by (metis takeWhile_eq_take)
qed

lemma cstr_terminated [simp]: "0 \<notin> set s \<Longrightarrow> cstr (s @ 0 # rest) = Some s"
  by (auto simp: cstr_def takeWhile_append2 takeWhile_tail)

lemma strlen_terminated [simp]: "0 \<notin> set s \<Longrightarrow> strlen (s @ 0 # rest) = Some (length s)"
  by (simp add: strlen_def)


section \<open>Reading a list at an index\<close>

definition nth_opt :: "'a list \<Rightarrow> nat \<Rightarrow> 'a option" where
  "nth_opt xs i = (if i < length xs then Some (xs ! i) else None)"

lemma nth_opt_Some [simp]: "i < length xs \<Longrightarrow> nth_opt xs i = Some (xs ! i)"
  by (simp add: nth_opt_def)

lemma nth_opt_eq_Some_iff: "nth_opt xs i = Some x \<longleftrightarrow> i < length xs \<and> x = xs ! i"
  by (auto simp: nth_opt_def)


section \<open>Runs\<close>

text \<open>
  \<open>returns r Q\<close>: the run \<open>r\<close> returns, with a result that satisfies \<open>Q\<close>; \<open>if_returns r Q\<close>: whatever it
  returns satisfies \<open>Q\<close>. Their rules take a run apart along its sequence of calls.
\<close>

definition returns :: "'a option \<Rightarrow> ('a \<Rightarrow> bool) \<Rightarrow> bool" where
  "returns r Q \<longleftrightarrow> (\<exists>x. r = Some x \<and> Q x)"

definition if_returns :: "'a option \<Rightarrow> ('a \<Rightarrow> bool) \<Rightarrow> bool" where
  "if_returns r Q \<longleftrightarrow> (\<forall>x. r = Some x \<longrightarrow> Q x)"

lemma returns_simps [simp]:
  "returns (Some x) Q \<longleftrightarrow> Q x" "\<not> returns None Q"
  "returns (Option.bind r f) Q \<longleftrightarrow> returns r (\<lambda>x. returns (f x) Q)"
  by (cases r; auto simp: returns_def)+

lemma if_returns_simps [simp]:
  "if_returns (Some x) Q \<longleftrightarrow> Q x" "if_returns None Q"
  "if_returns (Option.bind r f) Q \<longleftrightarrow> if_returns r (\<lambda>x. if_returns (f x) Q)"
  by (cases r; auto simp: if_returns_def)+

lemma returnsI: "r = Some x \<Longrightarrow> Q x \<Longrightarrow> returns r Q"
  by (simp add: returns_def)

lemma returnsE:
  assumes "returns r Q"
  obtains x where "r = Some x" "Q x"
  using assms by (auto simp: returns_def)

lemma if_returnsI: "(\<And>x. r = Some x \<Longrightarrow> Q x) \<Longrightarrow> if_returns r Q"
  by (simp add: if_returns_def)

lemma if_returnsD: "if_returns r Q \<Longrightarrow> r = Some x \<Longrightarrow> Q x"
  by (simp add: if_returns_def)

lemma returns_mono: "returns r Q \<Longrightarrow> (\<And>x. r = Some x \<Longrightarrow> Q x \<Longrightarrow> R x) \<Longrightarrow> returns r R"
  by (auto simp: returns_def)

lemma if_returns_mono: "if_returns r Q \<Longrightarrow> (\<And>x. Q x \<Longrightarrow> R x) \<Longrightarrow> if_returns r R"
  by (auto simp: if_returns_def)

end
