(* ===== verification/Coap_Pdu.thy ===== *)
theory Coap_Pdu
  imports Prelude
begin

text \<open>
  picocoap: the data types of \<^verbatim>\<open>coap.h\<close>, the header getters that are inline there and
  the header setters of \<^verbatim>\<open>coap.c\<close>. A packet keeps its buffer as a list of bytes; every
  access is bounds-checked against that list, whatever \<open>pdu_max\<close> and \<open>pdu_len\<close> say.
\<close>

section \<open>Data types of coap.h\<close>

datatype coap_error =
    CE_NONE
  | CE_INVALID_PACKET
  | CE_BAD_VERSION
  | CE_TOKEN_LENGTH_OUT_OF_RANGE
  | CE_UNKNOWN_CODE
  | CE_TOO_MANY_OPTIONS
  | CE_OUT_OF_ORDER_OPTIONS_LIST
  | CE_INSUFFICIENT_BUFFER
  | CE_FOUND_PAYLOAD_MARKER
  | CE_END_OF_PACKET

primrec ce_val :: "coap_error \<Rightarrow> u32" where
  "ce_val CE_NONE = 0"
| "ce_val CE_INVALID_PACKET = 1"
| "ce_val CE_BAD_VERSION = 2"
| "ce_val CE_TOKEN_LENGTH_OUT_OF_RANGE = 3"
| "ce_val CE_UNKNOWN_CODE = 4"
| "ce_val CE_TOO_MANY_OPTIONS = 5"
| "ce_val CE_OUT_OF_ORDER_OPTIONS_LIST = 6"
| "ce_val CE_INSUFFICIENT_BUFFER = 7"
| "ce_val CE_FOUND_PAYLOAD_MARKER = 8"
| "ce_val CE_END_OF_PACKET = 9"

datatype coap_version = COAP_V1

primrec cv_val :: "coap_version \<Rightarrow> u8" where
  "cv_val COAP_V1 = 1"

datatype coap_type = CT_CON | CT_NON | CT_ACK | CT_RST

primrec ct_val :: "coap_type \<Rightarrow> u8" where
  "ct_val CT_CON = 0"
| "ct_val CT_NON = 1"
| "ct_val CT_ACK = 2"
| "ct_val CT_RST = 3"

datatype coap_code =
    CC_EMPTY | CC_GET | CC_POST | CC_PUT | CC_DELETE
  | CC_CREATED | CC_DELETED | CC_VALID | CC_CHANGED | CC_CONTENT | CC_CONTINUE
  | CC_BAD_REQUEST | CC_UNAUTHORIZED | CC_BAD_OPTION | CC_FORBIDDEN | CC_NOT_FOUND
  | CC_METHOD_NOT_ALLOWED | CC_NOT_ACCEPTABLE | CC_REQUEST_ENTITY_INCOMPLETE
  | CC_PRECONDITION_FAILED | CC_REQUEST_ENTITY_TOO_LARGE | CC_UNSUPPORTED_CONTENT
  | CC_INTERNAL_SERVER_ERROR | CC_NOT_IMPLEMENTED | CC_BAD_GATEWAY
  | CC_SERVICE_UNAVAILABLE | CC_GATEWAY_TIMEOUT | CC_PROXYING_NOT_SUPPORTED

primrec cc_val :: "coap_code \<Rightarrow> u8" where
  "cc_val CC_EMPTY = 0"
| "cc_val CC_GET = 1"
| "cc_val CC_POST = 2"
| "cc_val CC_PUT = 3"
| "cc_val CC_DELETE = 4"
| "cc_val CC_CREATED = 65"
| "cc_val CC_DELETED = 66"
| "cc_val CC_VALID = 67"
| "cc_val CC_CHANGED = 68"
| "cc_val CC_CONTENT = 69"
| "cc_val CC_CONTINUE = 95"
| "cc_val CC_BAD_REQUEST = 128"
| "cc_val CC_UNAUTHORIZED = 129"
| "cc_val CC_BAD_OPTION = 130"
| "cc_val CC_FORBIDDEN = 131"
| "cc_val CC_NOT_FOUND = 132"
| "cc_val CC_METHOD_NOT_ALLOWED = 133"
| "cc_val CC_NOT_ACCEPTABLE = 134"
| "cc_val CC_REQUEST_ENTITY_INCOMPLETE = 136"
| "cc_val CC_PRECONDITION_FAILED = 140"
| "cc_val CC_REQUEST_ENTITY_TOO_LARGE = 141"
| "cc_val CC_UNSUPPORTED_CONTENT = 143"
| "cc_val CC_INTERNAL_SERVER_ERROR = 160"
| "cc_val CC_NOT_IMPLEMENTED = 161"
| "cc_val CC_BAD_GATEWAY = 162"
| "cc_val CC_SERVICE_UNAVAILABLE = 163"
| "cc_val CC_GATEWAY_TIMEOUT = 164"
| "cc_val CC_PROXYING_NOT_SUPPORTED = 165"

datatype coap_option_number =
    CON_IF_MATCH | CON_URI_HOST | CON_ETAG | CON_IF_NONE_MATCH | CON_OBSERVE | CON_URI_PORT
  | CON_LOCATION_PATH | CON_URI_PATH | CON_CONTENT_FORMATt | CON_MAX_AGE | CON_URI_QUERY
  | CON_ACCEPT | CON_LOCATION_QUERY | CON_PROXY_URI | CON_PROXY_SCHEME | CON_SIZE1

primrec con_val :: "coap_option_number \<Rightarrow> nat" where
  "con_val CON_IF_MATCH = 1"
| "con_val CON_URI_HOST = 3"
| "con_val CON_ETAG = 4"
| "con_val CON_IF_NONE_MATCH = 5"
| "con_val CON_OBSERVE = 6"
| "con_val CON_URI_PORT = 7"
| "con_val CON_LOCATION_PATH = 8"
| "con_val CON_URI_PATH = 11"
| "con_val CON_CONTENT_FORMATt = 12"
| "con_val CON_MAX_AGE = 14"
| "con_val CON_URI_QUERY = 15"
| "con_val CON_ACCEPT = 17"
| "con_val CON_LOCATION_QUERY = 20"
| "con_val CON_PROXY_URI = 35"
| "con_val CON_PROXY_SCHEME = 39"
| "con_val CON_SIZE1 = 60"

text \<open>
  \<open>pdu_buf\<close> is the array \<open>buf\<close> points to and \<open>pdu_addr\<close> the number that pointer is, which shows
  only where the code subtracts \<open>buf\<close> from a NULL pointer.
\<close>

record coap_pdu =
  pdu_buf :: bytes
  pdu_addr :: nat
  pdu_len :: nat
  pdu_max :: nat
  pdu_opt_ptr :: ptr

record coap_option =
  opt_num :: u16
  opt_len :: nat
  opt_val :: ptr

record coap_payload =
  pl_len :: nat
  pl_val :: ptr


section \<open>Header getters\<close>

definition coap_get_version :: "coap_pdu \<Rightarrow> u8 option" where
  "coap_get_version pdu = do { b \<leftarrow> rd (pdu_buf pdu) 0; Some (drop_bit 6 b) }"

definition coap_get_type :: "coap_pdu \<Rightarrow> u8 option" where
  "coap_get_type pdu = do { b \<leftarrow> rd (pdu_buf pdu) 0; Some (drop_bit 4 b AND 0x03) }"

definition coap_get_tkl :: "coap_pdu \<Rightarrow> u8 option" where
  "coap_get_tkl pdu = do { b \<leftarrow> rd (pdu_buf pdu) 0; Some (b AND 0x0F) }"

definition coap_get_code :: "coap_pdu \<Rightarrow> u8 option" where
  "coap_get_code pdu = rd (pdu_buf pdu) 1"

definition coap_get_code_class :: "coap_pdu \<Rightarrow> u8 option" where
  "coap_get_code_class pdu = do { c \<leftarrow> coap_get_code pdu; Some (drop_bit 5 c) }"

definition coap_get_code_detail :: "coap_pdu \<Rightarrow> u8 option" where
  "coap_get_code_detail pdu = do { c \<leftarrow> coap_get_code pdu; Some (c AND 0x1F) }"

definition coap_get_mid :: "coap_pdu \<Rightarrow> u16 option" where
  "coap_get_mid pdu =
     do { b2 \<leftarrow> rd (pdu_buf pdu) 2; b3 \<leftarrow> rd (pdu_buf pdu) 3;
          Some (push_bit 8 (ucast b2) OR ucast b3) }"

definition coap_build_code :: "u8 \<Rightarrow> u8 \<Rightarrow> u8" where
  "coap_build_code cls detail = push_bit 5 cls OR detail"

text \<open>memcpy between a 64-bit integer and its bytes, least significant first.\<close>

fun bytes_le :: "nat \<Rightarrow> u64 \<Rightarrow> bytes" where
  "bytes_le 0 t = []"
| "bytes_le (Suc n) t = ucast t # bytes_le n (drop_bit 8 t)"

fun le_bytes :: "bytes \<Rightarrow> u64" where
  "le_bytes [] = 0"
| "le_bytes (b # bs) = ucast b OR push_bit 8 (le_bytes bs)"

text \<open>
  The destination of this memcpy is the 8-byte variable \<open>token\<close>: a token length above 8 would
  write past it.
\<close>

definition coap_get_token :: "coap_pdu \<Rightarrow> u64 option" where
  "coap_get_token pdu =
     do { b \<leftarrow> rd (pdu_buf pdu) 0;
          let tkl = unat (b AND 0x0F);
          if pdu_len pdu < 4 + tkl then Some 0
          else if tkl > 8 then None
          else do { bs \<leftarrow> mem_read (pdu_buf pdu) 4 tkl; Some (le_bytes bs) } }"


section \<open>Header setters\<close>

definition grow_len :: "nat \<Rightarrow> coap_pdu \<Rightarrow> coap_pdu" where
  "grow_len n pdu = (if pdu_len pdu < n then pdu\<lparr>pdu_len := n\<rparr> else pdu)"

definition coap_set_version :: "coap_pdu \<Rightarrow> u8 \<Rightarrow> (coap_error \<times> coap_pdu) option" where
  "coap_set_version pdu ver =
     (if pdu_max pdu < 1 then Some (CE_INSUFFICIENT_BUFFER, pdu)
      else do { b \<leftarrow> rd (pdu_buf pdu) 0;
                buf \<leftarrow> wr (pdu_buf pdu) 0 (push_bit 6 ver OR (b AND 0x3F));
                Some (CE_NONE, grow_len 1 (pdu\<lparr>pdu_buf := buf\<rparr>)) })"

definition coap_set_type :: "coap_pdu \<Rightarrow> u8 \<Rightarrow> (coap_error \<times> coap_pdu) option" where
  "coap_set_type pdu mtype =
     (if pdu_max pdu < 1 then Some (CE_INSUFFICIENT_BUFFER, pdu)
      else do { b \<leftarrow> rd (pdu_buf pdu) 0;
                buf \<leftarrow> wr (pdu_buf pdu) 0 (push_bit 4 mtype OR (b AND 0xCF));
                Some (CE_NONE, grow_len 1 (pdu\<lparr>pdu_buf := buf\<rparr>)) })"

definition coap_set_code :: "coap_pdu \<Rightarrow> u8 \<Rightarrow> (coap_error \<times> coap_pdu) option" where
  "coap_set_code pdu code =
     (if pdu_max pdu < 2 then Some (CE_INSUFFICIENT_BUFFER, pdu)
      else do { buf \<leftarrow> wr (pdu_buf pdu) 1 code;
                Some (CE_NONE, grow_len 2 (pdu\<lparr>pdu_buf := buf\<rparr>)) })"

definition coap_set_mid :: "coap_pdu \<Rightarrow> u16 \<Rightarrow> (coap_error \<times> coap_pdu) option" where
  "coap_set_mid pdu mid =
     (if pdu_max pdu < 4 then Some (CE_INSUFFICIENT_BUFFER, pdu)
      else do { buf \<leftarrow> wr (pdu_buf pdu) 2 (ucast (drop_bit 8 mid));
                buf \<leftarrow> wr buf 3 (ucast (mid AND 0xFF));
                Some (CE_NONE, grow_len 4 (pdu\<lparr>pdu_buf := buf\<rparr>)) })"

text \<open>
  \<open>tkl - coap_get_tkl(pdu)\<close> is an int; adding it to a size_t converts it, so the sum is taken
  modulo \<open>2^64\<close>. The source operand \<open>&token\<close> has 8 bytes and \<open>tkl\<close> is at most 8 there.
\<close>

definition coap_set_token :: "coap_pdu \<Rightarrow> u64 \<Rightarrow> u8 \<Rightarrow> (coap_error \<times> coap_pdu) option" where
  "coap_set_token pdu token tkl8 =
     (let tkl = unat tkl8 in
      if pdu_max pdu < 4 + tkl then Some (CE_INSUFFICIENT_BUFFER, pdu)
      else if tkl > 8 then Some (CE_INVALID_PACKET, pdu)
      else do { old8 \<leftarrow> coap_get_tkl pdu;
                let old = unat old8;
                let newlen = of_int64 (int (pdu_len pdu) + (int tkl - int old));
                if pdu_len pdu > 4 \<and> pdu_max pdu < newlen then Some (CE_INSUFFICIENT_BUFFER, pdu)
                else do {
                  buf \<leftarrow> (if pdu_len pdu > 4
                         then memmove (pdu_buf pdu) (4 + tkl) (4 + old)
                                (sub64 (sub64 (pdu_len pdu) 4) old)
                         else Some (pdu_buf pdu));
                  buf \<leftarrow> mem_write buf 4 (bytes_le tkl token);
                  old8' \<leftarrow> rd buf 0;
                  let len' = of_int64 (int (pdu_len pdu) + (int tkl - int (unat (old8' AND 0x0F))));
                  buf \<leftarrow> wr buf 0 ((tkl8 AND 0x0F) OR (old8' AND 0xF0));
                  Some (CE_NONE, pdu\<lparr>pdu_buf := buf, pdu_len := len'\<rparr>) } })"

definition coap_init_pdu :: "coap_pdu \<Rightarrow> (coap_error \<times> coap_pdu) option" where
  "coap_init_pdu pdu =
     (if pdu_max pdu < 4 then Some (CE_INSUFFICIENT_BUFFER, pdu)
      else do { buf \<leftarrow> mem_write (pdu_buf pdu) 0 [0, 0, 0, 0];
                let pdu = pdu\<lparr>pdu_len := 0, pdu_buf := buf\<rparr>;
                (_, pdu) \<leftarrow> coap_set_version pdu (cv_val COAP_V1);
                (_, pdu) \<leftarrow> coap_set_type pdu (ct_val CT_RST);
                (_, pdu) \<leftarrow> coap_set_token pdu 0 0;
                (_, pdu) \<leftarrow> coap_set_code pdu (cc_val CC_EMPTY);
                (_, pdu) \<leftarrow> coap_set_mid pdu 0;
                Some (CE_NONE, pdu\<lparr>pdu_opt_ptr := NULL\<rparr>) })"

end
