(* ===== verification/Coap_Option.thy ===== *)
theory Coap_Option
  imports Coap_Pdu
begin

text \<open>
  The option codec of \<^verbatim>\<open>coap.c\<close>: \<open>coap_decode_option\<close>, \<open>coap_build_option_header\<close> and
  \<open>coap_compute_option_header_len\<close>, against the option format of RFC 7252 section 3.1 written
  as the encoder \<open>opt_header\<close>.
\<close>

section \<open>The option functions\<close>

text \<open>
  The reference parameters (number, length, value) are the fields of a \<open>coap_option\<close>, written
  only when an option was decoded. Callers that pass NULL for one of them ignore the field.
  A delta or length nibble of 13 or 14 reads one or two more bytes; the sums are uint16_t.
\<close>

definition decode_ext :: "bytes \<Rightarrow> u16 \<Rightarrow> ptr \<Rightarrow> (coap_error \<times> u16 \<times> ptr) option" where
  "decode_ext buf base p =
     (if base < 13 then Some (CE_NONE, base, p)
      else if base = 13 then
        do { b \<leftarrow> deref buf p; Some (CE_NONE, ucast b + 13, ptr_add p 1) }
      else if base = 14 then
        do { b1 \<leftarrow> deref buf p; b2 \<leftarrow> deref buf (ptr_add p 1);
             Some (CE_NONE, push_bit 8 (ucast b1) + ucast b2 + 269, ptr_add p 2) }
      else Some (CE_INVALID_PACKET, base, p))"

definition coap_decode_option ::
  "bytes \<Rightarrow> ptr \<Rightarrow> nat \<Rightarrow> coap_option \<Rightarrow> (coap_error \<times> coap_option) option" where
  "coap_decode_option buf pkt_ptr pkt_len opt =
     (if pkt_len = 0 then Some (CE_END_OF_PACKET, opt)
      else do {
        b \<leftarrow> deref buf pkt_ptr;
        if b = 0xFF then Some (CE_FOUND_PAYLOAD_MARKER, opt)
        else do {
          (err, delta, p) \<leftarrow> decode_ext buf (ucast (drop_bit 4 b)) (ptr_add pkt_ptr 1);
          if err \<noteq> CE_NONE then Some (err, opt)
          else do {
            (err, olen, p) \<leftarrow> decode_ext buf (ucast (b AND 0x0F)) p;
            if err \<noteq> CE_NONE then Some (err, opt)
            else Some (CE_NONE, \<lparr>opt_num = opt_num opt + delta, opt_len = unat olen,
                                 opt_val = p\<rparr>) } } })"

text \<open>
  \<open>coap_build_option_header\<close> returns the header length, or the number of
  \<open>CE_INSUFFICIENT_BUFFER\<close>. Its argument \<open>buf\<close> is the offset \<open>p\<close> here; deltas and lengths are
  int32_t, and storing one in a byte keeps its low 8 bits.
\<close>

definition build_ext :: "bytes \<Rightarrow> nat \<Rightarrow> nat \<Rightarrow> nat \<Rightarrow> int \<Rightarrow> (bool \<times> u8 \<times> nat \<times> bytes) option" where
  "build_ext buf p q max_len x =
     (if x < 13 then Some (True, word_of_int x, q, buf)
      else if x < 269 then
        (if max_len < q - p + 1 then Some (False, 0, q, buf)
         else do { buf \<leftarrow> wr buf q (word_of_int (x - 13)); Some (True, 13, q + 1, buf) })
      else
        (if max_len < q - p + 2 then Some (False, 0, q, buf)
         else do { buf \<leftarrow> wr buf q (word_of_int (drop_bit 8 (x - 269)));
                   buf \<leftarrow> wr buf (q + 1) (word_of_int ((x - 269) AND 0xFF));
                   Some (True, 14, q + 2, buf) }))"

definition coap_build_option_header ::
  "bytes \<Rightarrow> nat \<Rightarrow> nat \<Rightarrow> int \<Rightarrow> int \<Rightarrow> (int \<times> bytes) option" where
  "coap_build_option_header buf p max_len delta olen =
     (let insufficient = uint (ce_val CE_INSUFFICIENT_BUFFER) in
      if max_len < 1 then Some (insufficient, buf)
      else do {
        (ok, base_num, q, buf) \<leftarrow> build_ext buf p (p + 1) max_len delta;
        if \<not> ok then Some (insufficient, buf)
        else do {
          (ok, base_len, q, buf) \<leftarrow> build_ext buf p q max_len olen;
          if \<not> ok then Some (insufficient, buf)
          else do {
            buf \<leftarrow> wr buf p (push_bit 4 base_num OR base_len);
            Some (int (q - p), buf) } } })"

definition coap_compute_option_header_len :: "int \<Rightarrow> int \<Rightarrow> nat" where
  "coap_compute_option_header_len delta olen =
     1 + (if delta < 13 then 0 else if delta < 269 then 1 else 2)
       + (if olen < 13 then 0 else if olen < 269 then 1 else 2)"


section \<open>The wire format\<close>

definition ext_nibble :: "nat \<Rightarrow> nat" where
  "ext_nibble x = (if x < 13 then x else if x < 269 then 13 else 14)"

definition ext_bytes :: "nat \<Rightarrow> bytes" where
  "ext_bytes x = (if x < 13 then [] else if x < 269 then [of_nat (x - 13)]
                  else [of_nat ((x - 269) div 256), of_nat ((x - 269) mod 256)])"

definition opt_header :: "nat \<Rightarrow> nat \<Rightarrow> bytes" where
  "opt_header delta l =
     of_nat (16 * ext_nibble delta + ext_nibble l) # ext_bytes delta @ ext_bytes l"

lemma ext_nibble_le: "ext_nibble x \<le> 14"
  by (simp add: ext_nibble_def)

lemma length_opt_header [simp]:
  "length (opt_header d l) = 1 + length (ext_bytes d) + length (ext_bytes l)"
  by (simp add: opt_header_def)

lemma length_ext_bytes: "length (ext_bytes x) = (if x < 13 then 0 else if x < 269 then 1 else 2)"
  by (simp add: ext_bytes_def)

lemma compute_header_len_correct:
  "coap_compute_option_header_len (int d) (int l) = length (opt_header d l)"
  by (simp add: coap_compute_option_header_len_def length_ext_bytes)

lemma u8_nibbles:
  assumes "x < 256"
  shows "drop_bit 4 (of_nat x :: u8) = of_nat (x div 16)"
    and "(of_nat x :: u8) AND 15 = of_nat (x mod 16)"
proof -
  have u: "unat (of_nat x :: u8) = x"
    using assms by (rule unat_of_nat_u8)
  have "unat (drop_bit 4 (of_nat x :: u8)) = drop_bit 4 x"
    by (simp only: unat_drop_bit_eq u)
  also have "\<dots> = unat (of_nat (x div 16) :: u8)"
    using assms by (simp add: drop_bit_eq_div unat_of_nat)
  finally show "drop_bit 4 (of_nat x :: u8) = of_nat (x div 16)"
    by (rule word_unat_eq_iff [THEN iffD2])
  have "unat ((of_nat x :: u8) AND 15) = unat (take_bit 4 (of_nat x :: u8))"
    by (simp add: take_bit_eq_mask mask_eq_exp_minus_1)
  also have "\<dots> = take_bit 4 x"
    by (simp only: unsigned_take_bit_eq u)
  also have "\<dots> = unat (of_nat (x mod 16) :: u8)"
    by (simp add: take_bit_eq_mod unat_of_nat)
  finally show "(of_nat x :: u8) AND 15 = of_nat (x mod 16)"
    by (rule word_unat_eq_iff [THEN iffD2])
qed

lemma header_byte_nibbles:
  assumes "m < 16" "n < 16"
  shows "drop_bit 4 (of_nat (16 * m + n) :: u8) = of_nat m"
    and "(of_nat (16 * m + n) :: u8) AND 15 = of_nat n"
  using assms u8_nibbles [of "16 * m + n"] by simp_all

lemma header_byte_build:
  assumes "m < 16" "n < 16"
  shows "push_bit 4 (of_nat m :: u8) OR of_nat n = of_nat (16 * m + n)"
proof -
  have "push_bit 4 (of_nat m :: u8) AND of_nat n = 0"
  proof (rule bit_eqI)
    fix k
    show "bit (push_bit 4 (of_nat m :: u8) AND of_nat n) k = bit (0 :: u8) k"
    proof (cases "k < 4")
      case False
      then have "(2 :: nat) ^ 4 \<le> 2 ^ k" by (intro power_increasing) simp_all
      then have "n < 2 ^ k" using assms by simp
      then have "\<not> bit n k" by (simp add: bit_iff_odd)
      then show ?thesis by (simp add: bit_and_iff bit_of_nat_iff)
    qed (simp add: bit_and_iff bit_push_bit_iff)
  qed
  then have "push_bit 4 (of_nat m :: u8) OR of_nat n = push_bit 4 (of_nat m) + of_nat n"
    by (simp add: disjunctive_add_eq_or)
  then show ?thesis by (simp add: push_bit_eq_mult)
qed

lemma header_byte_not_marker:
  assumes "m \<le> 14" "n \<le> 14"
  shows "(of_nat (16 * m + n) :: u8) \<noteq> 255"
proof
  assume "(of_nat (16 * m + n) :: u8) = 255"
  then have "unat (of_nat (16 * m + n) :: u8) = unat (255 :: u8)" by (rule arg_cong)
  moreover have "unat (of_nat (16 * m + n) :: u8) = 16 * m + n"
    using assms by (intro unat_of_nat_u8) simp
  ultimately show False using assms by simp
qed


section \<open>Decoding\<close>

text \<open>
  Two extension bytes hold up to 65535, so a delta or length field goes up to 65535 + 269.
  Beyond 65535 the uint16_t that receives it wraps.
\<close>

definition ext_limit :: nat where
  "ext_limit = 65805"

lemma u16_of_two_bytes:
  "push_bit 8 (ucast b1) + ucast b2 + 269 = (of_nat (unat b1 * 256 + unat b2 + 269) :: u16)"
  for b1 b2 :: u8
proof -
  have "(ucast b :: u16) = of_nat (unat b)" for b :: u8
    by (simp add: unsigned_of_nat)
  then show ?thesis by (simp add: push_bit_eq_mult mult.commute)
qed

lemma decode_ext_correct:
  assumes "x < ext_limit"
  shows "decode_ext (pre @ ext_bytes x @ rest) (of_nat (ext_nibble x)) (Buf (length pre)) =
           Some (CE_NONE, of_nat x, Buf (length pre + length (ext_bytes x)))"
proof -
  consider "x < 13" | "13 \<le> x" "x < 269" | "269 \<le> x" by linarith
  then show ?thesis
  proof cases
    case 1
    then have "(of_nat x :: u16) < 13"
      by (simp add: word_less_nat_alt unat_of_nat)
    with 1 show ?thesis
      by (simp add: decode_ext_def ext_bytes_def ext_nibble_def)
  next
    case 2
    then have "ucast (of_nat (x - 13) :: u8) = (of_nat (x - 13) :: u16)"
      by (intro of_nat_ucast_u16) simp
    moreover have "of_nat (x - 13) + 13 = (of_nat (x - 13 + 13) :: u16)"
      by (simp only: of_nat_add of_nat_numeral)
    ultimately have "ucast (of_nat (x - 13) :: u8) + 13 = (of_nat x :: u16)"
      using 2 by simp
    with 2 show ?thesis
      by (simp add: decode_ext_def ext_bytes_def ext_nibble_def rd_append)
  next
    case 3
    define hi lo where "hi = (x - 269) div 256" and "lo = (x - 269) mod 256"
    have "hi < 256" "lo < 256" "hi * 256 + lo + 269 = x"
      using 3 assms unfolding hi_def lo_def ext_limit_def by simp_all
    then have v: "push_bit 8 (ucast (of_nat hi :: u8)) + ucast (of_nat lo :: u8) + 269 = (of_nat x :: u16)"
      by (simp add: u16_of_two_bytes unat_of_nat_u8)
    have "rd (pre @ of_nat hi # of_nat lo # rest) (Suc (length pre)) = Some (of_nat lo)"
      by (simp add: rd_def nth_append)
    with 3 v show ?thesis
      by (simp add: decode_ext_def ext_bytes_def ext_nibble_def rd_append flip: hi_def lo_def)
  qed
qed

lemma decode_option_header:
  assumes "d < ext_limit" "l < ext_limit" "pkt_len \<noteq> 0"
  shows "coap_decode_option (pre @ opt_header d l @ rest) (Buf (length pre)) pkt_len opt =
           Some (CE_NONE, \<lparr>opt_num = opt_num opt + of_nat d, opt_len = l mod 65536,
                           opt_val = Buf (length pre + length (opt_header d l))\<rparr>)"
proof -
  let ?b = "of_nat (16 * ext_nibble d + ext_nibble l) :: u8"
  have le: "ext_nibble d \<le> 14" "ext_nibble l \<le> 14"
    by (rule ext_nibble_le)+
  then have lt: "ext_nibble d < 16" "ext_nibble l < 16" by simp_all
  have nib: "drop_bit 4 ?b = of_nat (ext_nibble d)" "?b AND 15 = of_nat (ext_nibble l)"
    using lt by (rule header_byte_nibbles)+
  have c: "(ucast (of_nat n :: u8) :: u16) = of_nat n" if "n \<le> 14" for n
    using that by (intro of_nat_ucast_u16) simp
  have D: "decode_ext (pre @ opt_header d l @ rest) (of_nat (ext_nibble d)) (Buf (length pre + 1)) =
             Some (CE_NONE, of_nat d, Buf (length pre + 1 + length (ext_bytes d)))"
    using decode_ext_correct [OF assms(1), of "pre @ [?b]" "ext_bytes l @ rest"]
    by (simp add: opt_header_def)
  have L: "decode_ext (pre @ opt_header d l @ rest) (of_nat (ext_nibble l))
             (Buf (length pre + 1 + length (ext_bytes d))) =
             Some (CE_NONE, of_nat l, Buf (length pre + length (opt_header d l)))"
    using decode_ext_correct [OF assms(2), of "pre @ ?b # ext_bytes d" rest]
    by (simp add: opt_header_def)
  have b: "rd (pre @ opt_header d l @ rest) (length pre) = Some ?b"
    by (simp add: opt_header_def rd_append)
  have ne: "?b \<noteq> 255"
    using le by (rule header_byte_not_marker)
  show ?thesis
    unfolding coap_decode_option_def
    using assms(3) ne
    by (simp only: deref.simps b nib c [OF le(1)] c [OF le(2)] ptr_add.simps D L bind.bind_lunit
        if_False if_True simp_thms prod.case coap_error.simps) (simp add: unat_of_nat)
qed


text \<open>The converse: whatever \<open>coap_decode_option\<close> accepts is an option header.\<close>

lemma decode_ext_sound:
  assumes "decode_ext buf (of_nat n) (Buf q) = Some (CE_NONE, v, p)" "n < 16" "q \<le> length buf"
  shows "\<exists>x < ext_limit. n = ext_nibble x \<and> v = of_nat x \<and> p = Buf (q + length (ext_bytes x)) \<and>
           q + length (ext_bytes x) \<le> length buf \<and>
           take (length (ext_bytes x)) (drop q buf) = ext_bytes x"
proof -
  have nw: "unat (of_nat n :: u16) = n"
    using assms(2) by (intro unat_of_nat_u16) simp
  then have lt13: "(of_nat n :: u16) < 13 \<longleftrightarrow> n < 13"
    and eqs: "(of_nat n :: u16) = 13 \<longleftrightarrow> n = 13" "(of_nat n :: u16) = 14 \<longleftrightarrow> n = 14"
    by (simp_all add: word_less_nat_alt word_unat_eq_iff)
  consider "n < 13" | "n = 13" | "n = 14" | "n = 15" using assms(2) by linarith
  then show ?thesis
  proof cases
    case 1
    with assms lt13 show ?thesis
      by (intro exI [of _ n]) (auto simp: decode_ext_def ext_limit_def ext_nibble_def ext_bytes_def)
  next
    case 2
    with assms lt13 eqs obtain b where b: "rd buf q = Some b" "v = ucast b + 13" "p = Buf (q + 1)"
      by (auto simp: decode_ext_def bind_eq_Some_conv)
    have x: "unat b + 13 < 269" using u8_unat_lt [of b] by simp
    from b(1) have "q < length buf" "drop q buf = b # drop (Suc q) buf"
      by (auto simp: rd_eq_Some_iff Cons_nth_drop_Suc)
    with x b 2 show ?thesis
      by (intro exI [of _ "unat b + 13"])
        (auto simp: ext_limit_def ext_nibble_def ext_bytes_def unsigned_of_nat)
  next
    case 3
    with assms lt13 eqs obtain b1 b2 where b: "rd buf q = Some b1" "rd buf (q + 1) = Some b2"
      "v = push_bit 8 (ucast b1) + ucast b2 + 269" "p = Buf (q + 2)"
      by (auto simp: decode_ext_def bind_eq_Some_conv)
    define x where "x = unat b1 * 256 + unat b2 + 269"
    have v: "v = of_nat x"
      unfolding b(3) x_def by (rule u16_of_two_bytes)
    have r: "unat b1 < 256" "unat b2 < 256"
      by (rule u8_unat_lt)+
    then have "(x - 269) div 256 = unat b1" "(x - 269) mod 256 = unat b2"
      by (simp_all add: x_def)
    then have e: "ext_bytes x = [b1, b2]" "ext_nibble x = 14"
      by (simp_all add: ext_bytes_def ext_nibble_def x_def)
    from b(1,2) have "q + 2 \<le> length buf" "drop q buf = b1 # b2 # drop (Suc (Suc q)) buf"
      by (auto simp: rd_eq_Some_iff Cons_nth_drop_Suc)
    with 3 v e b(4) r show ?thesis
      by (intro exI [of _ x]) (auto simp: x_def ext_limit_def)
  next
    case 4
    with assms lt13 eqs show ?thesis by (simp add: decode_ext_def)
  qed
qed

lemma decode_option_sound:
  assumes "coap_decode_option buf ptr pkt_len opt = Some (CE_NONE, opt')"
  obtains q d l where "ptr = Buf q" "d < ext_limit" "l < ext_limit"
    "q + length (opt_header d l) \<le> length buf"
    "take (length (opt_header d l)) (drop q buf) = opt_header d l"
    "opt_num opt' = opt_num opt + of_nat d" "opt_len opt' = l mod 65536"
    "opt_val opt' = Buf (q + length (opt_header d l))"
proof -
  from assms obtain q b delta p olen p' where ptr: "ptr = Buf q" and b: "rd buf q = Some b"
    and D: "decode_ext buf (ucast (drop_bit 4 b)) (Buf (q + 1)) = Some (CE_NONE, delta, p)"
    and L: "decode_ext buf (ucast (b AND 15)) p = Some (CE_NONE, olen, p')"
    and opt': "opt' = \<lparr>opt_num = opt_num opt + delta, opt_len = unat olen, opt_val = p'\<rparr>"
    by (cases ptr) (auto simp: coap_decode_option_def bind_eq_Some_conv split: if_splits)
  define m n where "m = unat b div 16" and "n = unat b mod 16"
  have ub: "unat b < 256" by (rule u8_unat_lt)
  then have mn: "m < 16" "n < 16" and ubmn: "unat b = 16 * m + n"
    by (auto simp: m_def n_def)
  have "drop_bit 4 b = of_nat m" "b AND 15 = of_nat n"
    using u8_nibbles [OF ub] by (simp_all add: m_def n_def)
  then have "ucast (drop_bit 4 b) = (of_nat m :: u16)" "ucast (b AND 15) = (of_nat n :: u16)"
    using mn by (simp_all add: of_nat_ucast_u16)
  note D = D [unfolded this] and L = L [unfolded this]
  have q1: "q + 1 \<le> length buf" using b by (simp add: rd_eq_Some_iff)
  obtain d where d: "d < ext_limit" "m = ext_nibble d" "delta = of_nat d"
    "p = Buf (q + 1 + length (ext_bytes d))" "q + 1 + length (ext_bytes d) \<le> length buf"
    "take (length (ext_bytes d)) (drop (q + 1) buf) = ext_bytes d"
    using decode_ext_sound [OF D mn(1) q1] by blast
  obtain l where l: "l < ext_limit" "n = ext_nibble l" "olen = of_nat l"
    "p' = Buf (q + 1 + length (ext_bytes d) + length (ext_bytes l))"
    "q + 1 + length (ext_bytes d) + length (ext_bytes l) \<le> length buf"
    "take (length (ext_bytes l)) (drop (q + 1 + length (ext_bytes d)) buf) = ext_bytes l"
    using decode_ext_sound [OF L [unfolded d(4)] mn(2) d(5)] by blast
  have "drop q buf = b # drop (q + 1) buf"
    using b by (simp add: rd_eq_Some_iff Cons_nth_drop_Suc)
  moreover have "b = of_nat (16 * ext_nibble d + ext_nibble l)"
    using ubmn d(2) l(2) by (metis of_nat_unat ucast_id)
  moreover have "take (length (ext_bytes d) + length (ext_bytes l)) (drop (q + 1) buf) =
      ext_bytes d @ ext_bytes l"
    using d(6) l(6) by (simp add: take_add add.commute)
  ultimately have "take (length (opt_header d l)) (drop q buf) = opt_header d l"
    by (simp add: opt_header_def)
  then show thesis
    using that [of q d l] ptr d l opt' by (simp add: unat_of_nat)
qed


section \<open>Building headers\<close>

lemma build_ext_correct:
  assumes "x < ext_limit" "length old = length (ext_bytes x)" "length pre - p + length old \<le> max_len"
  shows "build_ext (pre @ old @ rest) p (length pre) max_len (int x) =
           Some (True, of_nat (ext_nibble x), length pre + length old, pre @ ext_bytes x @ rest)"
proof -
  consider "x < 13" | "13 \<le> x" "x < 269" | "269 \<le> x" by linarith
  then show ?thesis
  proof cases
    case 1
    with assms show ?thesis by (simp add: build_ext_def ext_bytes_def ext_nibble_def)
  next
    case 2
    then obtain o1 where old: "old = [o1]"
      using assms(2) by (auto simp: length_ext_bytes length_Suc_conv)
    have "int x - 13 = int (x - 13)" using 2 by simp
    then have "(word_of_int (int x - 13) :: u8) = of_nat (x - 13)"
      by (simp only: of_int_of_nat_eq)
    with 2 assms old show ?thesis
      by (simp add: build_ext_def ext_bytes_def ext_nibble_def wr_append)
  next
    case 3
    then obtain o1 o2 where old: "old = [o1, o2]"
      using assms(2) by (auto simp: length_ext_bytes length_Suc_conv numeral_2_eq_2)
    have hi: "drop_bit 8 (int x - 269) = int ((x - 269) div 256)"
      using 3 by (simp add: drop_bit_eq_div zdiv_int)
    have "(int x - 269) AND 255 = take_bit 8 (int x - 269)"
      by (simp add: take_bit_eq_mask mask_eq_exp_minus_1)
    then have lo: "(int x - 269) AND 255 = int ((x - 269) mod 256)"
      using 3 by (simp add: take_bit_eq_mod zmod_int)
    have W: "wr (pre @ v # o2 # rest) (Suc (length pre)) w = Some (pre @ v # w # rest)" for v w
      using wr_append [of "pre @ [v]" o2 rest w] by simp
    from 3 assms old show ?thesis
      unfolding build_ext_def hi lo
      by (simp add: ext_bytes_def ext_nibble_def wr_append W del: of_nat_div of_nat_mod)
  qed
qed

text \<open>
  The header the code writes is the wire format, and its length is the one
  \<open>coap_compute_option_header_len\<close> announced; only those bytes change.
\<close>

lemma build_option_header_correct:
  assumes "d < ext_limit" "l < ext_limit" "length old = length (opt_header d l)"
  shows "coap_build_option_header (pre @ old @ rest) (length pre)
           (coap_compute_option_header_len (int d) (int l)) (int d) (int l) =
         Some (int (coap_compute_option_header_len (int d) (int l)), pre @ opt_header d l @ rest)"
proof -
  let ?n = "length (opt_header d l)"
  from assms(3) obtain o0 od ol where old: "old = o0 # od @ ol"
    "length od = length (ext_bytes d)" "length ol = length (ext_bytes l)"
    by (cases old) (auto, metis append_take_drop_id length_append add_diff_cancel_left' length_drop
        length_take min.absorb2 le_add1)
  have D: "build_ext (pre @ old @ rest) (length pre) (length pre + 1) ?n (int d) =
      Some (True, of_nat (ext_nibble d), length pre + 1 + length od,
            (pre @ [o0] @ ext_bytes d) @ ol @ rest)"
    using build_ext_correct [OF assms(1) old(2), of "pre @ [o0]" "length pre" ?n "ol @ rest"] old
    by simp
  have L: "build_ext ((pre @ [o0] @ ext_bytes d) @ ol @ rest) (length pre)
      (length pre + 1 + length od) ?n (int l) =
      Some (True, of_nat (ext_nibble l), length pre + ?n,
            (pre @ [o0] @ ext_bytes d) @ ext_bytes l @ rest)"
    using build_ext_correct [OF assms(2) old(3), of "pre @ [o0] @ ext_bytes d" "length pre" ?n rest] old
    by simp
  have B: "push_bit 4 (of_nat (ext_nibble d) :: u8) OR of_nat (ext_nibble l) =
      of_nat (16 * ext_nibble d + ext_nibble l)"
    using ext_nibble_le [of d] ext_nibble_le [of l] by (intro header_byte_build) simp_all
  show ?thesis
    unfolding compute_header_len_correct coap_build_option_header_def Let_def
    by (simp only: D L B bind.bind_lunit prod.case if_False simp_thms)
      (simp add: opt_header_def wr_append)
qed

end
