(* ===== verification/Coap_Message.thy ===== *)
theory Coap_Message
  imports Coap_Option
begin

text \<open>
  The functions of \<^verbatim>\<open>coap.c\<close> that work on a whole packet: validation, the option iterator,
  the payload, and adding options and a payload. The scanning loops are recursive functions;
  each step passes at least one byte of the buffer, and a scan that leaves it reads out of bounds.
\<close>

section \<open>Scanning facts\<close>

abbreviation opt_end :: "coap_option \<Rightarrow> ptr" where
  "opt_end opt \<equiv> ptr_add (opt_val opt) (opt_len opt)"

definition opt_at :: "nat \<Rightarrow> coap_option" where
  "opt_at off = \<lparr>opt_num = 0, opt_len = 0, opt_val = Buf off\<rparr>"

lemma decode_option_advances:
  assumes "coap_decode_option buf ptr pkt_len opt = Some (CE_NONE, opt')"
  shows "ptr_off ptr < length buf" and "ptr_off ptr < ptr_off (opt_val opt')"
    and "ptr_off (opt_end opt') = ptr_off (opt_val opt') + opt_len opt'"
  using assms by (elim decode_option_sound; simp)+

lemma build_ext_length: "build_ext buf p q m x = Some (ok, b, q', buf') \<Longrightarrow> length buf' = length buf"
  by (auto simp: build_ext_def bind_eq_Some_conv dest!: wr_length split: if_splits)

lemma build_option_header_length:
  "coap_build_option_header buf p m d l = Some (r, buf') \<Longrightarrow> length buf' = length buf"
  by (auto simp: coap_build_option_header_def Let_def bind_eq_Some_conv
      dest!: wr_length build_ext_length split: if_splits)


section \<open>Validation\<close>

text \<open>
  The loop over the options is written \<open>while ((err = coap_decode_option(...)) != 0)\<close>. It stops
  as soon as an option was decoded, and every branch of its body but the unreachable
  \<open>err == CE_NONE\<close> leaves it, so the body runs at most once.
\<close>

definition coap_validate_pkt :: "coap_pdu \<Rightarrow> (coap_error \<times> coap_pdu) option" where
  "coap_validate_pkt pdu0 =
     (let pdu = pdu0\<lparr>pdu_opt_ptr := NULL\<rparr> in
      if pdu_len pdu > pdu_max pdu then Some (CE_INVALID_PACKET, pdu)
      else if pdu_len pdu < 4 then Some (CE_INVALID_PACKET, pdu)
      else do {
        v \<leftarrow> coap_get_version pdu;
        if v \<noteq> 1 then Some (CE_INVALID_PACKET, pdu)
        else do {
          tkl \<leftarrow> coap_get_tkl pdu;
          if tkl > 8 then Some (CE_INVALID_PACKET, pdu)
          else do {
            let ov = 4 + unat tkl;
            (err, opt) \<leftarrow> coap_decode_option (pdu_buf pdu) (Buf ov) (sub64 (pdu_len pdu) ov) (opt_at ov);
            if err = CE_NONE then Some (CE_NONE, pdu)
            else if err = CE_END_OF_PACKET then Some (CE_NONE, pdu)
            else if err = CE_FOUND_PAYLOAD_MARKER then
              (if pdu_len pdu = ptr_off (opt_end opt) then Some (CE_INVALID_PACKET, pdu)
               else Some (CE_NONE, pdu))
            else Some (err, pdu) } } })"


section \<open>Reading options and the payload\<close>

definition first_option :: "coap_pdu \<Rightarrow> ptr option" where
  "first_option pdu = do { tkl \<leftarrow> coap_get_tkl pdu; Some (Buf (4 + unat tkl)) }"

text \<open>\<open>opt_ptr > buf + len || opt_ptr <= buf\<close>\<close>

fun outside_pkt :: "coap_pdu \<Rightarrow> ptr \<Rightarrow> bool" where
  "outside_pkt pdu NULL = True"
| "outside_pkt pdu (Buf n) = (n > pdu_len pdu \<or> n = 0)"

text \<open>\<open>pdu->len - (p - pdu->buf)\<close>, also for a NULL \<open>p\<close>.\<close>

fun len_after :: "coap_pdu \<Rightarrow> ptr \<Rightarrow> nat" where
  "len_after pdu NULL = add64 (pdu_len pdu) (pdu_addr pdu)"
| "len_after pdu (Buf n) = sub64 (pdu_len pdu) n"

definition coap_get_option :: "coap_pdu \<Rightarrow> coap_option option \<Rightarrow> coap_option option" where
  "coap_get_option pdu prev =
     do {
       (option, opt_ptr) \<leftarrow>
         (case prev of
            Some l \<Rightarrow>
              if opt_num l \<noteq> 0
              then Some (\<lparr>opt_num = opt_num l, opt_len = 0, opt_val = NULL\<rparr>, opt_end l)
              else do { p \<leftarrow> first_option pdu; Some (\<lparr>opt_num = 0, opt_len = 0, opt_val = NULL\<rparr>, p) }
          | None \<Rightarrow> do { p \<leftarrow> first_option pdu; Some (\<lparr>opt_num = 0, opt_len = 0, opt_val = NULL\<rparr>, p) });
       opt_ptr \<leftarrow> (if outside_pkt pdu opt_ptr then first_option pdu else Some opt_ptr);
       (err, option) \<leftarrow> coap_decode_option (pdu_buf pdu) opt_ptr (len_after pdu opt_ptr) option;
       if err = CE_NONE then Some option
       else if err = CE_FOUND_PAYLOAD_MARKER then
         (if opt_num option = 0
          then Some \<lparr>opt_num = 0, opt_len = sub64 (len_after pdu opt_ptr) 1, opt_val = ptr_add opt_ptr 1\<rparr>
          else let v = opt_end option in
               Some \<lparr>opt_num = 0, opt_len = len_after pdu v, opt_val = v\<rparr>)
       else Some \<lparr>opt_num = 0, opt_len = 0, opt_val = NULL\<rparr> }"

text \<open>
  An option that reaches past the packet sends the iterator back to the first option, so this
  loop has no measure for an arbitrary buffer; a run that does not return is \<open>None\<close>.
\<close>

partial_function (option) get_option_by_num_loop ::
  "coap_pdu \<Rightarrow> nat \<Rightarrow> u8 \<Rightarrow> u8 \<Rightarrow> coap_option \<Rightarrow> coap_option option" where
  "get_option_by_num_loop pdu num occ i option =
     Option.bind (coap_get_option pdu (Some option)) (\<lambda>option.
       if unat (opt_num option) = num then
         (if i + 1 \<le> occ then get_option_by_num_loop pdu num occ (i + 1) option else Some option)
       else if unat (opt_num option) > num then Some \<lparr>opt_num = 0, opt_len = 0, opt_val = NULL\<rparr>
       else if opt_num option = 0 then Some option
       else if i \<le> occ then get_option_by_num_loop pdu num occ i option else Some option)"

declare get_option_by_num_loop.simps [code]

definition coap_get_option_by_num :: "coap_pdu \<Rightarrow> coap_option_number \<Rightarrow> u8 \<Rightarrow> coap_option option" where
  "coap_get_option_by_num pdu num occ =
     get_option_by_num_loop pdu (con_val num) occ 0 \<lparr>opt_num = 0, opt_len = 0, opt_val = NULL\<rparr>"

function get_payload_loop :: "bytes \<Rightarrow> nat \<Rightarrow> nat \<Rightarrow> (coap_error \<times> nat) option" where
  "get_payload_loop buf len offset =
     do { (err, opt) \<leftarrow> coap_decode_option buf (Buf offset) (sub64 len offset) (opt_at offset);
          if err = CE_NONE then get_payload_loop buf len (ptr_off (opt_end opt))
          else Some (err, offset) }"
  by pat_completeness auto
termination
  by (relation "measure (\<lambda>(buf, len, offset). length buf - offset)")
    (use decode_option_advances in fastforce)+

definition coap_get_payload :: "coap_pdu \<Rightarrow> coap_payload option" where
  "coap_get_payload pdu =
     do { tkl \<leftarrow> coap_get_tkl pdu;
          (err, offset) \<leftarrow> get_payload_loop (pdu_buf pdu) (pdu_len pdu) (4 + unat tkl);
          if err = CE_FOUND_PAYLOAD_MARKER
          then Some \<lparr>pl_len = sub64 (sub64 (pdu_len pdu) offset) 1, pl_val = Buf (offset + 1)\<rparr>
          else Some \<lparr>pl_len = 0, pl_val = NULL\<rparr> }"


section \<open>Adding options and setting the payload\<close>

function adjust_loop ::
  "nat \<Rightarrow> nat \<Rightarrow> int \<Rightarrow> bytes \<Rightarrow> nat \<Rightarrow> coap_option \<Rightarrow> (coap_error \<times> nat \<times> bytes) option" where
  "adjust_loop opts_start max_len offset buf opts_len fopt =
     (let p = opt_end fopt in
      if ptr_off p - opts_start > opts_len then Some (CE_NONE, opts_len, buf)
      else do {
        (err, fopt') \<leftarrow> coap_decode_option buf p (sub64 opts_len (ptr_off p - opts_start)) fopt;
        if err = CE_FOUND_PAYLOAD_MARKER \<or> err = CE_END_OF_PACKET then Some (CE_NONE, opts_len, buf)
        else if err \<noteq> CE_NONE then Some (err, opts_len, buf)
        else do {
          let nopt_num = opt_num fopt' + word_of_int offset;
          let fopt_val = ptr_off (opt_val fopt');
          let fhdr_len = fopt_val - ptr_off p;
          let nhdr_len = coap_compute_option_header_len (uint nopt_num) (int (opt_len fopt'));
          let nopts_len = of_int64 (int opts_len + (int nhdr_len - int fhdr_len));
          if fhdr_len \<noteq> nhdr_len \<and> max_len < nopts_len then Some (CE_INSUFFICIENT_BUFFER, opts_len, buf)
          else do {
            buf' \<leftarrow> (if fhdr_len \<noteq> nhdr_len
                    then memmove buf (nat (int fopt_val + (int nhdr_len - int fhdr_len))) fopt_val
                           (opt_len fopt')
                    else Some buf);
            (_, buf'') \<leftarrow> coap_build_option_header buf' (ptr_off p) nhdr_len (uint nopt_num)
                            (int (opt_len fopt'));
            adjust_loop opts_start max_len offset buf''
              (if fhdr_len \<noteq> nhdr_len then nopts_len else opts_len) fopt' } } })"
  by pat_completeness auto
termination
proof (relation "measure (\<lambda>(s, m, f, buf, n, fopt). length buf - ptr_off (opt_end fopt))", goal_cases)
  case 1
  show ?case by simp
next
  case (2 opts_start max_len offset buf opts_len fopt p x err fopt' nopt_num fopt_val fhdr_len
      nhdr_len nopts_len buf' y z buf'')
  then have "coap_decode_option buf p (sub64 opts_len (ptr_off p - opts_start)) fopt = Some (CE_NONE, fopt')"
    by simp
  note adv = decode_option_advances [OF this]
  have "length buf' = length buf"
    using 2(13) by (auto split: if_splits dest: memmove_length)
  moreover have "length buf'' = length buf'"
    using 2(14,15) by (auto dest: build_option_header_length)
  ultimately show ?case
    using adv 2(1) by simp
qed

definition coap_adjust_option_deltas ::
  "bytes \<Rightarrow> nat \<Rightarrow> nat \<Rightarrow> nat \<Rightarrow> int \<Rightarrow> (coap_error \<times> nat \<times> bytes) option" where
  "coap_adjust_option_deltas buf opts_start opts_len max_len offset =
     adjust_loop opts_start max_len offset buf opts_len (opt_at opts_start)"

text \<open>Finds the insertion point: the last error, the pointer reached and the number before it.\<close>

function add_option_find :: "bytes \<Rightarrow> nat \<Rightarrow> int \<Rightarrow> coap_option \<Rightarrow> (coap_error \<times> nat \<times> u16) option" where
  "add_option_find buf len num fopt =
     (let p = opt_end fopt in
      do { (err, fopt') \<leftarrow> coap_decode_option buf p (sub64 len (ptr_off p)) fopt;
           if err = CE_NONE \<and> uint (opt_num fopt') \<le> num \<and> add64 (ptr_off p) (opt_len fopt') < len
           then add_option_find buf len num fopt'
           else Some (err, ptr_off p, opt_num fopt) })"
  by pat_completeness auto
termination
  by (relation "measure (\<lambda>(buf, len, num, fopt). length buf - ptr_off (opt_end fopt))")
    (use decode_option_advances in fastforce)+

definition coap_add_option :: "coap_pdu \<Rightarrow> int \<Rightarrow> bytes \<Rightarrow> u16 \<Rightarrow> (coap_error \<times> coap_pdu) option" where
  "coap_add_option pdu num value olen =
     do {
       tkl \<leftarrow> coap_get_tkl pdu;
       (err, p, lopt_num) \<leftarrow> add_option_find (pdu_buf pdu) (pdu_len pdu) num (opt_at (4 + unat tkl));
       if err \<noteq> CE_FOUND_PAYLOAD_MARKER \<and> err \<noteq> CE_END_OF_PACKET \<and> err \<noteq> CE_NONE then Some (err, pdu)
       else do {
         let n = unat olen;
         let delta = num - uint lopt_num;
         let nopt_hdr_len = coap_compute_option_header_len delta (int n);
         if pdu_max pdu < add64 (add64 (pdu_len pdu) nopt_hdr_len) n
         then Some (CE_INSUFFICIENT_BUFFER, pdu)
         else do {
           (buf, len) \<leftarrow>
             (if pdu_len pdu \<noteq> p then do {
                buf \<leftarrow> memmove (pdu_buf pdu) (p + nopt_hdr_len + n) p (sub64 (pdu_len pdu) p);
                let len = add64 (pdu_len pdu) (nopt_hdr_len + n);
                let opts_len = sub64 len p;
                (_, opts_len', buf) \<leftarrow> coap_adjust_option_deltas buf (p + nopt_hdr_len + n) opts_len
                                        (sub64 (pdu_max pdu) p) (uint lopt_num - num);
                Some (buf, add64 len (sub64 opts_len' (sub64 len p))) }
              else Some (pdu_buf pdu, add64 (add64 (pdu_len pdu) nopt_hdr_len) n));
           (_, buf) \<leftarrow> coap_build_option_header buf p nopt_hdr_len delta (int n);
           bs \<leftarrow> mem_read value 0 n;
           buf \<leftarrow> mem_write buf (p + nopt_hdr_len) bs;
           Some (CE_NONE, pdu\<lparr>pdu_buf := buf, pdu_len := len\<rparr>) } } }"

function set_payload_find :: "bytes \<Rightarrow> nat \<Rightarrow> coap_option \<Rightarrow> (coap_error \<times> nat) option" where
  "set_payload_find buf len fopt =
     (let p = opt_end fopt in
      do { (err, fopt') \<leftarrow> coap_decode_option buf p (sub64 len (ptr_off p)) fopt;
           if err = CE_NONE \<and> add64 (ptr_off p) (opt_len fopt') < len
           then set_payload_find buf len fopt'
           else Some (err, ptr_off p) })"
  by pat_completeness auto
termination
  by (relation "measure (\<lambda>(buf, len, fopt). length buf - ptr_off (opt_end fopt))")
    (use decode_option_advances in fastforce)+

definition coap_set_payload :: "coap_pdu \<Rightarrow> bytes \<Rightarrow> nat \<Rightarrow> (coap_error \<times> coap_pdu) option" where
  "coap_set_payload pdu payload payload_len =
     do {
       tkl \<leftarrow> coap_get_tkl pdu;
       (err, p) \<leftarrow> set_payload_find (pdu_buf pdu) (pdu_len pdu) (opt_at (4 + unat tkl));
       if err \<noteq> CE_FOUND_PAYLOAD_MARKER \<and> err \<noteq> CE_END_OF_PACKET \<and> err \<noteq> CE_NONE then Some (err, pdu)
       else if err = CE_END_OF_PACKET \<and> pdu_max pdu < add64 (add64 (pdu_len pdu) payload_len) 1
       then Some (CE_INSUFFICIENT_BUFFER, pdu)
       else if err = CE_FOUND_PAYLOAD_MARKER \<and> pdu_max pdu < add64 (pdu_len pdu) payload_len
       then Some (CE_INSUFFICIENT_BUFFER, pdu)
       else do {
         (buf, p) \<leftarrow> (if err = CE_END_OF_PACKET
                    then do { buf \<leftarrow> wr (pdu_buf pdu) p 0xFF; Some (buf, p + 1) }
                    else Some (pdu_buf pdu, p));
         bs \<leftarrow> mem_read payload 0 payload_len;
         buf \<leftarrow> mem_write buf p bs;
         Some (CE_NONE, pdu\<lparr>pdu_buf := buf, pdu_len := add64 p payload_len\<rparr>) } }"

declare get_payload_loop.simps [simp del] add_option_find.simps [simp del]
  set_payload_find.simps [simp del] adjust_loop.simps [simp del]

end
