(* ===== verification/Coap_Spec.thy ===== *)
theory Coap_Spec
  imports Coap_Message
begin

text \<open>
  What a packet means: an abstract CoAP message, its encoding (RFC 7252 section 3), and the
  relation \<open>represents\<close> between a packet in memory and the message it holds. The lemmas show
  that the scanning functions of \<^verbatim>\<open>coap.c\<close> walk exactly over the options of a represented
  message.
\<close>

section \<open>Messages and their encoding\<close>

record coap_msg =
  m_type :: coap_type
  m_code :: u8
  m_mid :: u16
  m_token :: bytes
  m_opts :: "(nat \<times> bytes) list"
  m_payload :: "bytes option"

fun opts_enc :: "nat \<Rightarrow> (nat \<times> bytes) list \<Rightarrow> bytes" where
  "opts_enc prev [] = []"
| "opts_enc prev ((n, v) # os) = opt_header (n - prev) (length v) @ v @ opts_enc n os"

fun payload_enc :: "bytes option \<Rightarrow> bytes" where
  "payload_enc None = []"
| "payload_enc (Some p) = 0xFF # p"

definition hdr_byte :: "coap_type \<Rightarrow> nat \<Rightarrow> u8" where
  "hdr_byte t tkl = of_nat (64 + 16 * unat (ct_val t) + tkl)"

definition hdr_enc :: "coap_msg \<Rightarrow> bytes" where
  "hdr_enc m = [hdr_byte (m_type m) (length (m_token m)), m_code m,
                ucast (drop_bit 8 (m_mid m)), ucast (m_mid m)] @ m_token m"

definition encode_msg :: "coap_msg \<Rightarrow> bytes" where
  "encode_msg m = hdr_enc m @ opts_enc 0 (m_opts m) @ payload_enc (m_payload m)"

fun last_num :: "nat \<Rightarrow> (nat \<times> bytes) list \<Rightarrow> nat" where
  "last_num prev [] = prev"
| "last_num prev ((n, v) # os) = last_num n os"

text \<open>Option numbers are positive, in order and fit 16 bits, as the lengths do.\<close>

fun wf_opts :: "nat \<Rightarrow> (nat \<times> bytes) list \<Rightarrow> bool" where
  "wf_opts prev [] = True"
| "wf_opts prev ((n, v) # os) =
     (prev \<le> n \<and> 0 < n \<and> n < 65536 \<and> length v < 65536 \<and> wf_opts n os)"

definition wf_msg :: "coap_msg \<Rightarrow> bool" where
  "wf_msg m \<longleftrightarrow> length (m_token m) \<le> 8 \<and> wf_opts 0 (m_opts m)"

text \<open>
  The memory a packet needs: the claimed size is really there, and no C object is larger than
  \<open>2^63 - 1\<close> bytes.
\<close>

definition wf_mem :: "coap_pdu \<Rightarrow> bool" where
  "wf_mem pdu \<longleftrightarrow> pdu_max pdu \<le> length (pdu_buf pdu) \<and> length (pdu_buf pdu) < size_max div 2"

definition represents :: "coap_pdu \<Rightarrow> coap_msg \<Rightarrow> bool" where
  "represents pdu m \<longleftrightarrow>
     wf_mem pdu \<and> wf_msg m \<and> pdu_len pdu \<le> pdu_max pdu \<and>
     take (pdu_len pdu) (pdu_buf pdu) = encode_msg m"

lemma opts_enc_append: "opts_enc prev (os @ os') = opts_enc prev os @ opts_enc (last_num prev os) os'"
  by (induction prev os rule: opts_enc.induct) simp_all

lemma last_num_append [simp]: "last_num prev (os @ os') = last_num (last_num prev os) os'"
  by (induction prev os rule: last_num.induct) simp_all

lemma wf_opts_append [simp]:
  "wf_opts prev (os @ os') \<longleftrightarrow> wf_opts prev os \<and> wf_opts (last_num prev os) os'"
  by (induction prev os rule: wf_opts.induct) auto

lemma wf_opts_last_num: "wf_opts prev os \<Longrightarrow> prev < 65536 \<Longrightarrow> last_num prev os < 65536"
  by (induction prev os rule: wf_opts.induct) auto

lemma wf_opts_last_num_ge: "wf_opts prev os \<Longrightarrow> prev \<le> last_num prev os"
  by (induction prev os rule: wf_opts.induct) auto

lemma length_hdr_enc [simp]: "length (hdr_enc m) = 4 + length (m_token m)"
  by (simp add: hdr_enc_def)

lemma represents_len:
  assumes "represents pdu m"
  shows "pdu_len pdu = length (encode_msg m)"
proof -
  have "pdu_len pdu \<le> length (pdu_buf pdu)"
    using assms by (simp add: represents_def wf_mem_def)
  then have "pdu_len pdu = length (take (pdu_len pdu) (pdu_buf pdu))"
    by simp
  also have "\<dots> = length (encode_msg m)"
    using assms by (simp only: represents_def)
  finally show ?thesis .
qed

lemma represents_buf:
  assumes "represents pdu m"
  obtains rest where "pdu_buf pdu = hdr_enc m @ opts_enc 0 (m_opts m) @ payload_enc (m_payload m) @ rest"
    and "pdu_len pdu = length (hdr_enc m @ opts_enc 0 (m_opts m) @ payload_enc (m_payload m))"
proof -
  have "pdu_buf pdu = encode_msg m @ drop (pdu_len pdu) (pdu_buf pdu)"
    using assms by (metis append_take_drop_id represents_def)
  then show thesis
    using represents_len [OF assms] that by (simp add: encode_msg_def)
qed

lemma representsI:
  assumes "wf_mem pdu" "wf_msg m" "pdu_len pdu \<le> pdu_max pdu"
    "pdu_buf pdu = encode_msg m @ rest" "pdu_len pdu = length (encode_msg m)"
  shows "represents pdu m"
  using assms by (simp add: represents_def)

lemma unat_ct_val: "unat (ct_val t) < 4"
  by (cases t) simp_all

lemma hdr_byte_fields:
  assumes "tkl \<le> 15"
  shows "drop_bit 6 (hdr_byte t tkl) = 1"
    and "drop_bit 4 (hdr_byte t tkl) AND 3 = ct_val t"
    and "hdr_byte t tkl AND 15 = of_nat tkl"
proof -
  have b: "hdr_byte t tkl = of_nat (16 * (4 + unat (ct_val t)) + tkl)"
    by (simp add: hdr_byte_def algebra_simps)
  have lt: "4 + unat (ct_val t) < 16" "tkl < 16"
    using assms unat_ct_val [of t] by simp_all
  have d4: "drop_bit 4 (hdr_byte t tkl) = of_nat (4 + unat (ct_val t))"
    unfolding b using lt by (rule header_byte_nibbles)
  have "drop_bit 6 (hdr_byte t tkl) = drop_bit 2 (drop_bit 4 (hdr_byte t tkl))"
    by (simp only: drop_bit_drop_bit) simp
  then show "drop_bit 6 (hdr_byte t tkl) = 1"
    unfolding d4 by (cases t) simp_all
  show "drop_bit 4 (hdr_byte t tkl) AND 3 = ct_val t"
    unfolding d4 by (cases t) simp_all
  show "hdr_byte t tkl AND 15 = of_nat tkl"
    unfolding b using lt by (rule header_byte_nibbles)
qed

lemma get_tkl_represents:
  assumes "represents pdu m"
  shows "coap_get_tkl pdu = Some (of_nat (length (m_token m)))"
    and "4 + unat (of_nat (length (m_token m)) :: u8) = length (hdr_enc m)"
proof -
  have tkl: "length (m_token m) \<le> 8"
    using assms by (simp add: represents_def wf_msg_def)
  obtain rest where "pdu_buf pdu = hdr_enc m @ opts_enc 0 (m_opts m) @ payload_enc (m_payload m) @ rest"
    by (rule represents_buf [OF assms])
  with tkl show "coap_get_tkl pdu = Some (of_nat (length (m_token m)))"
    by (simp add: coap_get_tkl_def rd_def hdr_enc_def hdr_byte_fields)
  show "4 + unat (of_nat (length (m_token m)) :: u8) = length (hdr_enc m)"
    using tkl by (simp add: unat_of_nat_u8)
qed


section \<open>Walking over the options\<close>

text \<open>One step of a scan: the option at the head of \<open>os\<close>.\<close>

lemma decode_next_option:
  assumes "wf_opts prev ((n, v) # os)" "pkt_len \<noteq> 0"
  shows "coap_decode_option (pre @ opts_enc prev ((n, v) # os) @ rest) (Buf (length pre)) pkt_len opt =
     Some (CE_NONE, \<lparr>opt_num = opt_num opt + of_nat (n - prev), opt_len = length v,
       opt_val = Buf (length pre + length (opt_header (n - prev) (length v)))\<rparr>)"
proof -
  have "n - prev < ext_limit" "length v < ext_limit" "length v mod 65536 = length v"
    using assms(1) by (auto simp: ext_limit_def)
  then show ?thesis
    using decode_option_header [of "n - prev" "length v" pkt_len pre "v @ opts_enc n os @ rest" opt]
      assms(2) by simp
qed

text \<open>A scan ends at the end of the packet or at the payload marker.\<close>

fun stop_error :: "bytes option \<Rightarrow> coap_error" where
  "stop_error None = CE_END_OF_PACKET"
| "stop_error (Some p) = CE_FOUND_PAYLOAD_MARKER"

lemma stop_error_neq [simp]: "stop_error pl \<noteq> CE_NONE"
  by (cases pl) simp_all

lemma decode_at_stop:
  assumes "len = length pre + length (payload_enc pl)" "len < size_max"
  shows "coap_decode_option (pre @ payload_enc pl @ rest) (Buf (length pre)) (sub64 len (length pre)) opt =
     Some (stop_error pl, opt)"
  using assms by (cases pl) (simp_all add: coap_decode_option_def size_simps rd_append)


text \<open>
  The scanning loops, started at the options of a packet, arrive behind them. The packet is
  \<open>pre @ opts_enc prev os @ payload_enc pl\<close>, followed by unused buffer.
\<close>

lemma get_payload_loop_walk:
  assumes "wf_opts prev os" "buf = pre @ opts_enc prev os @ payload_enc pl @ rest"
    "len = length (pre @ opts_enc prev os @ payload_enc pl)" "len < size_max"
  shows "get_payload_loop buf len (length pre) =
           Some (stop_error pl, length pre + length (opts_enc prev os))"
  using assms
proof (induction os arbitrary: prev pre)
  case Nil
  then show ?case
    by (subst get_payload_loop.simps) (simp add: decode_at_stop)
next
  case (Cons o1 os)
  obtain n v where o1: "o1 = (n, v)" by fastforce
  let ?h = "opt_header (n - prev) (length v)"
  have "length pre < len" using Cons.prems o1 by simp
  then have ne: "sub64 len (length pre) \<noteq> 0" using Cons.prems(4) by (simp add: size_simps)
  have "get_payload_loop buf len (length (pre @ ?h @ v)) =
      Some (stop_error pl, length (pre @ ?h @ v) + length (opts_enc n os))"
    using Cons.prems o1 by (intro Cons.IH) simp_all
  moreover have "get_payload_loop buf len (length pre) = get_payload_loop buf len (length (pre @ ?h @ v))"
    using Cons.prems(1,2) o1 decode_next_option [OF _ ne, of prev n v os pre "payload_enc pl @ rest"]
    by (subst get_payload_loop.simps) (simp add: ac_simps)
  ultimately show ?case using o1 by (simp add: ac_simps)
qed

lemma set_payload_find_walk:
  assumes "wf_opts prev os" "buf = pre @ opts_enc prev os @ payload_enc pl @ rest"
    "len = length (pre @ opts_enc prev os @ payload_enc pl)" "len < size_max"
    "opt_end fopt = Buf (length pre)"
  shows "set_payload_find buf len fopt = Some (stop_error pl, length pre + length (opts_enc prev os))"
  using assms
proof (induction os arbitrary: prev pre fopt)
  case Nil
  then show ?case
    by (subst set_payload_find.simps) (simp add: decode_at_stop Let_def)
next
  case (Cons o1 os)
  obtain n v where o1: "o1 = (n, v)" by fastforce
  let ?h = "opt_header (n - prev) (length v)"
  let ?f = "\<lparr>opt_num = opt_num fopt + of_nat (n - prev), opt_len = length v,
             opt_val = Buf (length pre + length ?h)\<rparr>"
  have "length pre < len" using Cons.prems o1 by simp
  then have ne: "sub64 len (length pre) \<noteq> 0" using Cons.prems(4) by (simp add: size_simps)
  have in_pkt: "length pre + length v < len" using Cons.prems(3) o1 by simp
  have "set_payload_find buf len ?f =
      Some (stop_error pl, length (pre @ ?h @ v) + length (opts_enc n os))"
    using Cons.prems o1 by (intro Cons.IH) (simp_all add: ac_simps)
  moreover have "set_payload_find buf len fopt = set_payload_find buf len ?f"
    using Cons.prems(1,2,4,5) o1 in_pkt
      decode_next_option [OF _ ne, of prev n v os pre "payload_enc pl @ rest" fopt]
    by (subst set_payload_find.simps) (simp add: Let_def add64_eq)
  ultimately show ?case using o1 by (simp add: ac_simps)
qed

lemma add_option_find_walk:
  assumes "wf_opts prev os" "buf = pre @ opts_enc prev os @ payload_enc pl @ rest"
    "len = length (pre @ opts_enc prev os @ payload_enc pl)" "len < size_max"
    "opt_end fopt = Buf (length pre)" "opt_num fopt = of_nat prev"
    "last_num prev os \<le> num"
  shows "add_option_find buf len (int num) fopt =
     Some (stop_error pl, length pre + length (opts_enc prev os), of_nat (last_num prev os))"
  using assms
proof (induction os arbitrary: prev pre fopt)
  case Nil
  then show ?case
    by (subst add_option_find.simps) (simp add: decode_at_stop Let_def)
next
  case (Cons o1 os)
  obtain n v where o1: "o1 = (n, v)" by fastforce
  let ?h = "opt_header (n - prev) (length v)"
  let ?f = "\<lparr>opt_num = of_nat n, opt_len = length v, opt_val = Buf (length pre + length ?h)\<rparr>"
  have "length pre < len" using Cons.prems o1 by simp
  then have ne: "sub64 len (length pre) \<noteq> 0" using Cons.prems(4) by (simp add: size_simps)
  have in_pkt: "length pre + length v < len" using Cons.prems(3) o1 by simp
  have "prev \<le> n" "n < 65536" using Cons.prems(1) o1 by simp_all
  then have num: "of_nat prev + of_nat (n - prev) = (of_nat n :: u16)" "uint (of_nat n :: u16) = int n"
    by (simp_all flip: of_nat_add, simp add: uint_nat unat_of_nat_u16)
  have "n \<le> num"
    using Cons.prems(1,7) o1 wf_opts_last_num_ge [of n os] by simp
  have "add_option_find buf len (int num) ?f =
      Some (stop_error pl, length (pre @ ?h @ v) + length (opts_enc n os), of_nat (last_num n os))"
    using Cons.prems o1 by (intro Cons.IH) (simp_all add: ac_simps)
  moreover have "add_option_find buf len (int num) fopt = add_option_find buf len (int num) ?f"
    using Cons.prems(1,2,4,5,6) o1 in_pkt num \<open>n \<le> num\<close>
      decode_next_option [OF _ ne, of prev n v os pre "payload_enc pl @ rest" fopt]
    by (subst add_option_find.simps) (simp add: Let_def add64_eq)
  ultimately show ?case using o1 by (simp add: ac_simps)
qed

end
