(* ===== verification/Coap_Refine.thy ===== *)
theory Coap_Refine
  imports Coap_Spec
begin

text \<open>
  The packet functions of \<^verbatim>\<open>coap.c\<close> implement the operations on messages: each lemma takes a
  packet that represents a message and gives the packet, or the value, the function returns.
  The locale \<open>packet_ops\<close> collects what the library that builds requests relies on, and is
  interpreted on the functions of \<^verbatim>\<open>coap.c\<close>.
\<close>

section \<open>Getters\<close>

lemma represents_hdr:
  assumes "represents pdu m"
  obtains rest where "pdu_buf pdu = hdr_byte (m_type m) (length (m_token m)) # m_code m #
      ucast (drop_bit 8 (m_mid m)) # ucast (m_mid m) # m_token m @ rest"
    and "length (m_token m) \<le> 8" and "4 + length (m_token m) \<le> pdu_len pdu"
proof -
  obtain rest where r: "pdu_buf pdu = hdr_enc m @ opts_enc 0 (m_opts m) @ payload_enc (m_payload m) @ rest"
    and l: "pdu_len pdu = length (hdr_enc m @ opts_enc 0 (m_opts m) @ payload_enc (m_payload m))"
    by (rule represents_buf [OF assms])
  have "length (m_token m) \<le> 8"
    using assms by (simp add: represents_def wf_msg_def)
  with r l show thesis
    using that by (simp add: hdr_enc_def)
qed

lemma mid_bytes: "push_bit 8 (ucast (ucast (drop_bit 8 mid) :: u8)) OR ucast (ucast mid :: u8) = mid"
  for mid :: u16
  by (rule bit_word_eqI) (auto simp: bit_simps)

lemma get_version_represents: "represents pdu m \<Longrightarrow> coap_get_version pdu = Some 1"
  by (erule represents_hdr) (simp add: coap_get_version_def rd_def hdr_byte_fields)

lemma get_type_represents: "represents pdu m \<Longrightarrow> coap_get_type pdu = Some (ct_val (m_type m))"
  by (erule represents_hdr) (simp add: coap_get_type_def rd_def hdr_byte_fields)

lemma get_code_represents: "represents pdu m \<Longrightarrow> coap_get_code pdu = Some (m_code m)"
  by (erule represents_hdr) (simp add: coap_get_code_def rd_def)

lemma get_mid_represents: "represents pdu m \<Longrightarrow> coap_get_mid pdu = Some (m_mid m)"
  by (erule represents_hdr) (simp add: coap_get_mid_def rd_def mid_bytes numeral_2_eq_2 numeral_3_eq_3)

lemma get_token_represents: "represents pdu m \<Longrightarrow> coap_get_token pdu = Some (le_bytes (m_token m))"
  by (erule represents_hdr)
    (simp add: coap_get_token_def rd_def hdr_byte_fields unat_of_nat_u8 Let_def mem_read_def)

lemma get_payload_represents:
  assumes "represents pdu m"
  defines "off \<equiv> length (hdr_enc m @ opts_enc 0 (m_opts m))"
  shows "coap_get_payload pdu =
     Some (case m_payload m of None \<Rightarrow> \<lparr>pl_len = 0, pl_val = NULL\<rparr>
           | Some p \<Rightarrow> \<lparr>pl_len = length p, pl_val = Buf (off + 1)\<rparr>)"
    and "m_payload m = Some p \<Longrightarrow> mem_read (pdu_buf pdu) (off + 1) (length p) = Some p"
proof -
  obtain rest where r: "pdu_buf pdu = hdr_enc m @ opts_enc 0 (m_opts m) @ payload_enc (m_payload m) @ rest"
    and l: "pdu_len pdu = length (hdr_enc m @ opts_enc 0 (m_opts m) @ payload_enc (m_payload m))"
    by (rule represents_buf [OF assms(1)])
  have wf: "wf_opts 0 (m_opts m)" and lt: "pdu_len pdu < size_max"
    using assms(1) by (auto simp: represents_def wf_msg_def wf_mem_def)
  have "get_payload_loop (pdu_buf pdu) (pdu_len pdu) (length (hdr_enc m)) =
      Some (stop_error (m_payload m), off)"
    using get_payload_loop_walk [OF wf r l lt] by (simp add: off_def)
  then show "coap_get_payload pdu =
     Some (case m_payload m of None \<Rightarrow> \<lparr>pl_len = 0, pl_val = NULL\<rparr>
           | Some p \<Rightarrow> \<lparr>pl_len = length p, pl_val = Buf (off + 1)\<rparr>)"
    using get_tkl_represents [OF assms(1)] l lt
    by (cases "m_payload m") (simp_all add: coap_get_payload_def off_def sub64_eq)
  show "mem_read (pdu_buf pdu) (off + 1) (length p) = Some p" if "m_payload m = Some p"
    using that mem_read_append [of "hdr_enc m @ opts_enc 0 (m_opts m) @ [255]" p rest]
    by (simp add: r off_def)
qed

lemma validate_represents:
  assumes "represents pdu m"
  shows "coap_validate_pkt pdu = Some (CE_NONE, pdu\<lparr>pdu_opt_ptr := NULL\<rparr>)"
proof -
  let ?pdu = "pdu\<lparr>pdu_opt_ptr := NULL\<rparr>"
  obtain rest where r: "pdu_buf pdu = hdr_enc m @ opts_enc 0 (m_opts m) @ payload_enc (m_payload m) @ rest"
    and l: "pdu_len pdu = length (hdr_enc m @ opts_enc 0 (m_opts m) @ payload_enc (m_payload m))"
    by (rule represents_buf [OF assms])
  have wf: "wf_opts 0 (m_opts m)" "length (m_token m) \<le> 8" and lt: "pdu_len pdu < size_max"
    and max: "pdu_len pdu \<le> pdu_max pdu" "4 \<le> pdu_len pdu"
    using assms l by (auto simp: represents_def wf_msg_def wf_mem_def)
  have "represents ?pdu m" using assms by (simp add: represents_def wf_mem_def)
  note hdr = get_version_represents [OF this] get_tkl_represents [OF this]
  have tkl8: "\<not> (of_nat (length (m_token m)) :: u8) > 8"
    using wf(2) by (simp add: word_less_nat_alt unat_of_nat_u8)
  let ?dec = "coap_decode_option (pdu_buf pdu) (Buf (length (hdr_enc m)))
      (sub64 (pdu_len pdu) (length (hdr_enc m))) (opt_at (length (hdr_enc m)))"
  have "\<exists>opt'. ?dec = Some (CE_NONE, opt') \<or>
      ?dec = Some (stop_error (m_payload m), opt_at (length (hdr_enc m))) \<and> m_opts m = []"
  proof (cases "m_opts m")
    case Nil
    then show ?thesis using r l lt decode_at_stop [of "pdu_len pdu" "hdr_enc m" "m_payload m" rest] by simp
  next
    case (Cons o1 os)
    then obtain n v where o1: "m_opts m = (n, v) # os" by (cases o1) auto
    then have "sub64 (pdu_len pdu) (length (hdr_enc m)) \<noteq> 0"
      using l lt by (simp add: sub64_eq)
    then show ?thesis
      using decode_next_option [of 0 n v os _ "hdr_enc m" "payload_enc (m_payload m) @ rest"] r wf(1) o1
      by simp
  qed
  then show ?thesis
    using max hdr tkl8 l
    by (cases "m_payload m") (auto simp: coap_validate_pkt_def Let_def opt_at_def)
qed

text \<open>What \<open>coap_validate_pkt\<close> turns down by the first four bytes.\<close>

definition rejected :: "bytes \<Rightarrow> bool" where
  "rejected d \<longleftrightarrow> length d < 4 \<or> drop_bit 6 (d ! 0) \<noteq> 1 \<or> d ! 0 AND 0x0F > 8"

lemma validate_rejected:
  assumes "rejected d" "pdu_buf pdu = d @ rest" "pdu_len pdu = length d"
  shows "coap_validate_pkt pdu = Some (CE_INVALID_PACKET, pdu\<lparr>pdu_opt_ptr := NULL\<rparr>)"
  using assms
  by (cases d) (auto simp: rejected_def coap_validate_pkt_def Let_def coap_get_version_def
      coap_get_tkl_def rd_def)


section \<open>Setters\<close>

text \<open>
  \<open>delivers rep cap p r m\<close>: the call that returned \<open>r\<close> reported success and left a packet of the
  same capacity as \<open>p\<close> that represents \<open>m\<close>.
\<close>

definition delivers ::
  "('p \<Rightarrow> coap_msg \<Rightarrow> bool) \<Rightarrow> ('p \<Rightarrow> nat) \<Rightarrow> 'p \<Rightarrow> (coap_error \<times> 'p) option \<Rightarrow> coap_msg \<Rightarrow> bool" where
  "delivers rep cap p r m \<longleftrightarrow> (\<exists>p'. r = Some (CE_NONE, p') \<and> rep p' m \<and> cap p' = cap p)"

lemma deliversI:
  "r = Some (CE_NONE, p') \<Longrightarrow> rep p' m \<Longrightarrow> cap p' = cap p \<Longrightarrow> delivers rep cap p r m"
  by (auto simp: delivers_def)

lemma deliversE:
  assumes "delivers rep cap p r m"
  obtains p' where "r = Some (CE_NONE, p')" "rep p' m" "cap p' = cap p"
  using assms by (auto simp: delivers_def)

lemma hdr_byte_set_type:
  assumes "tkl \<le> 8"
  shows "push_bit 4 (ct_val t') OR (hdr_byte t tkl AND 0xCF) = hdr_byte t' tkl"
proof -
  have "tkl = 0 \<or> tkl = 1 \<or> tkl = 2 \<or> tkl = 3 \<or> tkl = 4 \<or> tkl = 5 \<or> tkl = 6 \<or> tkl = 7 \<or> tkl = 8"
    using assms by arith
  then show ?thesis
    by (elim disjE; cases t; cases t'; simp add: hdr_byte_def)
qed

lemma hdr_byte_set_version:
  assumes "tkl \<le> 8"
  shows "64 OR (hdr_byte t tkl AND 0x3F) = hdr_byte t tkl"
proof -
  have "tkl = 0 \<or> tkl = 1 \<or> tkl = 2 \<or> tkl = 3 \<or> tkl = 4 \<or> tkl = 5 \<or> tkl = 6 \<or> tkl = 7 \<or> tkl = 8"
    using assms by arith
  then show ?thesis
    by (elim disjE; cases t; simp add: hdr_byte_def)
qed

lemma hdr_byte_set_tkl:
  assumes "tkl \<le> 8" "tkl' \<le> 8"
  shows "(of_nat tkl' AND 0x0F) OR (hdr_byte t tkl AND 0xF0) = hdr_byte t tkl'"
proof -
  have "tkl = 0 \<or> tkl = 1 \<or> tkl = 2 \<or> tkl = 3 \<or> tkl = 4 \<or> tkl = 5 \<or> tkl = 6 \<or> tkl = 7 \<or> tkl = 8"
    using assms by arith
  then have h: "hdr_byte t tkl AND 0xF0 = hdr_byte t 0"
    by (elim disjE; cases t; simp add: hdr_byte_def)
  have "tkl' = 0 \<or> tkl' = 1 \<or> tkl' = 2 \<or> tkl' = 3 \<or> tkl' = 4 \<or> tkl' = 5 \<or> tkl' = 6 \<or> tkl' = 7 \<or> tkl' = 8"
    using assms by arith
  then show ?thesis
    unfolding h by (elim disjE; cases t; simp add: hdr_byte_def)
qed

text \<open>Replacing header bytes of a represented message.\<close>

lemma represents_replace_hdr:
  assumes "represents pdu m" "pdu_buf pdu = hdr_enc m @ body"
    "length (hdr_enc m') = length (hdr_enc m)" "m_opts m' = m_opts m" "m_payload m' = m_payload m"
  shows "represents (pdu\<lparr>pdu_buf := hdr_enc m' @ body\<rparr>) m'"
proof -
  have le: "length (hdr_enc m) \<le> pdu_len pdu"
    using represents_len [OF assms(1)] by (simp add: encode_msg_def)
  then have "take (pdu_len pdu) (hdr_enc m @ body) = hdr_enc m @ take (pdu_len pdu - length (hdr_enc m)) body"
    by simp
  then have "take (pdu_len pdu - length (hdr_enc m)) body = opts_enc 0 (m_opts m) @ payload_enc (m_payload m)"
    using assms(1,2) by (simp add: represents_def encode_msg_def)
  with le show ?thesis
    using assms by (auto simp: represents_def wf_msg_def wf_mem_def encode_msg_def)
qed

lemma grow_len_id: "n \<le> pdu_len pdu \<Longrightarrow> grow_len n pdu = pdu"
  by (simp add: grow_len_def)

lemma represents_min:
  assumes "represents pdu m"
  shows "4 \<le> pdu_len pdu" "4 \<le> pdu_max pdu" "pdu_len pdu \<le> pdu_max pdu"
    "pdu_max pdu \<le> length (pdu_buf pdu)" "length (pdu_buf pdu) < size_max" "pdu_buf pdu \<noteq> []"
  using assms represents_len [OF assms]
  by (auto simp: represents_def encode_msg_def wf_mem_def)

lemma set_version_represents:
  assumes "represents pdu m"
  shows "delivers represents pdu_max pdu (coap_set_version pdu 1) m"
proof -
  obtain body where b: "pdu_buf pdu = hdr_enc m @ body"
    by (metis represents_buf [OF assms])
  have "(pdu_buf pdu)[0 := push_bit 6 1 OR (pdu_buf pdu ! 0 AND 0x3F)] = pdu_buf pdu"
    using assms by (simp add: b hdr_enc_def hdr_byte_set_version represents_def wf_msg_def)
  then show ?thesis
    using assms represents_min [OF assms]
    by (intro deliversI [where p' = pdu])
      (simp_all add: coap_set_version_def rd_def wr_def grow_len_id)
qed

lemma set_type_represents:
  assumes "represents pdu m"
  shows "delivers represents pdu_max pdu (coap_set_type pdu (ct_val t)) (m\<lparr>m_type := t\<rparr>)"
proof -
  obtain body where b: "pdu_buf pdu = hdr_enc m @ body"
    by (metis represents_buf [OF assms])
  let ?m = "m\<lparr>m_type := t\<rparr>" and ?buf = "(pdu_buf pdu)[0 := push_bit 4 (ct_val t) OR (pdu_buf pdu ! 0 AND 0xCF)]"
  have "?buf = hdr_enc ?m @ body"
    using assms by (simp add: b hdr_enc_def hdr_byte_set_type represents_def wf_msg_def)
  then have "represents (pdu\<lparr>pdu_buf := ?buf\<rparr>) ?m"
    using represents_replace_hdr [OF assms b, of ?m] by simp
  then show ?thesis
    using represents_min [OF assms]
    by (intro deliversI [where p' = "pdu\<lparr>pdu_buf := ?buf\<rparr>"])
      (simp_all add: coap_set_type_def rd_def wr_def grow_len_id)
qed

lemma set_code_represents:
  assumes "represents pdu m"
  shows "delivers represents pdu_max pdu (coap_set_code pdu c) (m\<lparr>m_code := c\<rparr>)"
proof -
  obtain body where b: "pdu_buf pdu = hdr_enc m @ body"
    by (metis represents_buf [OF assms])
  let ?m = "m\<lparr>m_code := c\<rparr>" and ?buf = "(pdu_buf pdu)[1 := c]"
  have "?buf = hdr_enc ?m @ body"
    by (simp add: b hdr_enc_def)
  then have "represents (pdu\<lparr>pdu_buf := ?buf\<rparr>) ?m"
    using represents_replace_hdr [OF assms b, of ?m] by simp
  then show ?thesis
    using represents_min [OF assms]
    by (intro deliversI [where p' = "pdu\<lparr>pdu_buf := ?buf\<rparr>"])
      (simp_all add: coap_set_code_def wr_def grow_len_id)
qed

lemma mid_low_byte: "(ucast (mid AND 0xFF) :: u8) = ucast mid" for mid :: u16
proof -
  have "mid AND 0xFF = take_bit 8 mid"
    by (simp add: take_bit_eq_mask mask_eq_exp_minus_1)
  then show ?thesis
    by (auto intro!: bit_word_eqI simp: bit_simps)
qed

lemma set_mid_represents:
  assumes "represents pdu m"
  shows "delivers represents pdu_max pdu (coap_set_mid pdu mid) (m\<lparr>m_mid := mid\<rparr>)"
proof -
  obtain body where b: "pdu_buf pdu = hdr_enc m @ body"
    by (metis represents_buf [OF assms])
  let ?m = "m\<lparr>m_mid := mid\<rparr>"
    and ?buf = "(pdu_buf pdu)[2 := ucast (drop_bit 8 mid), 3 := ucast mid]"
  have "?buf = hdr_enc ?m @ body"
    by (simp add: b hdr_enc_def numeral_2_eq_2 numeral_3_eq_3)
  then have "represents (pdu\<lparr>pdu_buf := ?buf\<rparr>) ?m"
    using represents_replace_hdr [OF assms b, of ?m] by simp
  then show ?thesis
    using represents_min [OF assms]
    by (intro deliversI [where p' = "pdu\<lparr>pdu_buf := ?buf\<rparr>"])
      (simp_all add: coap_set_mid_def wr_def grow_len_id mid_low_byte)
qed


lemma length_bytes_le [simp]: "length (bytes_le n t) = n"
  by (induction n t rule: bytes_le.induct) simp_all

lemma bytes_le_take_bit: "8 * n \<le> k \<Longrightarrow> bytes_le n (take_bit k t) = bytes_le n t"
proof (induction n arbitrary: k t)
  case (Suc n)
  have "ucast (take_bit k t) = (ucast t :: u8)"
    using Suc.prems by (intro bit_word_eqI) (auto simp: bit_simps)
  moreover have "drop_bit 8 (take_bit k t) = take_bit (k - 8) (drop_bit 8 t)"
    by (simp add: drop_bit_take_bit)
  ultimately show ?case
    using Suc by simp
qed simp

text \<open>The bytes of an integer, and the integer of some bytes.\<close>

lemma bytes_le_le_bytes: "length bs \<le> 8 \<Longrightarrow> bytes_le (length bs) (le_bytes bs) = bs"
proof (induction bs)
  case (Cons b bs)
  have "ucast (ucast b OR push_bit 8 (le_bytes bs)) = b"
    by (intro bit_word_eqI) (auto simp: bit_simps)
  moreover have "drop_bit 8 (ucast b OR push_bit 8 (le_bytes bs)) = take_bit 56 (le_bytes bs)"
    by (intro bit_word_eqI) (auto simp: bit_simps dest: bit_imp_le_length)
  ultimately show ?case
    using Cons bytes_le_take_bit [of "length bs" 56 "le_bytes bs"] by simp
qed simp

lemma le_bytes_bytes_le: "le_bytes (bytes_le n t) = take_bit (8 * n) t"
proof (induction n arbitrary: t)
  case (Suc n)
  have "ucast (ucast t :: u8) OR push_bit 8 (take_bit (8 * n) (drop_bit 8 t)) = take_bit (8 * Suc n) t"
    by (intro bit_word_eqI) (auto simp: bit_simps)
  with Suc show ?case by simp
qed simp

lemma memmove_splice:
  assumes "length a + length new + length r \<le> length (a @ old @ r @ rest)"
  shows "\<exists>rest'. do { buf \<leftarrow> memmove (a @ old @ r @ rest) (length a + length new) (length a + length old) (length r);
                       mem_write buf (length a) new } = Some (a @ new @ r @ rest')
            \<and> length (new @ r @ rest') = length (old @ r @ rest)"
proof -
  let ?buf = "a @ old @ r @ rest" and ?d = "length a + length new"
  let ?rest = "drop (?d + length r) ?buf"
  have "mem_read ?buf (length a + length old) (length r) = Some r"
    by (simp add: mem_read_def)
  then have mv: "memmove ?buf ?d (length a + length old) (length r) = Some (take ?d ?buf @ r @ ?rest)"
    using assms by (simp add: memmove_def mem_write_def)
  have "?d \<le> length ?buf" using assms by simp
  then have "take ?d ?buf = a @ take (length new) (old @ r @ rest)"
    and "length (take (length new) (old @ r @ rest)) = length new"
    by simp_all
  then have "mem_write (take ?d ?buf @ r @ ?rest) (length a) new = Some (a @ new @ r @ ?rest)"
    using mem_write_append [of "take (length new) (old @ r @ rest)" new a "r @ ?rest"] by simp
  with mv assms show ?thesis
    by (intro exI [of _ ?rest]) auto
qed

text \<open>The token is replaced: what follows it is moved, then the new token is written.\<close>

lemma token_spliced:
  assumes "length h = 4" "buf = h @ old @ r @ rest" "len = 4 + length old + length r" "4 + length new + length r \<le> length buf"
  obtains b1 rest' where
    "(if len > 4 then memmove buf (4 + length new) (4 + length old) (length r) else Some buf) = Some b1"
    "mem_write b1 4 new = Some (h @ new @ r @ rest')" "length (new @ r @ rest') = length (old @ r @ rest)"
proof (cases "len > 4")
  case True
  have "length h + length new + length r \<le> length (h @ old @ r @ rest)"
    using assms by simp
  from memmove_splice [OF this] obtain rest' where
    "do { b1 \<leftarrow> memmove (h @ old @ r @ rest) (length h + length new) (length h + length old) (length r);
          mem_write b1 (length h) new } = Some (h @ new @ r @ rest')"
    "length (new @ r @ rest') = length (old @ r @ rest)"
    by blast
  with True that show thesis
    by (auto simp: assms(1,2) bind_eq_Some_conv)
next
  case False
  then have "old = []" "r = []" using assms(3) by simp_all
  moreover have "length new \<le> length rest"
    using assms calculation by simp
  ultimately show thesis
    using that [of buf "drop (length new) rest"] False assms(1,2)
      mem_write_append [of "take (length new) rest" new h "drop (length new) rest"]
    by simp
qed

lemma set_token_represents:
  assumes "represents pdu m" "tkl \<le> 8"
    and "length (encode_msg (m\<lparr>m_token := bytes_le tkl token\<rparr>)) \<le> pdu_max pdu"
  shows "delivers represents pdu_max pdu (coap_set_token pdu token (of_nat tkl))
           (m\<lparr>m_token := bytes_le tkl token\<rparr>)"
proof -
  let ?m = "m\<lparr>m_token := bytes_le tkl token\<rparr>" and ?r = "opts_enc 0 (m_opts m) @ payload_enc (m_payload m)"
  define h where "h = [hdr_byte (m_type m) (length (m_token m)), m_code m,
      ucast (drop_bit 8 (m_mid m)), ucast (m_mid m)]"
  have h4: "length h = 4" by (simp add: h_def)
  have old8: "length (m_token m) \<le> 8"
    using assms by (simp add: represents_def wf_msg_def)
  obtain rest where b: "pdu_buf pdu = h @ m_token m @ ?r @ rest"
    using represents_buf [OF assms(1)] by (metis append.assoc hdr_enc_def h_def)
  have len: "pdu_len pdu = 4 + length (m_token m) + length ?r"
    using represents_len [OF assms(1)] by (simp add: encode_msg_def)
  have room: "4 + tkl + length ?r \<le> pdu_max pdu"
    using assms(3) by (simp add: encode_msg_def)
  note mins = represents_min [OF assms(1)]
  have "4 + length (bytes_le tkl token) + length ?r \<le> length (pdu_buf pdu)" using room mins(4) by simp
  from token_spliced [OF h4 b len this] obtain b1 rest' where
    b1: "(if pdu_len pdu > 4 then memmove (pdu_buf pdu) (4 + tkl) (4 + length (m_token m)) (length ?r)
          else Some (pdu_buf pdu)) = Some b1"
      "mem_write b1 4 (bytes_le tkl token) = Some (h @ bytes_le tkl token @ ?r @ rest')"
    and lw: "length (bytes_le tkl token @ ?r @ rest') = length (m_token m @ ?r @ rest)"
    unfolding length_bytes_le by blast
  let ?pdu = "pdu\<lparr>pdu_buf := hdr_enc ?m @ ?r @ rest', pdu_len := 4 + tkl + length ?r\<rparr>"
  have "wf_mem ?pdu" using assms(1) lw b h4 by (simp add: represents_def wf_mem_def)
  then have rep: "represents ?pdu ?m"
    by (rule representsI [where rest = rest'])
      (use assms(1,2) room in \<open>simp_all add: represents_def wf_msg_def encode_msg_def\<close>)
  have arith: "unat (of_nat tkl :: u8) = tkl" "unat (of_nat (length (m_token m)) :: u8) = length (m_token m)"
    "of_int64 (int (pdu_len pdu) + (int tkl - int (length (m_token m)))) = 4 + tkl + length ?r"
    "sub64 (sub64 (pdu_len pdu) 4) (length (m_token m)) = length ?r"
    using assms(2) old8 room len mins by (simp_all add: unat_of_nat_u8 of_int64_def size_max_def sub64_eq)
  have mv: "(if pdu_len pdu > 4
      then memmove (pdu_buf pdu) (4 + tkl) (4 + unat (of_nat (length (m_token m)) :: u8))
             (sub64 (sub64 (pdu_len pdu) 4) (unat (of_nat (length (m_token m)) :: u8)))
      else Some (pdu_buf pdu)) = Some b1"
    unfolding arith(2,4) by (rule b1(1))
  have "(of_nat tkl AND 15) OR (hdr_byte (m_type m) (length (m_token m)) AND 240) = hdr_byte (m_type m) tkl"
    using old8 assms(2) by (rule hdr_byte_set_tkl)
  then have "coap_set_token pdu token (of_nat tkl) = Some (CE_NONE, ?pdu)"
    using room mins assms(2) b1(2) mv old8
    by (simp add: coap_set_token_def Let_def arith(1-3) get_tkl_represents(1) [OF assms(1)]
        hdr_byte_fields rd_def wr_def hdr_enc_def h_def del: of_nat_unat split del: if_split)
  then show ?thesis
    using rep by (intro deliversI [where p' = ?pdu]) simp_all
qed

lemma set_token_full:
  assumes "represents pdu m" "tkl \<le> 8"
    "pdu_max pdu < length (encode_msg (m\<lparr>m_token := bytes_le tkl token\<rparr>))"
  shows "coap_set_token pdu token (of_nat tkl) = Some (CE_INSUFFICIENT_BUFFER, pdu)"
proof -
  have len: "pdu_len pdu = 4 + length (m_token m) + length (opts_enc 0 (m_opts m) @ payload_enc (m_payload m))"
    using represents_len [OF assms(1)] by (simp add: encode_msg_def)
  have old: "length (m_token m) \<le> 8" using assms(1) by (simp add: represents_def wf_msg_def)
  have "of_int64 (int (pdu_len pdu) + (int tkl - int (length (m_token m)))) =
      length (encode_msg (m\<lparr>m_token := bytes_le tkl token\<rparr>))" (is "?new = ?l")
    using assms(1,2) len old by (simp add: of_int64_def size_max_def encode_msg_def represents_def wf_mem_def)
  moreover have "pdu_len pdu > 4 \<or> pdu_max pdu < 4 + tkl"
    using assms(3) len by (cases "pdu_len pdu > 4") (simp_all add: encode_msg_def)
  ultimately show ?thesis
    using assms(2,3) old
    by (auto simp: coap_set_token_def Let_def unat_of_nat_u8 get_tkl_represents(1) [OF assms(1)] simp del: of_nat_unat)
qed

definition ping_msg :: coap_msg where
  "ping_msg = \<lparr>m_type = CT_RST, m_code = 0, m_mid = 0, m_token = [], m_opts = [], m_payload = None\<rparr>"

lemma init_pdu_represents:
  assumes "wf_mem pdu" "4 \<le> pdu_max pdu"
  shows "delivers represents pdu_max pdu (coap_init_pdu pdu) ping_msg"
proof -
  obtain b0 b1 b2 b3 rest where b: "pdu_buf pdu = b0 # b1 # b2 # b3 # rest"
  proof -
    have "4 \<le> length (pdu_buf pdu)" using assms by (simp add: wf_mem_def)
    then show thesis
      using that by (auto simp: Suc_le_length_iff numeral_eq_Suc)
  qed
  let ?pdu = "pdu\<lparr>pdu_buf := 0x70 # 0 # 0 # 0 # rest, pdu_len := 4, pdu_opt_ptr := NULL\<rparr>"
  have "coap_init_pdu pdu = Some (CE_NONE, ?pdu)"
    using assms(2)
    by (simp add: coap_init_pdu_def coap_set_version_def coap_set_type_def coap_set_token_def
        coap_set_code_def coap_set_mid_def coap_get_tkl_def mem_write_def b rd_def wr_def grow_len_def
        Let_def of_int64_def size_max_def numeral_2_eq_2 numeral_3_eq_3)
  moreover have "represents ?pdu ping_msg"
    using assms b
    by (intro representsI [where rest = rest])
      (simp_all add: wf_mem_def ping_msg_def wf_msg_def encode_msg_def hdr_enc_def hdr_byte_def)
  ultimately show ?thesis
    by (intro deliversI [where p' = ?pdu]) simp_all
qed


section \<open>Appending an option, setting the payload\<close>

definition with_opt :: "coap_msg \<Rightarrow> nat \<Rightarrow> bytes \<Rightarrow> coap_msg" where
  "with_opt m n v = m\<lparr>m_opts := m_opts m @ [(n, v)]\<rparr>"

definition can_append :: "coap_msg \<Rightarrow> nat \<Rightarrow> bytes \<Rightarrow> bool" where
  "can_append m n v \<longleftrightarrow> m_payload m = None \<and> wf_opts (last_num 0 (m_opts m)) [(n, v)]"

lemma encode_with_opt:
  assumes "m_payload m = None"
  shows "encode_msg (with_opt m n v) =
           encode_msg m @ opt_header (n - last_num 0 (m_opts m)) (length v) @ v"
  using assms by (simp add: with_opt_def encode_msg_def hdr_enc_def opts_enc_append)

text \<open>
  The search of \<open>coap_add_option\<close> runs to the end of the packet, and the header it will need has
  the length the encoding has.
\<close>

lemma add_option_at_end:
  assumes "represents pdu m" "can_append m n v"
  defines "prev \<equiv> last_num 0 (m_opts m)"
  shows "coap_get_tkl pdu = Some (of_nat (length (m_token m)))"
    and "add_option_find (pdu_buf pdu) (pdu_len pdu) (int n)
           (opt_at (4 + unat (of_nat (length (m_token m)) :: u8))) =
         Some (CE_END_OF_PACKET, pdu_len pdu, of_nat prev)"
    and "int n - uint (of_nat prev :: u16) = int (n - prev)"
    and "coap_compute_option_header_len (int (n - prev)) (int (length v)) =
         length (opt_header (n - prev) (length v))"
    and "add64 (add64 (pdu_len pdu) (length (opt_header (n - prev) (length v)))) (length v) =
         length (encode_msg (with_opt m n v))"
proof -
  have pl: "m_payload m = None" and new: "prev \<le> n" "0 < n" "n < 65536" "length v < 65536"
    using assms(2) by (auto simp: can_append_def prev_def)
  have wf: "wf_opts 0 (m_opts m)" and lt: "pdu_len pdu < size_max"
    using assms(1) by (auto simp: represents_def wf_msg_def wf_mem_def)
  obtain rest where r: "pdu_buf pdu = hdr_enc m @ opts_enc 0 (m_opts m) @ payload_enc None @ rest"
    and l: "pdu_len pdu = length (hdr_enc m @ opts_enc 0 (m_opts m) @ payload_enc None)"
    using represents_buf [OF assms(1)] pl by metis
  show "coap_get_tkl pdu = Some (of_nat (length (m_token m)))"
    by (rule get_tkl_represents(1) [OF assms(1)])
  show "add_option_find (pdu_buf pdu) (pdu_len pdu) (int n)
           (opt_at (4 + unat (of_nat (length (m_token m)) :: u8))) =
         Some (CE_END_OF_PACKET, pdu_len pdu, of_nat prev)"
    unfolding get_tkl_represents(2) [OF assms(1)]
    using add_option_find_walk [OF wf r l lt, of "opt_at (length (hdr_enc m))" n] new(1) l
    by (simp add: opt_at_def prev_def)
  have "prev < 65536"
    unfolding prev_def using wf by (rule wf_opts_last_num) simp
  then show "int n - uint (of_nat prev :: u16) = int (n - prev)"
    using new(1) by (simp add: uint_nat unat_of_nat_u16)
  show "coap_compute_option_header_len (int (n - prev)) (int (length v)) =
         length (opt_header (n - prev) (length v))"
    by (rule compute_header_len_correct)
  have "length (encode_msg (with_opt m n v)) =
      pdu_len pdu + length (opt_header (n - prev) (length v)) + length v"
    unfolding encode_with_opt [OF pl] prev_def using represents_len [OF assms(1)] by simp
  moreover have "pdu_len pdu < size_max div 2"
    using assms(1) by (auto simp: represents_def wf_mem_def)
  then have "pdu_len pdu + length (opt_header (n - prev) (length v)) + length v < size_max"
    using new(4) length_ext_bytes [of "n - prev"] length_ext_bytes [of "length v"]
    by (simp add: size_max_def)
  ultimately show "add64 (add64 (pdu_len pdu) (length (opt_header (n - prev) (length v)))) (length v) =
         length (encode_msg (with_opt m n v))"
    by (simp add: add64_eq)
qed

lemma unat_length_u16: "length v < 65536 \<Longrightarrow> unat (of_nat (length v) :: u16) = length v"
  by (rule unat_of_nat_u16)

lemma add_option_full:
  assumes "represents pdu m" "can_append m n v" "pdu_max pdu < length (encode_msg (with_opt m n v))"
  shows "coap_add_option pdu (int n) (v @ z) (of_nat (length v)) = Some (CE_INSUFFICIENT_BUFFER, pdu)"
  using assms(2,3)
  by (simp add: coap_add_option_def add_option_at_end [OF assms(1,2)] Let_def unat_length_u16
      can_append_def del: length_opt_header of_nat_diff)

lemma add_option_represents:
  assumes "represents pdu m" "can_append m n v" "length (encode_msg (with_opt m n v)) \<le> pdu_max pdu"
  shows "delivers represents pdu_max pdu (coap_add_option pdu (int n) (v @ z) (of_nat (length v)))
           (with_opt m n v)"
proof -
  let ?prev = "last_num 0 (m_opts m)"
  let ?h = "opt_header (n - ?prev) (length v)"
  have pl: "m_payload m = None" and new: "?prev \<le> n" "0 < n" "n < 65536" "length v < 65536"
    using assms(2) by (auto simp: can_append_def)
  define pkt rest where "pkt = encode_msg m" and "rest = drop (pdu_len pdu) (pdu_buf pdu)"
  have b: "pdu_buf pdu = pkt @ rest" and lp: "length pkt = pdu_len pdu"
    using represents_len [OF assms(1)] assms(1)
    by (auto simp: pkt_def rest_def represents_def) (metis append_take_drop_id)
  have le: "length ?h + length v \<le> length rest"
    using assms(3) represents_min(4) [OF assms(1)] lp b
    by (simp add: encode_with_opt [OF pl] pkt_def del: length_opt_header)
  define old1 old2 rest' where "old1 = take (length ?h) rest"
    and "old2 = take (length v) (drop (length ?h) rest)" and "rest' = drop (length ?h + length v) rest"
  have lo: "length old1 = length ?h" "length old2 = length v"
    using le by (simp_all add: old1_def old2_def del: length_opt_header)
  have r: "rest = old1 @ old2 @ rest'"
    unfolding old1_def old2_def rest'_def by (simp add: add.commute flip: drop_drop del: length_opt_header)
  have hdr: "coap_build_option_header (pdu_buf pdu) (pdu_len pdu) (length ?h) (int (n - ?prev)) (int (length v)) =
      Some (int (length ?h), pkt @ ?h @ old2 @ rest')"
    using build_option_header_correct [of "n - ?prev" "length v" old1 pkt "old2 @ rest'"] lo(1) new lp
    by (simp add: compute_header_len_correct b r ext_limit_def del: length_opt_header of_nat_diff)
  have val: "mem_write (pkt @ ?h @ old2 @ rest') (pdu_len pdu + length ?h) v = Some (pkt @ ?h @ v @ rest')"
    using mem_write_append [of old2 v "pkt @ ?h" rest'] lo(2) lp by (simp del: length_opt_header)
  have src: "mem_read (v @ z) 0 (length v) = Some v"
    by (simp add: mem_read_def)
  let ?pdu = "pdu\<lparr>pdu_buf := pkt @ ?h @ v @ rest', pdu_len := length (encode_msg (with_opt m n v))\<rparr>"
  have "represents ?pdu (with_opt m n v)"
  proof (rule representsI [where rest = rest'])
    show "wf_mem ?pdu"
      using assms(1) lo by (simp add: represents_def wf_mem_def b r del: length_opt_header)
    show "wf_msg (with_opt m n v)"
      using assms(1,2) by (simp add: represents_def wf_msg_def with_opt_def can_append_def)
  qed (use assms(3) in \<open>simp_all add: encode_with_opt [OF pl] pkt_def\<close>)
  moreover have "coap_add_option pdu (int n) (v @ z) (of_nat (length v)) = Some (CE_NONE, ?pdu)"
    using assms(3) hdr val src
    by (simp add: coap_add_option_def add_option_at_end [OF assms(1,2)] Let_def
        unat_length_u16 [OF new(4)] del: length_opt_header of_nat_diff)
  ultimately show ?thesis
    by (intro deliversI [where p' = ?pdu]) simp_all
qed


definition with_payload :: "coap_msg \<Rightarrow> bytes \<Rightarrow> coap_msg" where
  "with_payload m p = m\<lparr>m_payload := Some p\<rparr>"

lemma encode_with_payload:
  "m_payload m = None \<Longrightarrow> encode_msg (with_payload m p) = encode_msg m @ 0xFF # p"
  by (simp add: with_payload_def encode_msg_def hdr_enc_def)

lemma set_payload_at_end:
  assumes "represents pdu m" "m_payload m = None"
  shows "coap_get_tkl pdu = Some (of_nat (length (m_token m)))"
    and "set_payload_find (pdu_buf pdu) (pdu_len pdu)
           (opt_at (4 + unat (of_nat (length (m_token m)) :: u8))) =
         Some (CE_END_OF_PACKET, pdu_len pdu)"
proof -
  have wf: "wf_opts 0 (m_opts m)" and lt: "pdu_len pdu < size_max"
    using assms(1) by (auto simp: represents_def wf_msg_def wf_mem_def)
  obtain rest where r: "pdu_buf pdu = hdr_enc m @ opts_enc 0 (m_opts m) @ payload_enc None @ rest"
    and l: "pdu_len pdu = length (hdr_enc m @ opts_enc 0 (m_opts m) @ payload_enc None)"
    using represents_buf [OF assms(1)] assms(2) by metis
  show "coap_get_tkl pdu = Some (of_nat (length (m_token m)))"
    by (rule get_tkl_represents(1) [OF assms(1)])
  show "set_payload_find (pdu_buf pdu) (pdu_len pdu)
           (opt_at (4 + unat (of_nat (length (m_token m)) :: u8))) =
         Some (CE_END_OF_PACKET, pdu_len pdu)"
    unfolding get_tkl_represents(2) [OF assms(1)]
    using set_payload_find_walk [OF wf r l lt, of "opt_at (length (hdr_enc m))"] l
    by (simp add: opt_at_def)
qed

lemma set_payload_full:
  assumes "represents pdu m" "m_payload m = None" "length p < size_max div 2"
    "pdu_max pdu < length (encode_msg (with_payload m p))"
  shows "coap_set_payload pdu (p @ z) (length p) = Some (CE_INSUFFICIENT_BUFFER, pdu)"
proof -
  have "pdu_len pdu < size_max div 2"
    using assms(1) by (auto simp: represents_def wf_mem_def)
  then have "add64 (add64 (pdu_len pdu) (length p)) 1 = length (encode_msg (with_payload m p))"
    using assms(3) represents_len [OF assms(1)]
    by (simp add: encode_with_payload [OF assms(2)] add64_eq size_max_def)
  then show ?thesis
    using assms(4) by (simp add: coap_set_payload_def set_payload_at_end [OF assms(1,2)])
qed

lemma set_payload_represents:
  assumes "represents pdu m" "m_payload m = None"
    "length (encode_msg (with_payload m p)) \<le> pdu_max pdu"
  shows "delivers represents pdu_max pdu (coap_set_payload pdu (p @ z) (length p)) (with_payload m p)"
proof -
  define pkt rest where "pkt = encode_msg m" and "rest = drop (pdu_len pdu) (pdu_buf pdu)"
  have b: "pdu_buf pdu = pkt @ rest" and lp: "length pkt = pdu_len pdu"
    using represents_len [OF assms(1)] assms(1)
    by (auto simp: pkt_def rest_def represents_def) (metis append_take_drop_id)
  have le: "1 + length p \<le> length rest"
    using assms(3) represents_min(4) [OF assms(1)] lp b
    by (simp add: encode_with_payload [OF assms(2)] pkt_def)
  then obtain o1 rest1 where r1: "rest = o1 # rest1" "length p \<le> length rest1"
    by (cases rest) auto
  define old rest' where "old = take (length p) rest1" and "rest' = drop (length p) rest1"
  have lo: "length old = length p" and r: "rest1 = old @ rest'"
    using r1(2) by (simp_all add: old_def rest'_def)
  have lens: "add64 (add64 (pdu_len pdu) (length p)) 1 = length (encode_msg (with_payload m p))"
    "add64 (Suc (pdu_len pdu)) (length p) = length (encode_msg (with_payload m p))"
    using assms(3) represents_min(4,5) [OF assms(1)] lp
    by (simp_all add: encode_with_payload [OF assms(2)] add64_eq flip: pkt_def)
  have mark: "wr (pdu_buf pdu) (pdu_len pdu) 0xFF = Some ((pkt @ [0xFF]) @ old @ rest')"
    using wr_append [of pkt o1 rest1 "0xFF"] by (simp add: b r1(1) lp r)
  have val: "mem_write ((pkt @ [0xFF]) @ old @ rest') (Suc (pdu_len pdu)) p = Some ((pkt @ [0xFF]) @ p @ rest')"
    using mem_write_append [of old p "pkt @ [0xFF]" rest'] lo lp by simp
  have src: "mem_read (p @ z) 0 (length p) = Some p"
    by (simp add: mem_read_def)
  let ?pdu = "pdu\<lparr>pdu_buf := (pkt @ [0xFF]) @ p @ rest', pdu_len := length (encode_msg (with_payload m p))\<rparr>"
  have "represents ?pdu (with_payload m p)"
  proof (rule representsI [where rest = rest'])
    show "wf_mem ?pdu"
      using assms(1) lo by (simp add: represents_def wf_mem_def b r r1(1))
    show "wf_msg (with_payload m p)"
      using assms(1) by (simp add: represents_def wf_msg_def with_payload_def)
  qed (use assms(3) in \<open>simp_all add: encode_with_payload [OF assms(2)] pkt_def\<close>)
  moreover have "coap_set_payload pdu (p @ z) (length p) = Some (CE_NONE, ?pdu)"
    using assms(3) mark val src lens
    by (simp add: coap_set_payload_def set_payload_at_end [OF assms(1,2)])
  ultimately show ?thesis
    by (intro deliversI [where p' = ?pdu]) simp_all
qed

end
