(* ===== verification/Coap_Iter.thy ===== *)
theory Coap_Iter
  imports Coap_Refine
begin

text \<open>
  The option iterator \<open>coap_get_option\<close> and the search \<open>coap_get_option_by_num\<close> on a packet that
  represents a message: the iterator visits the options in order, and the search ends and finds
  the requested occurrence.
\<close>

section \<open>One step of the iterator\<close>

text \<open>
  \<open>at_cursor pdu opt prev off\<close>: handing \<open>opt\<close> back to the iterator makes it continue at offset \<open>off\<close>,
  behind an option numbered \<open>prev\<close> (0 at the start).
\<close>

definition at_cursor :: "coap_pdu \<Rightarrow> coap_option \<Rightarrow> nat \<Rightarrow> nat \<Rightarrow> bool" where
  "at_cursor pdu opt prev off \<longleftrightarrow>
     0 < off \<and> off \<le> pdu_len pdu \<and> prev < 65536 \<and> opt_num opt = of_nat prev \<and>
     (if prev = 0 then first_option pdu = Some (Buf off) else opt_end opt = Buf off)"

definition pkt_at :: "coap_pdu \<Rightarrow> bytes \<Rightarrow> nat \<Rightarrow> (nat \<times> bytes) list \<Rightarrow> bytes option \<Rightarrow> bool" where
  "pkt_at pdu pre prev os pl \<longleftrightarrow>
     wf_opts prev os \<and> pdu_len pdu < size_max \<and>
     pdu_len pdu = length (pre @ opts_enc prev os @ payload_enc pl) \<and>
     (\<exists>rest. pdu_buf pdu = pre @ opts_enc prev os @ payload_enc pl @ rest)"

lemma of_nat_u16_eq_0: "n < 65536 \<Longrightarrow> (of_nat n :: u16) = 0 \<longleftrightarrow> n = 0"
  by (simp add: word_unat_eq_iff unat_of_nat_u16)

lemma get_option_at:
  assumes "at_cursor pdu opt prev off"
    and "coap_decode_option (pdu_buf pdu) (Buf off) (sub64 (pdu_len pdu) off)
           \<lparr>opt_num = of_nat prev, opt_len = 0, opt_val = NULL\<rparr> = Some (err, opt')"
  shows "coap_get_option pdu (Some opt) =
     (if err = CE_NONE then Some opt'
      else if err = CE_FOUND_PAYLOAD_MARKER then
        (if opt_num opt' = 0
         then Some \<lparr>opt_num = 0, opt_len = sub64 (sub64 (pdu_len pdu) off) 1, opt_val = Buf (off + 1)\<rparr>
         else Some \<lparr>opt_num = 0, opt_len = len_after pdu (opt_end opt'), opt_val = opt_end opt'\<rparr>)
      else Some \<lparr>opt_num = 0, opt_len = 0, opt_val = NULL\<rparr>)"
proof (cases "prev = 0")
  case True
  then have "first_option pdu = Some (Buf off)" "opt_num opt = 0"
    using assms(1) by (auto simp: at_cursor_def)
  with True assms show ?thesis
    by (simp add: coap_get_option_def at_cursor_def Let_def)
next
  case False
  then have "opt_num opt \<noteq> 0" "opt_num opt = of_nat prev" "opt_end opt = Buf off"
    using assms(1) by (auto simp: at_cursor_def of_nat_u16_eq_0)
  with assms show ?thesis
    by (simp add: coap_get_option_def at_cursor_def Let_def)
qed

lemma get_option_next:
  assumes "at_cursor pdu opt prev (length pre)" "pkt_at pdu pre prev ((n, v) # os) pl"
  defines "h \<equiv> opt_header (n - prev) (length v)"
  defines "opt' \<equiv> \<lparr>opt_num = of_nat n, opt_len = length v, opt_val = Buf (length pre + length h)\<rparr>"
  shows "coap_get_option pdu (Some opt) = Some opt'"
    and "at_cursor pdu opt' n (length (pre @ h @ v))"
    and "pkt_at pdu (pre @ h @ v) n os pl"
    and "mem_read (pdu_buf pdu) (length pre + length h) (length v) = Some v"
proof -
  obtain rest where b: "pdu_buf pdu = pre @ opts_enc prev ((n, v) # os) @ payload_enc pl @ rest"
    and wf: "wf_opts prev ((n, v) # os)" and lt: "pdu_len pdu < size_max"
    and l: "pdu_len pdu = length (pre @ opts_enc prev ((n, v) # os) @ payload_enc pl)"
    using assms(2) by (auto simp: pkt_at_def)
  have "sub64 (pdu_len pdu) (length pre) \<noteq> 0"
    using l lt by (simp add: sub64_eq)
  from decode_next_option [OF wf this, of pre "payload_enc pl @ rest"
      "\<lparr>opt_num = of_nat prev, opt_len = 0, opt_val = NULL\<rparr>"]
  have "coap_decode_option (pdu_buf pdu) (Buf (length pre)) (sub64 (pdu_len pdu) (length pre))
      \<lparr>opt_num = of_nat prev, opt_len = 0, opt_val = NULL\<rparr> = Some (CE_NONE, opt')"
    using wf by (simp add: b opt'_def h_def flip: of_nat_add)
  from get_option_at [OF assms(1) this] show "coap_get_option pdu (Some opt) = Some opt'"
    by simp
  show "at_cursor pdu opt' n (length (pre @ h @ v))"
    using wf l by (simp add: at_cursor_def opt'_def h_def)
  show "pkt_at pdu (pre @ h @ v) n os pl"
    using wf l lt b by (simp add: pkt_at_def h_def)
  show "mem_read (pdu_buf pdu) (length pre + length h) (length v) = Some v"
    using mem_read_append [of "pre @ h" v "opts_enc n os @ payload_enc pl @ rest"]
    by (simp add: b h_def)
qed

text \<open>
  Behind the last option the iterator returns number 0. With no payload that is the empty
  option; on a message without options it points at the payload; otherwise its value is NULL.
\<close>

lemma get_option_end:
  assumes "at_cursor pdu opt prev (length pre)" "pkt_at pdu pre prev [] pl"
  shows "coap_get_option pdu (Some opt) = Some
     (case pl of
        None \<Rightarrow> \<lparr>opt_num = 0, opt_len = 0, opt_val = NULL\<rparr>
      | Some p \<Rightarrow>
          if prev = 0 then \<lparr>opt_num = 0, opt_len = length p, opt_val = Buf (length pre + 1)\<rparr>
          else \<lparr>opt_num = 0, opt_len = add64 (pdu_len pdu) (pdu_addr pdu), opt_val = NULL\<rparr>)"
proof -
  obtain rest where b: "pdu_buf pdu = pre @ payload_enc pl @ rest" and lt: "pdu_len pdu < size_max"
    and l: "pdu_len pdu = length pre + length (payload_enc pl)"
    using assms(2) by (auto simp: pkt_at_def)
  have "coap_decode_option (pdu_buf pdu) (Buf (length pre)) (sub64 (pdu_len pdu) (length pre))
      \<lparr>opt_num = of_nat prev, opt_len = 0, opt_val = NULL\<rparr> =
      Some (stop_error pl, \<lparr>opt_num = of_nat prev, opt_len = 0, opt_val = NULL\<rparr>)"
    unfolding b using l lt by (rule decode_at_stop)
  from get_option_at [OF assms(1) this] show ?thesis
    using assms(1) l lt
    by (cases pl) (simp_all add: at_cursor_def of_nat_u16_eq_0 sub64_eq)
qed


section \<open>Searching by number\<close>

definition found_option :: "coap_pdu \<Rightarrow> coap_option \<Rightarrow> nat \<Rightarrow> bytes \<Rightarrow> bool" where
  "found_option pdu opt num v \<longleftrightarrow>
     opt_num opt = of_nat num \<and> opt_len opt = length v \<and>
     (\<exists>q. opt_val opt = Buf q \<and> mem_read (pdu_buf pdu) q (length v) = Some v)"

definition search_result :: "coap_pdu \<Rightarrow> coap_option \<Rightarrow> nat \<Rightarrow> bytes list \<Rightarrow> nat \<Rightarrow> bool" where
  "search_result pdu opt num vs k \<longleftrightarrow>
     (if k < length vs then found_option pdu opt num (vs ! k) else opt_num opt = 0)"

lemma search_result_Suc [simp]:
  "search_result pdu opt num (v # vs) (Suc k) \<longleftrightarrow> search_result pdu opt num vs k"
  by (simp add: search_result_def)

lemma search_result_0 [simp]: "search_result pdu opt num (v # vs) 0 \<longleftrightarrow> found_option pdu opt num v"
  by (simp add: search_result_def)

lemma search_result_Nil [simp]: "search_result pdu opt num [] k \<longleftrightarrow> opt_num opt = 0"
  by (simp add: search_result_def)

abbreviation hits :: "nat \<Rightarrow> (nat \<times> bytes) list \<Rightarrow> bytes list" where
  "hits num os \<equiv> map snd (filter (\<lambda>(n, v). n = num) os)"

lemma hits_beyond: "wf_opts prev os \<Longrightarrow> num < prev \<Longrightarrow> hits num os = []"
  by (induction prev os rule: wf_opts.induct) auto

text \<open>One turn of the search at an option numbered \<open>n\<close>.\<close>

lemma by_num_step:
  assumes "at_cursor pdu opt prev (length pre)" "pkt_at pdu pre prev ((n, v) # os) pl" "i \<le> occ"
  shows "get_option_by_num_loop pdu num occ i opt =
     (let opt' = \<lparr>opt_num = of_nat n, opt_len = length v,
                 opt_val = Buf (length pre + length (opt_header (n - prev) (length v)))\<rparr> in
      if n = num then (if i + 1 \<le> occ then get_option_by_num_loop pdu num occ (i + 1) opt' else Some opt')
      else if n > num then Some \<lparr>opt_num = 0, opt_len = 0, opt_val = NULL\<rparr>
      else get_option_by_num_loop pdu num occ i opt')"
proof -
  have "0 < n" "n < 65536"
    using assms(2) by (auto simp: pkt_at_def)
  with get_option_next(1) [OF assms(1,2)] assms(3) unat_of_nat_u16 [of n] of_nat_u16_eq_0 [of n] show ?thesis
    by (subst get_option_by_num_loop.simps) (simp add: Let_def)
qed

lemma by_num_walk:
  assumes "at_cursor pdu opt prev (length pre)" "pkt_at pdu pre prev os pl"
    "i \<le> occ" "occ < 255" "0 < num" "num < 65536"
  shows "\<exists>opt'. get_option_by_num_loop pdu num occ i opt = Some opt' \<and>
     search_result pdu opt' num (hits num os) (unat occ - unat i)"
  using assms
proof (induction os arbitrary: opt prev pre i)
  case Nil
  then show ?case
    using get_option_end [OF Nil.prems(1,2)]
    by (subst get_option_by_num_loop.simps) (auto split: option.splits)
next
  case (Cons o1 os)
  obtain n v where o1: "o1 = (n, v)" by fastforce
  have wf: "wf_opts n os"
    using Cons.prems(2) o1 by (auto simp: pkt_at_def)
  note step = get_option_next [OF Cons.prems(1) Cons.prems(2) [unfolded o1]]
  note IH = Cons.IH [OF step(2,3) _ Cons.prems(4-6)]
  note loop = by_num_step [OF Cons.prems(1) Cons.prems(2) [unfolded o1] Cons.prems(3), of num, unfolded Let_def]
  consider (here) "n = num" "i = occ" | (more) "n = num" "i < occ" | (past) "n > num" | (before) "n < num"
    using Cons.prems(3) by fastforce
  then show ?case
  proof cases
    case here
    then have "\<not> i + 1 \<le> occ"
      using Cons.prems(4) by (simp add: word_le_nat_alt u8_inc)
    with here loop step(4) show ?thesis
      by (simp add: o1 found_option_def)
  next
    case more
    then have inc: "unat (i + 1) = Suc (unat i)"
      using Cons.prems(4) by (simp add: u8_inc)
    then have i1: "i + 1 \<le> occ"
      using more(2) by (simp add: word_le_nat_alt word_less_nat_alt)
    have k: "unat occ - unat i = Suc (unat occ - unat (i + 1))"
      using inc more(2) by (simp add: word_less_nat_alt)
    show ?thesis
      using IH [OF i1] loop i1 more(1) by (simp add: o1 k)
  next
    case past
    then show ?thesis
      using loop hits_beyond [OF wf past] by (simp add: o1)
  next
    case before
    then show ?thesis
      using IH [OF Cons.prems(3)] loop by (simp add: o1)
  qed
qed


text \<open>A search that passes all options ends with what the iterator returns behind them.\<close>

lemma by_num_walk_end:
  assumes "at_cursor pdu opt prev (length pre)" "pkt_at pdu pre prev os (Some p)"
    "\<forall>(n, v) \<in> set os. n < num" "last_num prev os \<noteq> 0" "i \<le> occ" "0 < num"
  shows "get_option_by_num_loop pdu num occ i opt =
     Some \<lparr>opt_num = 0, opt_len = add64 (pdu_len pdu) (pdu_addr pdu), opt_val = NULL\<rparr>"
  using assms(1-4)
proof (induction os arbitrary: opt prev pre)
  case Nil
  then show ?case
    using get_option_end [OF Nil.prems(1,2)] assms(6)
    by (subst get_option_by_num_loop.simps) simp
next
  case (Cons o1 os)
  obtain n v where o1: "o1 = (n, v)" by fastforce
  note step = get_option_next [OF Cons.prems(1) Cons.prems(2) [unfolded o1]]
  have "n < num" using Cons.prems(3) o1 by simp
  then show ?case
    using Cons.IH [OF step(2,3)] Cons.prems(3,4) o1
      by_num_step [OF Cons.prems(1) Cons.prems(2) [unfolded o1] assms(5), of num]
    by (simp add: Let_def)
qed


text \<open>Where the iterator starts on a represented message.\<close>

lemma represents_pkt_at:
  assumes "represents pdu m"
  shows "pkt_at pdu (hdr_enc m) 0 (m_opts m) (m_payload m)"
    and "opt_num opt = 0 \<Longrightarrow> at_cursor pdu opt 0 (length (hdr_enc m))"
proof -
  obtain rest where "pdu_buf pdu = hdr_enc m @ opts_enc 0 (m_opts m) @ payload_enc (m_payload m) @ rest"
    and l: "pdu_len pdu = length (hdr_enc m @ opts_enc 0 (m_opts m) @ payload_enc (m_payload m))"
    by (rule represents_buf [OF assms])
  moreover have "pdu_len pdu < size_max" "wf_opts 0 (m_opts m)"
    using represents_min [OF assms] assms by (simp_all add: represents_def wf_msg_def)
  ultimately show "pkt_at pdu (hdr_enc m) 0 (m_opts m) (m_payload m)"
    by (simp add: pkt_at_def)
  show "at_cursor pdu opt 0 (length (hdr_enc m))" if "opt_num opt = 0"
    using that l get_tkl_represents [OF assms] by (simp add: at_cursor_def first_option_def)
qed

lemma con_val_range: "0 < con_val num" "con_val num < 65536"
  by (cases num; simp)+

lemma get_option_by_num_represents:
  assumes "represents pdu m" "occ < 255"
  shows "\<exists>opt. coap_get_option_by_num pdu num occ = Some opt \<and>
     search_result pdu opt (con_val num) (hits (con_val num) (m_opts m)) (unat occ)"
proof -
  let ?z = "\<lparr>opt_num = 0, opt_len = 0, opt_val = NULL\<rparr>"
  have "at_cursor pdu ?z 0 (length (hdr_enc m))"
    by (rule represents_pkt_at(2) [OF assms(1)]) simp
  from by_num_walk [OF this represents_pkt_at(1) [OF assms(1)] _ assms(2) con_val_range, of 0 num]
  show ?thesis
    by (simp add: coap_get_option_by_num_def unsigned_0)
qed


section \<open>Going through all options\<close>

text \<open>The option that the loop \<open>opt = coap_get_option(pdu, &opt)\<close> is at after \<open>k + 1\<close> calls.\<close>

fun nth_option :: "coap_pdu \<Rightarrow> nat \<Rightarrow> coap_option option" where
  "nth_option pdu 0 = coap_get_option pdu None"
| "nth_option pdu (Suc k) = Option.bind (nth_option pdu k) (\<lambda>opt. coap_get_option pdu (Some opt))"

lemma get_option_first:
  "coap_get_option pdu None = coap_get_option pdu (Some \<lparr>opt_num = 0, opt_len = 0, opt_val = NULL\<rparr>)"
  by (simp add: coap_get_option_def)

lemma get_option_found:
  assumes "at_cursor pdu opt prev (length pre)" "pkt_at pdu pre prev ((n, v) # os) pl"
  shows "\<exists>opt' pre'. coap_get_option pdu (Some opt) = Some opt' \<and> found_option pdu opt' n v \<and>
     at_cursor pdu opt' n (length pre') \<and> pkt_at pdu pre' n os pl"
proof (intro exI conjI)
  show "at_cursor pdu \<lparr>opt_num = of_nat n, opt_len = length v,
      opt_val = Buf (length pre + length (opt_header (n - prev) (length v)))\<rparr> n
      (length (pre @ opt_header (n - prev) (length v) @ v))"
    by (rule get_option_next(2) [OF assms])
qed (use get_option_next [OF assms] in \<open>auto simp: found_option_def simp del: length_opt_header\<close>)

lemma nth_option_walk:
  assumes "represents pdu m" "k < length (m_opts m)"
  defines "n \<equiv> fst (m_opts m ! k)" and "v \<equiv> snd (m_opts m ! k)"
  shows "\<exists>opt pre. nth_option pdu k = Some opt \<and> found_option pdu opt n v \<and>
     at_cursor pdu opt n (length pre) \<and> pkt_at pdu pre n (drop (Suc k) (m_opts m)) (m_payload m)"
  using assms(2) unfolding n_def v_def
proof (induction k)
  case 0
  let ?z = "\<lparr>opt_num = 0, opt_len = 0, opt_val = NULL\<rparr>"
  have "at_cursor pdu ?z 0 (length (hdr_enc m))"
    by (rule represents_pkt_at(2) [OF assms(1)]) simp
  moreover have "m_opts m = (fst (m_opts m ! 0), snd (m_opts m ! 0)) # drop (Suc 0) (m_opts m)"
    using 0 by (simp add: Cons_nth_drop_Suc)
  ultimately show ?case
    using get_option_found [of pdu ?z 0 "hdr_enc m"] represents_pkt_at(1) [OF assms(1)]
    by (metis get_option_first nth_option.simps(1))
next
  case (Suc k)
  then obtain opt pre where "nth_option pdu k = Some opt" "at_cursor pdu opt (fst (m_opts m ! k)) (length pre)"
    "pkt_at pdu pre (fst (m_opts m ! k)) (drop (Suc k) (m_opts m)) (m_payload m)"
    by auto
  moreover have "drop (Suc k) (m_opts m) =
      (fst (m_opts m ! Suc k), snd (m_opts m ! Suc k)) # drop (Suc (Suc k)) (m_opts m)"
    using Suc.prems by (simp add: Cons_nth_drop_Suc)
  ultimately show ?case
    using get_option_found [of pdu opt "fst (m_opts m ! k)" pre] by simp
qed

end
