(* ===== verification/Packet_Ops.thy ===== *)
theory Packet_Ops
  imports Coap_Iter
begin

text \<open>
  The contract between the packet functions of picocoap and the code that builds messages with
  them: each operation turns a packet that represents a message into one that represents the
  changed message, as long as the result fits the packet, and otherwise reports
  \<open>CE_INSUFFICIENT_BUFFER\<close> and leaves the packet alone.
\<close>

locale packet_ops =
  fixes rep :: "'p \<Rightarrow> coap_msg \<Rightarrow> bool"
    and cap :: "'p \<Rightarrow> nat"
    and set_version :: "'p \<Rightarrow> u8 \<Rightarrow> (coap_error \<times> 'p) option"
    and set_type :: "'p \<Rightarrow> u8 \<Rightarrow> (coap_error \<times> 'p) option"
    and set_code :: "'p \<Rightarrow> u8 \<Rightarrow> (coap_error \<times> 'p) option"
    and set_mid :: "'p \<Rightarrow> u16 \<Rightarrow> (coap_error \<times> 'p) option"
    and set_token :: "'p \<Rightarrow> u64 \<Rightarrow> u8 \<Rightarrow> (coap_error \<times> 'p) option"
    and add_option :: "'p \<Rightarrow> int \<Rightarrow> bytes \<Rightarrow> u16 \<Rightarrow> (coap_error \<times> 'p) option"
    and set_payload :: "'p \<Rightarrow> bytes \<Rightarrow> nat \<Rightarrow> (coap_error \<times> 'p) option"
  assumes version_law: "rep p m \<Longrightarrow> delivers rep cap p (set_version p 1) m"
    and type_law: "rep p m \<Longrightarrow> delivers rep cap p (set_type p (ct_val t)) (m\<lparr>m_type := t\<rparr>)"
    and code_law: "rep p m \<Longrightarrow> delivers rep cap p (set_code p c) (m\<lparr>m_code := c\<rparr>)"
    and mid_law: "rep p m \<Longrightarrow> delivers rep cap p (set_mid p i) (m\<lparr>m_mid := i\<rparr>)"
    and token_law: "rep p m \<Longrightarrow> n \<le> 8 \<Longrightarrow>
      length (encode_msg (m\<lparr>m_token := bytes_le n tok\<rparr>)) \<le> cap p \<Longrightarrow>
      delivers rep cap p (set_token p tok (of_nat n)) (m\<lparr>m_token := bytes_le n tok\<rparr>)"
    and option_law: "rep p m \<Longrightarrow> can_append m n v \<Longrightarrow>
      length (encode_msg (with_opt m n v)) \<le> cap p \<Longrightarrow>
      delivers rep cap p (add_option p (int n) (v @ z) (of_nat (length v))) (with_opt m n v)"
    and option_full_law: "rep p m \<Longrightarrow> can_append m n v \<Longrightarrow>
      cap p < length (encode_msg (with_opt m n v)) \<Longrightarrow>
      add_option p (int n) (v @ z) (of_nat (length v)) = Some (CE_INSUFFICIENT_BUFFER, p)"
    and payload_law: "rep p m \<Longrightarrow> m_payload m = None \<Longrightarrow>
      length (encode_msg (with_payload m pl)) \<le> cap p \<Longrightarrow>
      delivers rep cap p (set_payload p (pl @ z) (length pl)) (with_payload m pl)"
    and payload_full_law: "rep p m \<Longrightarrow> m_payload m = None \<Longrightarrow> length pl < size_max div 2 \<Longrightarrow>
      cap p < length (encode_msg (with_payload m pl)) \<Longrightarrow>
      set_payload p (pl @ z) (length pl) = Some (CE_INSUFFICIENT_BUFFER, p)"

interpretation pk: packet_ops represents pdu_max coap_set_version coap_set_type coap_set_code
  coap_set_mid coap_set_token coap_add_option coap_set_payload
  by unfold_locales
    (fact set_version_represents set_type_represents set_code_represents set_mid_represents
      set_token_represents add_option_represents add_option_full set_payload_represents
      set_payload_full)+

text \<open>The message with a list of options appended.\<close>

definition with_opts :: "coap_msg \<Rightarrow> (nat \<times> bytes) list \<Rightarrow> coap_msg" where
  "with_opts m os = m\<lparr>m_opts := m_opts m @ os\<rparr>"

lemma with_opts_Nil [simp]: "with_opts m [] = m"
  by (simp add: with_opts_def)

lemma with_opts_Cons: "with_opts m ((n, v) # os) = with_opts (with_opt m n v) os"
  by (simp add: with_opts_def with_opt_def)

lemma with_opts_simps [simp]:
  "m_payload (with_opts m os) = m_payload m" "m_opts (with_opts m os) = m_opts m @ os"
  "m_payload (with_opt m n v) = m_payload m" "m_opts (with_opt m n v) = m_opts m @ [(n, v)]"
  by (simp_all add: with_opts_def with_opt_def)

lemma length_encode_mono: "m_payload m = None \<Longrightarrow> length (encode_msg m) \<le> length (encode_msg (with_opts m os))"
  by (simp add: encode_msg_def with_opts_def hdr_enc_def opts_enc_append)

end
