(* ===== verification/Coap_Roundtrip.thy ===== *)
theory Coap_Roundtrip
  imports Packet_Ops
begin

text \<open>
  Whole messages: a packet made from nothing with the functions of \<^verbatim>\<open>coap.c\<close>, in the order in which its
  clients call them, and read back with its getters, its option iterator and \<open>coap_get_payload\<close>.
\<close>

section \<open>Calls in sequence\<close>

text \<open>The next call, unless the last one reported an error.\<close>

definition and_then ::
  "(coap_error \<times> 'p) option \<Rightarrow> ('p \<Rightarrow> (coap_error \<times> 'p) option) \<Rightarrow> (coap_error \<times> 'p) option" where
  "and_then r f = Option.bind r (\<lambda>(e, p). if e = CE_NONE then f p else Some (e, p))"

text \<open>
  \<open>writes rep cap p r m\<close>: the call that returned \<open>r\<close> left a packet that represents \<open>m\<close>, if \<open>m\<close> fits
  the packet \<open>p\<close>, and reported that the buffer is too small otherwise.
\<close>

definition writes ::
  "('p \<Rightarrow> coap_msg \<Rightarrow> bool) \<Rightarrow> ('p \<Rightarrow> nat) \<Rightarrow> 'p \<Rightarrow> (coap_error \<times> 'p) option \<Rightarrow> coap_msg \<Rightarrow> bool" where
  "writes rep cap p r m \<longleftrightarrow>
     (if length (encode_msg m) \<le> cap p then delivers rep cap p r m
      else \<exists>p'. r = Some (CE_INSUFFICIENT_BUFFER, p'))"

lemma writes_then:
  assumes "writes rep cap p r m1" "length (encode_msg m1) \<le> length (encode_msg m)"
    "\<And>p'. rep p' m1 \<Longrightarrow> cap p' = cap p \<Longrightarrow> writes rep cap p' (f p') m"
  shows "writes rep cap p (and_then r f) m"
proof (cases "length (encode_msg m1) \<le> cap p")
  case True
  then obtain p' where p': "r = Some (CE_NONE, p')" "rep p' m1" "cap p' = cap p"
    using assms(1) by (auto simp: writes_def elim: deliversE)
  from assms(3) [OF p'(2,3)] p'(1,3) show ?thesis
    by (auto simp: writes_def delivers_def and_then_def split: if_splits)
next
  case False
  with assms(1,2) show ?thesis by (auto simp: writes_def and_then_def)
qed

fun add_all_options :: "('p \<Rightarrow> int \<Rightarrow> bytes \<Rightarrow> u16 \<Rightarrow> (coap_error \<times> 'p) option) \<Rightarrow> (nat \<times> bytes) list \<Rightarrow>
    'p \<Rightarrow> (coap_error \<times> 'p) option" where
  "add_all_options add [] p = Some (CE_NONE, p)"
| "add_all_options add ((n, v) # os) p = and_then (add p (int n) v (of_nat (length v))) (add_all_options add os)"


text \<open>
  The contract with its limits: a represented message is within the capacity, and the token is refused
  when there is no room for it.
\<close>

locale packet_limits = packet_ops +
  assumes fits_law: "rep p m \<Longrightarrow> length (encode_msg m) \<le> cap p"
    and wf_law: "rep p m \<Longrightarrow> wf_msg m"
    and token_full_law: "rep p m \<Longrightarrow> n \<le> 8 \<Longrightarrow> cap p < length (encode_msg (m\<lparr>m_token := bytes_le n tok\<rparr>)) \<Longrightarrow>
      set_token p tok (of_nat n) = Some (CE_INSUFFICIENT_BUFFER, p)"
begin

lemma writes_header:
  assumes "rep p m" "delivers rep cap p r m'" "length (encode_msg m') = length (encode_msg m)"
  shows "writes rep cap p r m'"
  using assms fits_law [OF assms(1)] by (simp add: writes_def)

lemma type_writes: "rep p m \<Longrightarrow> writes rep cap p (set_type p (ct_val t)) (m\<lparr>m_type := t\<rparr>)"
  by (rule writes_header [OF _ type_law]) (simp_all add: encode_msg_def)

lemma code_writes: "rep p m \<Longrightarrow> writes rep cap p (set_code p c) (m\<lparr>m_code := c\<rparr>)"
  by (rule writes_header [OF _ code_law]) (simp_all add: encode_msg_def)

lemma mid_writes: "rep p m \<Longrightarrow> writes rep cap p (set_mid p i) (m\<lparr>m_mid := i\<rparr>)"
  by (rule writes_header [OF _ mid_law]) (simp_all add: encode_msg_def)

lemma token_writes:
  assumes "rep p m" "length tok \<le> 8"
  shows "writes rep cap p (set_token p (le_bytes tok) (of_nat (length tok))) (m\<lparr>m_token := tok\<rparr>)"
  using token_law [OF assms, of "le_bytes tok"] token_full_law [OF assms, of "le_bytes tok"]
  by (auto simp: writes_def bytes_le_le_bytes [OF assms(2)] not_le)

lemma option_writes:
  assumes "rep p m" "can_append m n v"
  shows "writes rep cap p (add_option p (int n) v (of_nat (length v))) (with_opt m n v)"
  using option_law [OF assms, of "[]"] option_full_law [OF assms, of "[]"] by (auto simp: writes_def not_le)

lemma payload_writes:
  assumes "rep p m" "m_payload m = None" "length pl < size_max div 2"
  shows "writes rep cap p (set_payload p pl (length pl)) (with_payload m pl)"
  using payload_law [OF assms(1,2), of pl "[]"] payload_full_law [OF assms, of "[]"] by (auto simp: writes_def not_le)

lemma options_writes:
  assumes "rep p m" "m_payload m = None" "wf_opts (last_num 0 (m_opts m)) os"
  shows "writes rep cap p (add_all_options add_option os p) (with_opts m os)"
  using assms
proof (induction os arbitrary: p m)
  case Nil
  then show ?case using fits_law by (simp add: writes_def delivers_def)
next
  case (Cons o1 os)
  obtain n v where o1: "o1 = (n, v)" by fastforce
  have "can_append m n v" using Cons.prems o1 by (simp add: can_append_def)
  with Cons.prems(1) have "writes rep cap p (add_option p (int n) v (of_nat (length v))) (with_opt m n v)"
    by (rule option_writes)
  then show ?case
    unfolding o1 add_all_options.simps with_opts_Cons
    by (rule writes_then) (use Cons.prems o1 in \<open>auto intro: length_encode_mono Cons.IH\<close>)
qed

end

interpretation pl: packet_limits represents pdu_max coap_set_version coap_set_type coap_set_code
  coap_set_mid coap_set_token coap_add_option coap_set_payload
  by unfold_locales
    (auto simp: represents_def simp flip: represents_len intro: set_token_full)

section \<open>Writing a message\<close>

definition build_pdu :: "coap_pdu \<Rightarrow> coap_msg \<Rightarrow> (coap_error \<times> coap_pdu) option" where
  "build_pdu pdu m =
     and_then (coap_init_pdu pdu) (\<lambda>p.
     and_then (coap_set_type p (ct_val (m_type m))) (\<lambda>p.
     and_then (coap_set_code p (m_code m)) (\<lambda>p.
     and_then (coap_set_mid p (m_mid m)) (\<lambda>p.
     and_then (coap_set_token p (le_bytes (m_token m)) (of_nat (length (m_token m)))) (\<lambda>p.
     and_then (add_all_options coap_add_option (m_opts m) p) (\<lambda>p.
     case m_payload m of None \<Rightarrow> Some (CE_NONE, p) | Some pl \<Rightarrow> coap_set_payload p pl (length pl)))))))"

lemma init_pdu_writes:
  assumes "wf_mem pdu"
  shows "writes represents pdu_max pdu (coap_init_pdu pdu) ping_msg"
  using init_pdu_represents [OF assms]
  by (auto simp: writes_def ping_msg_def encode_msg_def coap_init_pdu_def)

lemma build_pdu_writes:
  assumes "wf_mem pdu" "wf_msg m" "length (payload_enc (m_payload m)) \<le> size_max div 2"
  shows "writes represents pdu_max pdu (build_pdu pdu m) m"
proof -
  define m1 m2 m3 m4 m5 where
    "m1 = ping_msg\<lparr>m_type := m_type m\<rparr>" and "m2 = m1\<lparr>m_code := m_code m\<rparr>" and "m3 = m2\<lparr>m_mid := m_mid m\<rparr>"
    and "m4 = m3\<lparr>m_token := m_token m\<rparr>" and "m5 = with_opts m4 (m_opts m)"
  note defs = m1_def m2_def m3_def m4_def m5_def ping_msg_def with_opts_def encode_msg_def
  have tok: "length (m_token m) \<le> 8" and os: "wf_opts 0 (m_opts m)" using assms(2) by (simp_all add: wf_msg_def)
  have last: "writes represents pdu_max p
      (case m_payload m of None \<Rightarrow> Some (CE_NONE, p) | Some pl \<Rightarrow> coap_set_payload p pl (length pl)) m"
    if p: "represents p m5" for p
  proof (cases "m_payload m")
    case None
    then have "m5 = m" by (simp add: defs)
    with None p pl.fits_law show ?thesis by (simp add: writes_def delivers_def)
  next
    case (Some b)
    then have "with_payload m5 b = m" by (simp add: defs with_payload_def)
    with Some assms(3) pl.payload_writes [OF p, of b] show ?thesis by (simp add: defs)
  qed
  show ?thesis
    unfolding build_pdu_def
    by (rule writes_then [OF init_pdu_writes [OF assms(1)]], simp add: defs,
        rule writes_then [OF pl.type_writes, of _ _ "m_type m", folded m1_def], assumption, simp add: defs,
        rule writes_then [OF pl.code_writes, of _ _ "m_code m", folded m2_def], assumption, simp add: defs,
        rule writes_then [OF pl.mid_writes, of _ _ "m_mid m", folded m3_def], assumption, simp add: defs,
        rule writes_then [OF pl.token_writes [OF _ tok], folded m4_def], assumption, simp add: defs,
        rule writes_then [OF pl.options_writes, folded m5_def], assumption)
      (use os in \<open>auto simp: defs intro: last\<close>)
qed

section \<open>Reading a message\<close>

definition type_of_val :: "u8 \<Rightarrow> coap_type option" where
  "type_of_val b = find (\<lambda>t. ct_val t = b) [CT_CON, CT_NON, CT_ACK, CT_RST]"

text \<open>
  \<open>while ((opt = coap_get_option(&pdu, &opt)).num != 0)\<close>: the options the iterator yields. A packet of \<open>len\<close> bytes has
  at most \<open>len\<close> of them, so \<open>len + 1\<close> calls are enough.
\<close>

fun read_options :: "coap_pdu \<Rightarrow> nat \<Rightarrow> coap_option option \<Rightarrow> (nat \<times> bytes) list option" where
  "read_options pdu 0 prev = None"
| "read_options pdu (Suc fuel) prev =
     do { opt \<leftarrow> coap_get_option pdu prev;
          if opt_num opt = 0 then Some []
          else case opt_val opt of
            NULL \<Rightarrow> None
          | Buf q \<Rightarrow> do { v \<leftarrow> mem_read (pdu_buf pdu) q (opt_len opt);
                          os \<leftarrow> read_options pdu fuel (Some opt);
                          Some ((unat (opt_num opt), v) # os) } }"

definition read_payload :: "coap_pdu \<Rightarrow> bytes option option" where
  "read_payload pdu =
     do { pl \<leftarrow> coap_get_payload pdu;
          case pl_val pl of NULL \<Rightarrow> Some None | Buf q \<Rightarrow> map_option Some (mem_read (pdu_buf pdu) q (pl_len pl)) }"

definition read_pdu :: "coap_pdu \<Rightarrow> coap_msg option" where
  "read_pdu pdu =
     do { t \<leftarrow> coap_get_type pdu; t \<leftarrow> type_of_val t;
          c \<leftarrow> coap_get_code pdu; mid \<leftarrow> coap_get_mid pdu;
          tkl \<leftarrow> coap_get_tkl pdu; tok \<leftarrow> coap_get_token pdu;
          os \<leftarrow> read_options pdu (pdu_len pdu + 1) None;
          pl \<leftarrow> read_payload pdu;
          Some \<lparr>m_type = t, m_code = c, m_mid = mid, m_token = bytes_le (unat tkl) tok, m_opts = os, m_payload = pl\<rparr> }"

lemma type_of_val [simp]: "type_of_val (ct_val t) = Some t"
  by (cases t) (simp_all add: type_of_val_def)

lemma read_options_walk:
  assumes "at_cursor pdu opt prev (length pre)" "pkt_at pdu pre prev os pl" "length os < fuel"
  shows "read_options pdu fuel (Some opt) = Some os"
  using assms
proof (induction os arbitrary: opt prev pre fuel)
  case Nil
  then obtain f where "fuel = Suc f" by (cases fuel) auto
  with get_option_end [OF Nil.prems(1,2)] show ?case by (cases pl) simp_all
next
  case (Cons o1 os)
  obtain n v f where o1: "o1 = (n, v)" "fuel = Suc f" using Cons.prems(3) by (cases o1; cases fuel) auto
  note step = get_option_next [OF Cons.prems(1) Cons.prems(2) [unfolded o1(1)]]
  have "0 < n" "n < 65536" using Cons.prems(2) o1(1) by (auto simp: pkt_at_def)
  then show ?case
    using Cons.IH [OF step(2,3), of f] step(1,4) Cons.prems(3) o1
    by (simp add: unat_of_nat_u16 of_nat_u16_eq_0)
qed

lemma length_opts_enc: "length os \<le> length (opts_enc prev os)"
  by (induction prev os rule: opts_enc.induct) auto

lemma read_pdu_represents:
  assumes "represents pdu m"
  shows "read_pdu pdu = Some m"
proof -
  let ?z = "\<lparr>opt_num = 0, opt_len = 0, opt_val = NULL\<rparr>"
  have "length (m_opts m) < pdu_len pdu + 1"
    using represents_len [OF assms] length_opts_enc [of "m_opts m" 0] by (simp add: encode_msg_def)
  then have "read_options pdu (pdu_len pdu + 1) (Some ?z) = Some (m_opts m)"
    by (intro read_options_walk [OF represents_pkt_at(2) [OF assms] represents_pkt_at(1) [OF assms]]) simp_all
  then have os: "read_options pdu (pdu_len pdu + 1) None = Some (m_opts m)"
    by (simp add: get_option_first)
  have pl: "read_payload pdu = Some (m_payload m)"
    using get_payload_represents [OF assms] by (cases "m_payload m") (simp_all add: read_payload_def)
  have tok: "length (m_token m) \<le> 8" using assms by (simp add: represents_def wf_msg_def)
  show ?thesis
    using os pl tok
    by (simp add: read_pdu_def get_type_represents [OF assms] get_code_represents [OF assms] get_mid_represents [OF assms]
        get_tkl_represents(1) [OF assms] get_token_represents [OF assms] unat_of_nat_u8 bytes_le_le_bytes)
qed

end
