(* ===== verification/Coap_Properties.thy ===== *)
theory Coap_Properties
  imports Coap_Roundtrip
begin

text \<open>
  The properties of picocoap (\<^verbatim>\<open>coap.c\<close>), with the example packets their witnesses run on: what
  its functions do on well-formed packets, and where they go wrong.
\<close>

section \<open>Example packets\<close>

text \<open>A GET request with two options and a payload, in a buffer of 40 bytes.\<close>

definition ex_msg :: coap_msg where
  "ex_msg = \<lparr>m_type = CT_CON, m_code = 1, m_mid = 0x1234, m_token = [7, 8],
     m_opts = [(11, [49, 97]), (15, [120])], m_payload = None\<rparr>"

definition ex_pdu :: coap_pdu where
  "ex_pdu = \<lparr>pdu_buf = encode_msg ex_msg @ replicate 29 0, pdu_addr = 4096,
     pdu_len = length (encode_msg ex_msg), pdu_max = 40, pdu_opt_ptr = NULL\<rparr>"

definition ex_pdu_full :: coap_pdu where
  "ex_pdu_full = ex_pdu\<lparr>pdu_max := 11\<rparr>"

definition ex_msg_payload :: coap_msg where
  "ex_msg_payload = ex_msg\<lparr>m_payload := Some [49, 50]\<rparr>"

definition ex_pdu_payload :: coap_pdu where
  "ex_pdu_payload = ex_pdu\<lparr>pdu_buf := encode_msg ex_msg_payload @ replicate 29 0,
     pdu_len := length (encode_msg ex_msg_payload)\<rparr>"

text \<open>A message followed by a cut option header, and a message with the options 11 and 15.\<close>

definition truncated_pdu :: "coap_msg \<Rightarrow> coap_pdu" where
  "truncated_pdu m = \<lparr>pdu_buf = encode_msg m @ [0xD0], pdu_addr = 4096,
     pdu_len = length (encode_msg m) + 1, pdu_max = length (encode_msg m) + 1, pdu_opt_ptr = NULL\<rparr>"

definition middle_pdu :: coap_pdu where
  "middle_pdu = \<lparr>pdu_buf = [0x40, 1, 0, 0, 0xB1, 7, 0x41, 8] @ replicate 10 0, pdu_addr = 4096,
     pdu_len = 8, pdu_max = 18, pdu_opt_ptr = NULL\<rparr>"

lemma ex_represents: "represents ex_pdu ex_msg" "represents ex_pdu_full ex_msg"
    "represents ex_pdu_payload ex_msg_payload"
  by (rule representsI [where rest = "replicate 29 0"];
      simp add: ex_pdu_def ex_pdu_full_def ex_pdu_payload_def ex_msg_def ex_msg_payload_def wf_mem_def
        wf_msg_def size_max_def encode_msg_def length_ext_bytes)+



section \<open>Writing packets\<close>

text \<open>
  C2. Appending an option: on a packet that holds a message without payload, \<open>coap_add_option\<close> with a
  number not below the last one and a value of less than 65536 bytes gives a packet that holds
  the message with that option added at the end, when the result fits the buffer; otherwise it
  reports CE_INSUFFICIENT_BUFFER and the packet is unchanged. Bytes behind the value in the
  caller's memory do not matter.
\<close>

theorem add_option_appends:
  assumes "represents pdu m" "can_append m n v"
  shows "if length (encode_msg (with_opt m n v)) \<le> pdu_max pdu
     then \<exists>pdu'. coap_add_option pdu (int n) (v @ z) (of_nat (length v)) = Some (CE_NONE, pdu') \<and>
            represents pdu' (with_opt m n v) \<and> pdu_max pdu' = pdu_max pdu
     else coap_add_option pdu (int n) (v @ z) (of_nat (length v)) = Some (CE_INSUFFICIENT_BUFFER, pdu)"
  using add_option_represents [OF assms, of z] add_option_full [OF assms, of z]
  by (auto simp: not_le delivers_def)

theorem add_option_appends_witness:
  "(\<exists>pdu'. coap_add_option ex_pdu 15 [121, 0] 1 = Some (CE_NONE, pdu') \<and>
      represents pdu' (with_opt ex_msg 15 [121]) \<and> pdu_max pdu' = 40) \<and>
   coap_add_option ex_pdu_full 15 [121, 0] 1 = Some (CE_INSUFFICIENT_BUFFER, ex_pdu_full)"
proof -
  have "can_append ex_msg 15 [121]" "length (encode_msg (with_opt ex_msg 15 [121])) = 13"
    by (simp_all add: can_append_def ex_msg_def with_opt_def encode_msg_def length_ext_bytes)
  then show ?thesis
    using add_option_appends [OF ex_represents(1), of 15 "[121]" "[0]"]
      add_option_appends [OF ex_represents(2), of 15 "[121]" "[0]"]
    by (simp add: ex_pdu_full_def ex_pdu_def)
qed

text \<open>
  C24. The option header round trip: for a delta and a length that the format can express, the
  header \<open>coap_build_option_header\<close> writes has exactly the length \<open>coap_compute_option_header_len\<close>
  announces, nothing around it changes, and \<open>coap_decode_option\<close> reads the same delta and length back and
  points at the first byte behind the header.
\<close>

theorem option_header_roundtrip:
  assumes "d < ext_limit" "l < 65536" "pkt_len \<noteq> 0"
    "length old = coap_compute_option_header_len (int d) (int l)"
  shows "\<exists>hdr. coap_build_option_header (pre @ old @ rest) (length pre) (length old) (int d) (int l) =
       Some (int (length old), pre @ hdr @ rest) \<and> length hdr = length old \<and>
     coap_decode_option (pre @ hdr @ rest) (Buf (length pre)) pkt_len opt =
       Some (CE_NONE, \<lparr>opt_num = opt_num opt + of_nat d, opt_len = l, opt_val = Buf (length pre + length old)\<rparr>)"
proof (intro exI conjI)
  have l: "l < ext_limit" "l mod 65536 = l" using assms(2) by (simp_all add: ext_limit_def)
  have old: "length old = length (opt_header d l)"
    using assms(4) compute_header_len_correct by simp
  show "coap_build_option_header (pre @ old @ rest) (length pre) (length old) (int d) (int l) =
      Some (int (length old), pre @ opt_header d l @ rest)"
    using build_option_header_correct [OF assms(1) l(1) old, of pre rest] assms(4) by simp
  show "length (opt_header d l) = length old" using old by simp
  show "coap_decode_option (pre @ opt_header d l @ rest) (Buf (length pre)) pkt_len opt =
       Some (CE_NONE, \<lparr>opt_num = opt_num opt + of_nat d, opt_len = l, opt_val = Buf (length pre + length old)\<rparr>)"
    using decode_option_header [OF assms(1) l(1) assms(3), of pre rest opt] l(2) old
    by (simp del: length_opt_header)
qed

theorem option_header_roundtrip_witness:
  "\<exists>hdr. coap_build_option_header [1, 0, 0, 0, 9] 1 3 20 13 = Some (3, [1] @ hdr @ [9]) \<and> length hdr = 3 \<and>
     coap_decode_option ([1] @ hdr @ [9]) (Buf 1) 16 \<lparr>opt_num = 5, opt_len = 0, opt_val = NULL\<rparr> =
       Some (CE_NONE, \<lparr>opt_num = 25, opt_len = 13, opt_val = Buf 4\<rparr>)"
  using option_header_roundtrip [of 20 13 16 "[0, 0, 0]" "[1]" "[9]" "\<lparr>opt_num = 5, opt_len = 0, opt_val = NULL\<rparr>"]
  by (simp add: ext_limit_def coap_compute_option_header_len_def flip: numeral_2_eq_2)



text \<open>
  Setting the payload of a message that has none and reading it back: when it fits,
  \<open>coap_set_payload\<close> succeeds, \<open>coap_get_payload\<close> then returns the length and a pointer to exactly these
  bytes, and header, token and options stay as they were; otherwise CE_INSUFFICIENT_BUFFER is
  reported and the packet is unchanged.
\<close>

lemma payload_roundtrip:
  assumes "represents pdu m" "m_payload m = None" "length p < size_max div 2"
  shows "if length (encode_msg (with_payload m p)) \<le> pdu_max pdu
     then \<exists>pdu' q. coap_set_payload pdu (p @ z) (length p) = Some (CE_NONE, pdu') \<and>
            represents pdu' (with_payload m p) \<and>
            coap_get_payload pdu' = Some \<lparr>pl_len = length p, pl_val = Buf q\<rparr> \<and>
            mem_read (pdu_buf pdu') q (length p) = Some p
     else coap_set_payload pdu (p @ z) (length p) = Some (CE_INSUFFICIENT_BUFFER, pdu)"
proof (cases "length (encode_msg (with_payload m p)) \<le> pdu_max pdu")
  case True
  obtain pdu' where "coap_set_payload pdu (p @ z) (length p) = Some (CE_NONE, pdu')"
    "represents pdu' (with_payload m p)"
    using set_payload_represents [OF assms(1,2) True, of z] by (rule deliversE)
  with True show ?thesis
    using get_payload_represents [of pdu' "with_payload m p"] by (auto simp: with_payload_def)
next
  case False
  then show ?thesis using set_payload_full [OF assms, of z] by simp
qed

text \<open>
  Setting a token of at most 8 bytes that fits: \<open>coap_set_token\<close> succeeds whatever the length of the
  old token was, \<open>coap_get_token\<close> returns the low \<open>tkl\<close> bytes of the value, and the options and the
  payload behind the token move along unharmed.
\<close>

lemma token_roundtrip:
  assumes "represents pdu m" "tkl \<le> 8"
    "length (encode_msg (m\<lparr>m_token := bytes_le tkl token\<rparr>)) \<le> pdu_max pdu"
  shows "\<exists>pdu'. coap_set_token pdu token (of_nat tkl) = Some (CE_NONE, pdu') \<and>
     represents pdu' (m\<lparr>m_token := bytes_le tkl token\<rparr>) \<and>
     coap_get_token pdu' = Some (take_bit (8 * tkl) token) \<and> coap_get_tkl pdu' = Some (of_nat tkl)"
  using set_token_represents [OF assms]
  by (elim deliversE) (auto simp: get_token_represents get_tkl_represents le_bytes_bytes_le)

text \<open>
  A message header made from scratch: on any buffer of at least four bytes, \<open>coap_init_pdu\<close> and
  the setters of type, code and message id succeed, the getters return what was set, and the
  packet passes \<open>coap_validate_pkt\<close>.
\<close>

lemma header_fields:
  assumes "wf_mem pdu" "4 \<le> pdu_max pdu"
  shows "\<exists>p1 p2 p3 p4. coap_init_pdu pdu = Some (CE_NONE, p1) \<and>
     coap_set_type p1 (ct_val t) = Some (CE_NONE, p2) \<and> coap_set_code p2 c = Some (CE_NONE, p3) \<and>
     coap_set_mid p3 mid = Some (CE_NONE, p4) \<and>
     coap_get_version p4 = Some 1 \<and> coap_get_type p4 = Some (ct_val t) \<and> coap_get_tkl p4 = Some 0 \<and>
     coap_get_code p4 = Some c \<and> coap_get_mid p4 = Some mid \<and> coap_get_token p4 = Some 0 \<and>
     coap_validate_pkt p4 = Some (CE_NONE, p4\<lparr>pdu_opt_ptr := NULL\<rparr>)"
proof -
  obtain p1 where p1: "coap_init_pdu pdu = Some (CE_NONE, p1)" "represents p1 ping_msg"
    using init_pdu_represents [OF assms] by (rule deliversE)
  obtain p2 where p2: "coap_set_type p1 (ct_val t) = Some (CE_NONE, p2)" "represents p2 (ping_msg\<lparr>m_type := t\<rparr>)"
    using set_type_represents [OF p1(2)] by (rule deliversE)
  obtain p3 where p3: "coap_set_code p2 c = Some (CE_NONE, p3)" "represents p3 (ping_msg\<lparr>m_type := t, m_code := c\<rparr>)"
    using set_code_represents [OF p2(2)] by (rule deliversE)
  obtain p4 where p4: "coap_set_mid p3 mid = Some (CE_NONE, p4)"
    "represents p4 (ping_msg\<lparr>m_type := t, m_code := c, m_mid := mid\<rparr>)"
    using set_mid_represents [OF p3(2)] by (rule deliversE)
  show ?thesis
    using p1(1) p2(1) p3(1) p4 validate_represents [OF p4(2)] get_version_represents [OF p4(2)]
      get_type_represents [OF p4(2)] get_tkl_represents [OF p4(2)] get_code_represents [OF p4(2)]
      get_mid_represents [OF p4(2)] get_token_represents [OF p4(2)]
    by (simp add: ping_msg_def)
qed

section \<open>Reading packets\<close>

text \<open>
  C20. Searching an option by number: on a packet that holds a message, \<open>coap_get_option_by_num\<close>
  returns for every occurrence below 255, and finds the requested occurrence of that number with its
  value, or returns an option with number 0 when there are not that many.
\<close>

theorem option_by_num_found:
  assumes "represents pdu m" "occ < 255"
  shows "\<exists>opt. coap_get_option_by_num pdu num occ = Some opt \<and>
     (let vs = hits (con_val num) (m_opts m) in
      if unat occ < length vs
      then opt_num opt = of_nat (con_val num) \<and> opt_len opt = length (vs ! unat occ) \<and>
           (\<exists>q. opt_val opt = Buf q \<and>
              mem_read (pdu_buf pdu) q (length (vs ! unat occ)) = Some (vs ! unat occ))
      else opt_num opt = 0)"
  using get_option_by_num_represents [OF assms, of num]
  unfolding search_result_def found_option_def Let_def .

theorem option_by_num_found_witness:
  "\<exists>opt. coap_get_option_by_num ex_pdu CON_URI_QUERY 0 = Some opt \<and> opt_num opt = 15 \<and> opt_len opt = 1 \<and>
     (\<exists>q. opt_val opt = Buf q \<and> mem_read (pdu_buf ex_pdu) q 1 = Some [120])"
  using option_by_num_found [OF ex_represents(1), of 0 CON_URI_QUERY] by (simp add: ex_msg_def)

text \<open>
  The iterator: starting without a previous option and feeding each result back in,
  \<open>coap_get_option\<close> returns the options of the message one by one, in order, with their numbers and
  values.
\<close>

lemma options_enumerated:
  assumes "represents pdu m" "k < length (m_opts m)"
  shows "\<exists>opt q. nth_option pdu k = Some opt \<and> opt_num opt = of_nat (fst (m_opts m ! k)) \<and>
     opt_len opt = length (snd (m_opts m ! k)) \<and> opt_val opt = Buf q \<and>
     mem_read (pdu_buf pdu) q (opt_len opt) = Some (snd (m_opts m ! k))"
  using nth_option_walk [OF assms] by (auto simp: found_option_def)

text \<open>
  A packet that is shorter than four bytes, has a version other than 1, or announces a token of
  more than 8 bytes does not pass.
\<close>

lemma validate_rejects:
  assumes "pdu_len pdu \<le> length (pdu_buf pdu)" "rejected (take (pdu_len pdu) (pdu_buf pdu))"
  shows "coap_validate_pkt pdu = Some (CE_INVALID_PACKET, pdu\<lparr>pdu_opt_ptr := NULL\<rparr>)"
  using assms(1) by (intro validate_rejected [OF assms(2), of pdu "drop (pdu_len pdu) (pdu_buf pdu)"]) simp_all

lemma ct_val_range: "drop_bit 4 b AND 3 \<in> range ct_val" for b :: u8
proof -
  have "unat (drop_bit 4 b AND 3 :: u8) < 4"
    using word_and_le1 [of "drop_bit 4 b" 3] by (simp add: word_le_nat_alt)
  then have "drop_bit 4 b AND 3 \<in> {0, 1, 2, 3 :: u8}"
    by (auto simp: word_unat_eq_iff)
  then show ?thesis by (auto intro: range_eqI [of _ _ CT_CON] range_eqI [of _ _ CT_NON] range_eqI [of _ _ CT_ACK] range_eqI [of _ _ CT_RST])
qed

lemma code_parts:
  fixes c :: u8
  shows "coap_build_code (drop_bit 5 c) (c AND 31) = c" "drop_bit 5 c < 8" "c AND 31 < 32"
proof -
  have m: "(31 :: u8) = mask 5" by (simp add: mask_eq_exp_minus_1)
  show "coap_build_code (drop_bit 5 c) (c AND 31) = c"
    unfolding coap_build_code_def m by (rule bit_word_eqI) (auto simp: bit_simps)
  show "drop_bit 5 c < 8"
  proof -
    have "unat c < 256" using unsigned_less [of c] by simp
    then have "unat c div 32 < 8" by simp
    then show ?thesis by (simp add: word_less_nat_alt drop_bit_eq_div unat_div)
  qed
  show "c AND 31 < 32"
    using word_and_le1 [of c 31] by (rule le_less_trans) simp
qed

text \<open>
  C23. What validation guarantees for any bytes: if \<open>coap_validate_pkt\<close> accepts a packet whose buffer is as large as it says, then all the
  functions that read the header return without leaving the buffer, with values in their ranges: the version is 1, the
  type one of the four, the token at most 8 bytes long and readable, the code made of its class and detail.
\<close>

theorem validated_header:
  assumes "wf_mem pdu" "coap_validate_pkt pdu = Some (CE_NONE, pdu')"
  shows "pdu' = pdu\<lparr>pdu_opt_ptr := NULL\<rparr> \<and> 4 \<le> pdu_len pdu \<and> pdu_len pdu \<le> pdu_max pdu \<and>
     coap_get_version pdu' = Some (cv_val COAP_V1) \<and> (\<exists>t. coap_get_type pdu' = Some (ct_val t)) \<and>
     (\<exists>tkl \<le> 8. coap_get_tkl pdu' = Some tkl) \<and>
     (\<exists>cls detail. cls < 8 \<and> detail < 32 \<and> coap_get_code_class pdu' = Some cls \<and> coap_get_code_detail pdu' = Some detail \<and>
        coap_get_code pdu' = Some (coap_build_code cls detail)) \<and>
     (\<exists>mid. coap_get_mid pdu' = Some mid) \<and> (\<exists>token. coap_get_token pdu' = Some token)"
proof -
  let ?pdu = "pdu\<lparr>pdu_opt_ptr := NULL\<rparr>"
  obtain v tkl where v: "pdu' = ?pdu" "\<not> pdu_len pdu > pdu_max pdu" "\<not> pdu_len pdu < 4"
    "coap_get_version ?pdu = Some v" "v = 1" "coap_get_tkl ?pdu = Some tkl" "\<not> tkl > 8"
    using assms(2)
    by (auto simp: coap_validate_pkt_def Let_def bind_eq_Some_conv split: if_splits)
  obtain b0 b1 b2 b3 bs where buf: "pdu_buf pdu = b0 # b1 # b2 # b3 # bs"
  proof -
    have "4 \<le> length (pdu_buf pdu)" using v(2,3) assms(1) by (simp add: wf_mem_def)
    then show ?thesis using that by (auto simp: numeral_eq_Suc Suc_le_length_iff)
  qed
  have tkl: "tkl = b0 AND 15" using v(6) buf by (simp add: coap_get_tkl_def rd_def)
  have "\<exists>token. coap_get_token ?pdu = Some token"
    using v(2,3,7) assms(1) buf unfolding tkl
    by (auto simp: coap_get_token_def rd_def mem_read_def wf_mem_def word_less_nat_alt Let_def not_less)
  moreover have "\<exists>t. drop_bit 4 b0 AND 3 = ct_val t" using ct_val_range [of b0] by auto
  ultimately show ?thesis
    using v buf code_parts [of b1]
    by (auto simp: coap_get_type_def coap_get_code_def coap_get_code_class_def coap_get_code_detail_def coap_get_mid_def rd_def)
qed

theorem validated_header_witness:
  "(case coap_validate_pkt ex_pdu of
      Some (CE_NONE, pdu') \<Rightarrow> coap_get_version pdu' = Some 1 \<and> (\<exists>tkl \<le> 8. coap_get_tkl pdu' = Some tkl)
    | _ \<Rightarrow> False)"
proof -
  have "wf_mem ex_pdu" using ex_represents(1) by (simp add: represents_def)
  from validated_header [OF this validate_represents [OF ex_represents(1)]] validate_represents [OF ex_represents(1)]
  show ?thesis by simp
qed

text \<open>
  C31. What \<open>coap_decode_option\<close> takes for an option. It reports the end of the packet exactly if it is told that no byte is left, and the
  payload marker exactly if one is left and the byte is 0xFF. It succeeds exactly if a byte is left and the memory from there on, up to the
  end of the array, begins with the encoding of some delta and length; then the number is the previous one plus that delta (modulo
  65536), the length is that length (modulo 65536), and the value pointer is right behind the header. Nothing else depends on the number of
  bytes left: a header that the end of the packet cuts off is completed with whatever follows in the array, and the value may lie behind
  the packet.
\<close>

theorem decode_option_exact:
  "(coap_decode_option buf (Buf q) pkt_len opt = Some (CE_END_OF_PACKET, opt') \<longleftrightarrow> pkt_len = 0 \<and> opt' = opt) \<and>
   (coap_decode_option buf (Buf q) pkt_len opt = Some (CE_FOUND_PAYLOAD_MARKER, opt') \<longleftrightarrow>
      pkt_len \<noteq> 0 \<and> rd buf q = Some 0xFF \<and> opt' = opt) \<and>
   (coap_decode_option buf (Buf q) pkt_len opt = Some (CE_NONE, opt') \<longleftrightarrow>
      pkt_len \<noteq> 0 \<and> (\<exists>pre d l rest. buf = pre @ opt_header d l @ rest \<and> length pre = q \<and> d < ext_limit \<and> l < ext_limit \<and>
        opt' = \<lparr>opt_num = opt_num opt + of_nat d, opt_len = l mod 65536, opt_val = Buf (q + length (opt_header d l))\<rparr>))"
proof (intro conjI iffI)
  assume r: "coap_decode_option buf (Buf q) pkt_len opt = Some (CE_NONE, opt')"
  then show "pkt_len \<noteq> 0" by (auto simp: coap_decode_option_def split: if_splits)
  from r obtain q' d l where h: "Buf q = Buf q'" "d < ext_limit" "l < ext_limit" "q' + length (opt_header d l) \<le> length buf"
    "take (length (opt_header d l)) (drop q' buf) = opt_header d l"
    "opt_num opt' = opt_num opt + of_nat d" "opt_len opt' = l mod 65536" "opt_val opt' = Buf (q' + length (opt_header d l))"
    by (rule decode_option_sound)
  have "buf = take q buf @ opt_header d l @ drop (length (opt_header d l)) (drop q buf)" "length (take q buf) = q"
    using h(1,4,5) append_take_drop_id [of "length (opt_header d l)" "drop q buf"] by simp_all
  moreover have "opt' = \<lparr>opt_num = opt_num opt + of_nat d, opt_len = l mod 65536, opt_val = Buf (q + length (opt_header d l))\<rparr>"
    using h(1,6-8) by (intro coap_option.equality) simp_all
  ultimately show "\<exists>pre d l rest. buf = pre @ opt_header d l @ rest \<and> length pre = q \<and> d < ext_limit \<and> l < ext_limit \<and>
      opt' = \<lparr>opt_num = opt_num opt + of_nat d, opt_len = l mod 65536, opt_val = Buf (q + length (opt_header d l))\<rparr>"
    using h(2,3) by blast
next
  assume "pkt_len \<noteq> 0 \<and> (\<exists>pre d l rest. buf = pre @ opt_header d l @ rest \<and> length pre = q \<and> d < ext_limit \<and> l < ext_limit \<and>
      opt' = \<lparr>opt_num = opt_num opt + of_nat d, opt_len = l mod 65536, opt_val = Buf (q + length (opt_header d l))\<rparr>)"
  then show "coap_decode_option buf (Buf q) pkt_len opt = Some (CE_NONE, opt')"
    using decode_option_header by auto
qed (auto simp: coap_decode_option_def decode_ext_def bind_eq_Some_conv split: if_splits)

section \<open>Limits\<close>

lemma get_payload_loop_skip:
  assumes "wf_opts prev os" "buf = pre @ opts_enc prev os @ rest"
    "length (pre @ opts_enc prev os) \<le> len" "len < size_max"
  shows "get_payload_loop buf len (length pre) = get_payload_loop buf len (length (pre @ opts_enc prev os))"
  using assms
proof (induction os arbitrary: prev pre)
  case (Cons o1 os)
  obtain n v where o1: "o1 = (n, v)" by fastforce
  let ?h = "opt_header (n - prev) (length v)"
  have ne: "sub64 len (length pre) \<noteq> 0" using Cons.prems(3,4) o1 by (simp add: size_simps)
  have "get_payload_loop buf len (length pre) = get_payload_loop buf len (length (pre @ ?h @ v))"
    using Cons.prems(1,2) o1 decode_next_option [OF _ ne, of prev n v os pre rest]
    by (subst get_payload_loop.simps) (simp add: ac_simps)
  also have "\<dots> = get_payload_loop buf len (length ((pre @ ?h @ v) @ opts_enc n os))"
    using Cons.prems o1 by (intro Cons.IH) simp_all
  finally show ?case using o1 by (simp add: ac_simps)
qed simp

lemma wf_opts_positive: "wf_opts prev os \<Longrightarrow> k < length os \<Longrightarrow> 0 < fst (os ! k)"
  by (induction prev os arbitrary: k rule: wf_opts.induct) (auto simp: nth_Cons split: nat.splits)

lemma truncated_header: "rd (pdu_buf (truncated_pdu m)) 0 = Some (hdr_byte (m_type m) (length (m_token m)))"
  by (simp add: truncated_pdu_def encode_msg_def hdr_enc_def rd_def)

text \<open>
  C35. Validation looks at the first option only. Take any message with an option and without
  payload, followed by the byte 0xD0, an option header that announces an extended delta the
  packet does not have: \<open>coap_validate_pkt\<close> accepts the packet, and \<open>coap_get_payload\<close> then reads
  behind the end of the buffer.
\<close>

theorem validate_misses_truncation:
  assumes "wf_msg m" "m_opts m \<noteq> []" "m_payload m = None" "length (encode_msg m) < size_max div 2"
  shows "coap_validate_pkt (truncated_pdu m) = Some (CE_NONE, truncated_pdu m) \<and>
     coap_get_payload (truncated_pdu m) = None"
proof
  let ?pdu = "truncated_pdu m" and ?hl = "length (hdr_enc m)"
  obtain n v os where o1: "m_opts m = (n, v) # os" by (metis assms(2) list.exhaust surj_pair)
  have tkl: "length (m_token m) \<le> 8" "4 + unat (of_nat (length (m_token m)) :: u8) = ?hl"
    using assms(1) by (simp_all add: wf_msg_def unat_of_nat_u8)
  have wf: "wf_opts 0 (m_opts m)" using assms(1) by (simp add: wf_msg_def)
  have buf: "pdu_buf ?pdu = hdr_enc m @ opts_enc 0 (m_opts m) @ [0xD0]"
    and len: "pdu_len ?pdu = length (hdr_enc m @ opts_enc 0 (m_opts m)) + 1"
    using assms(3) by (simp_all add: truncated_pdu_def encode_msg_def)
  have lt: "pdu_len ?pdu < size_max"
    using assms(4) by (simp add: truncated_pdu_def size_max_def)
  have "sub64 (pdu_len ?pdu) ?hl \<noteq> 0" using len lt by (simp add: sub64_eq)
  from decode_next_option [OF wf [unfolded o1] this, of "hdr_enc m" "[0xD0]" "opt_at ?hl"] obtain opt where
    "coap_decode_option (pdu_buf ?pdu) (Buf ?hl) (sub64 (pdu_len ?pdu) ?hl) (opt_at ?hl) = Some (CE_NONE, opt)"
    by (simp add: buf o1)
  moreover have "\<not> (of_nat (length (m_token m)) :: u8) > 8"
    using tkl(1) by (simp add: word_less_nat_alt unat_of_nat_u8)
  moreover have "pdu_len ?pdu = pdu_max ?pdu" "\<not> pdu_len ?pdu < 4" "pdu_opt_ptr ?pdu = NULL"
    by (simp_all add: truncated_pdu_def encode_msg_def)
  moreover have "?pdu\<lparr>pdu_opt_ptr := NULL\<rparr> = ?pdu" by (simp add: truncated_pdu_def)
  ultimately show "coap_validate_pkt ?pdu = Some (CE_NONE, ?pdu)"
    using tkl truncated_header [of m]
    by (simp add: coap_validate_pkt_def coap_get_version_def coap_get_tkl_def hdr_byte_fields Let_def)
  have "get_payload_loop (pdu_buf ?pdu) (pdu_len ?pdu) ?hl = None"
  proof -
    let ?off = "length (hdr_enc m @ opts_enc 0 (m_opts m))"
    have "sub64 (pdu_len ?pdu) ?off \<noteq> 0" using len lt by (simp add: sub64_eq)
    then have "coap_decode_option (pdu_buf ?pdu) (Buf ?off) (sub64 (pdu_len ?pdu) ?off) (opt_at ?off) = None"
      by (simp add: coap_decode_option_def decode_ext_def buf rd_def nth_append)
    then have "get_payload_loop (pdu_buf ?pdu) (pdu_len ?pdu) ?off = None"
      by (subst get_payload_loop.simps) simp
    then show ?thesis
      using get_payload_loop_skip [OF wf buf, of "pdu_len ?pdu"] len lt by simp
  qed
  then show "coap_get_payload ?pdu = None"
    using tkl truncated_header [of m] by (simp add: coap_get_payload_def coap_get_tkl_def hdr_byte_fields)
qed

theorem validate_misses_truncation_witness:
  "coap_validate_pkt (truncated_pdu ex_msg) = Some (CE_NONE, truncated_pdu ex_msg) \<and>
   coap_get_payload (truncated_pdu ex_msg) = None"
  using validate_misses_truncation [of ex_msg]
  by (simp add: ex_msg_def wf_msg_def encode_msg_def size_max_def length_ext_bytes)

text \<open>
  Inserting an option before existing ones damages them: on a message with options 11 and 15,
  adding option 6 reports success, but option 15 is then gone: the code adds the offset to the
  running number of each later option instead of to the first delta only, and 15 reads as 20.
\<close>

lemma add_option_before_others:
  "represents middle_pdu \<lparr>m_type = CT_CON, m_code = 1, m_mid = 0, m_token = [],
     m_opts = [(11, [7]), (15, [8])], m_payload = None\<rparr> \<and>
   (case coap_add_option middle_pdu 6 [9] 1 of
      Some (CE_NONE, pdu') \<Rightarrow>
        represents pdu' \<lparr>m_type = CT_CON, m_code = 1, m_mid = 0, m_token = [],
          m_opts = [(6, [9]), (11, [7]), (20, [8])], m_payload = None\<rparr>
    | _ \<Rightarrow> False)"
  by code_simp

text \<open>
  C37. Setting the payload of a message that already has one overwrites the payload marker: the
  new bytes follow the options directly, so the packet no longer has a payload.
\<close>

theorem set_payload_again_loses_marker:
  assumes "represents pdu m" "m_payload m = Some old" "length (encode_msg m) + length p \<le> pdu_max pdu"
  shows "\<exists>pdu'. coap_set_payload pdu (p @ z) (length p) = Some (CE_NONE, pdu') \<and>
     take (pdu_len pdu') (pdu_buf pdu') = hdr_enc m @ opts_enc 0 (m_opts m) @ p"
proof -
  let ?off = "length (hdr_enc m @ opts_enc 0 (m_opts m))"
  obtain rest where r: "pdu_buf pdu = hdr_enc m @ opts_enc 0 (m_opts m) @ payload_enc (m_payload m) @ rest"
    and l: "pdu_len pdu = length (hdr_enc m @ opts_enc 0 (m_opts m) @ payload_enc (m_payload m))"
    by (rule represents_buf [OF assms(1)])
  have wf: "wf_opts 0 (m_opts m)" and lt: "pdu_len pdu < size_max"
    using assms(1) by (auto simp: represents_def wf_msg_def wf_mem_def)
  have find: "set_payload_find (pdu_buf pdu) (pdu_len pdu) (opt_at (length (hdr_enc m))) =
      Some (CE_FOUND_PAYLOAD_MARKER, ?off)"
    using set_payload_find_walk [OF wf r l lt, of "opt_at (length (hdr_enc m))"] assms(2)
    by (simp add: opt_at_def)
  have room: "pdu_len pdu + length p \<le> length (pdu_buf pdu)" "length (pdu_buf pdu) < size_max"
    using assms(3) represents_len [OF assms(1)] represents_min [OF assms(1)] by simp_all
  then have "mem_write (pdu_buf pdu) ?off p = Some (take ?off (pdu_buf pdu) @ p @ drop (?off + length p) (pdu_buf pdu))"
    using l by (simp add: mem_write_def)
  moreover have "add64 (pdu_len pdu) (length p) = pdu_len pdu + length p" "add64 ?off (length p) = ?off + length p"
    using room l by (simp_all add: add64_eq)
  moreover have "mem_read (p @ z) 0 (length p) = Some p" by (simp add: mem_read_def)
  ultimately show ?thesis
    using find assms(3) represents_len [OF assms(1)] get_tkl_represents [OF assms(1)] r
    by (simp add: coap_set_payload_def)
qed

theorem set_payload_again_loses_marker_witness:
  "\<exists>pdu'. coap_set_payload ex_pdu_payload [65, 66, 67] 2 = Some (CE_NONE, pdu') \<and>
     take (pdu_len pdu') (pdu_buf pdu') = hdr_enc ex_msg @ opts_enc 0 (m_opts ex_msg) @ [65, 66]"
proof -
  have "m_payload ex_msg_payload = Some [49, 50]"
    "length (encode_msg ex_msg_payload) + length [65, 66 :: u8] \<le> pdu_max ex_pdu_payload"
    "hdr_enc ex_msg_payload = hdr_enc ex_msg" "m_opts ex_msg_payload = m_opts ex_msg"
    by code_simp+
  with set_payload_again_loses_marker [OF ex_represents(3), of "[49, 50]" "[65, 66]" "[67]"] show ?thesis
    by (simp flip: numeral_2_eq_2)
qed

end
