(* ===== verification/Exo_Op.thy ===== *)
theory Exo_Op
  imports Prelude
begin

text \<open>
  The operation records of \<^verbatim>\<open>exosite.h\<close> and the functions of \<^verbatim>\<open>exosite.c\<close> an application
  queues, inspects and retires operations with. Strings and value buffers belong to the
  application: a \<open>char *\<close> is NULL or the address of a block of a heap, and every access to a
  block is bounds-checked.
\<close>

section \<open>Data types of exosite.h\<close>

datatype exo_error = EXO_OK | EXO_GENERAL_ERROR | EXO_OUT_OF_SPACE | EXO_FATAL_ERROR_PAL

datatype exo_state =
    EXO_IDLE | EXO_WAITING | EXO_BUSY | EXO_NEW_RESPONSE | EXO_ERROR | EXO_CONNECTION_ERROR
  | EXO_DEVICE_NOT_ENABLED | EXO_DEVICE_DOES_NOT_EXIST

datatype exo_data_format = EXO_STRING | EXO_FLOAT | EXO_INTEGER

datatype exo_device_state =
    EXO_STATE_UNINITIALIZED | EXO_STATE_INITIALIZED | EXO_STATE_GOOD | EXO_STATE_BAD_CIK

datatype exo_request_type = EXO_NULL | EXO_WRITE | EXO_READ | EXO_SUBSCRIBE | EXO_ACTIVATE

datatype exo_request_state =
    EXO_REQUEST_NULL | EXO_REQUEST_NEW | EXO_REQUEST_PENDING | EXO_REQUEST_SUBSCRIBED
  | EXO_REQUEST_SUB_ACK | EXO_REQUEST_SUB_ACK_NEW | EXO_REQUEST_SUCCESS | EXO_REQUEST_ERROR

type_synonym cptr = "nat option"
type_synonym heap = "nat \<rightharpoonup> bytes"

record exo_op =
  op_type :: exo_request_type
  op_state :: exo_request_state
  op_alias :: cptr
  op_value :: cptr
  op_value_max :: nat
  op_mid :: u16
  op_obs_seq :: u32
  op_tkl :: u8
  op_token :: u64
  op_timeout :: u64
  op_retries :: u8


section \<open>The application's memory\<close>

definition hload :: "heap \<Rightarrow> cptr \<Rightarrow> bytes option" where
  "hload h p = Option.bind p h"

definition hstore :: "heap \<Rightarrow> cptr \<Rightarrow> nat \<Rightarrow> bytes \<Rightarrow> heap option" where
  "hstore h p off bs =
     do { a \<leftarrow> p; blk \<leftarrow> h a; blk' \<leftarrow> mem_write blk off bs; Some (h(a \<mapsto> blk')) }"

lemma hstore_Some:
  assumes "h a = Some blk" "off + length bs \<le> length blk"
  shows "hstore h (Some a) off bs = Some (h(a \<mapsto> take off blk @ bs @ drop (off + length bs) blk))"
  using assms by (simp add: hstore_def mem_write_def)

lemma hstore_dom: "hstore h p off bs = Some h' \<Longrightarrow> dom h' = dom h"
  by (auto simp: hstore_def bind_eq_Some_conv split: if_splits)

lemma hstore_block_length:
  "hstore h p off bs = Some h' \<Longrightarrow> map_option length (h' a) = map_option length (h a)"
  by (auto simp: hstore_def bind_eq_Some_conv dest: mem_write_length)


section \<open>Queuing and retiring operations\<close>

definition exo_write :: "cptr \<Rightarrow> cptr \<Rightarrow> exo_op \<Rightarrow> exo_op" where
  "exo_write alias value op =
     op\<lparr>op_type := EXO_WRITE, op_state := EXO_REQUEST_NEW, op_alias := alias, op_value := value,
        op_value_max := 0, op_mid := 0\<rparr>"

definition exo_read :: "cptr \<Rightarrow> cptr \<Rightarrow> nat \<Rightarrow> exo_op \<Rightarrow> exo_op" where
  "exo_read alias value value_max op =
     op\<lparr>op_type := EXO_READ, op_state := EXO_REQUEST_NEW, op_alias := alias, op_value := value,
        op_value_max := value_max, op_mid := 0\<rparr>"

definition exo_subscribe :: "cptr \<Rightarrow> cptr \<Rightarrow> nat \<Rightarrow> exo_op \<Rightarrow> exo_op" where
  "exo_subscribe alias value value_max op =
     op\<lparr>op_type := EXO_SUBSCRIBE, op_state := EXO_REQUEST_NEW, op_alias := alias, op_value := value,
        op_value_max := value_max, op_mid := 0\<rparr>"

definition exo_activate :: "exo_op \<Rightarrow> exo_op" where
  "exo_activate op =
     op\<lparr>op_type := EXO_ACTIVATE, op_state := EXO_REQUEST_NEW, op_alias := None, op_value := None,
        op_value_max := 0, op_mid := 0\<rparr>"

definition exo_op_init :: "exo_op \<Rightarrow> exo_op" where
  "exo_op_init op =
     op\<lparr>op_type := EXO_NULL, op_state := EXO_REQUEST_NULL, op_alias := None, op_value := None,
        op_value_max := 0, op_mid := 0, op_obs_seq := 0, op_tkl := 0, op_token := 0,
        op_timeout := 0, op_retries := 0\<rparr>"

definition exo_is_op_valid :: "exo_op \<Rightarrow> bool" where
  "exo_is_op_valid op \<longleftrightarrow> op_type op \<noteq> EXO_NULL"

definition exo_is_op_success :: "exo_op \<Rightarrow> bool" where
  "exo_is_op_success op \<longleftrightarrow> op_state op = EXO_REQUEST_SUCCESS"

definition exo_is_op_finished :: "exo_op \<Rightarrow> bool" where
  "exo_is_op_finished op \<longleftrightarrow> op_state op = EXO_REQUEST_SUCCESS \<or> op_state op = EXO_REQUEST_ERROR"

definition exo_is_op_read :: "exo_op \<Rightarrow> bool" where
  "exo_is_op_read op \<longleftrightarrow> op_type op = EXO_READ"

definition exo_is_op_subscribe :: "exo_op \<Rightarrow> bool" where
  "exo_is_op_subscribe op \<longleftrightarrow> op_type op = EXO_SUBSCRIBE"

definition exo_is_op_write :: "exo_op \<Rightarrow> bool" where
  "exo_is_op_write op \<longleftrightarrow> op_type op = EXO_WRITE"

definition exo_op_done :: "exo_op \<Rightarrow> exo_op" where
  "exo_op_done op =
     (if exo_is_op_subscribe op then op\<lparr>op_state := EXO_REQUEST_SUBSCRIBED\<rparr> else exo_op_init op)"

text \<open>\<open>exo_do_activate\<close> initialises an operation of its own stack frame and drops it.\<close>

definition exo_do_activate :: "exo_op \<Rightarrow> exo_error" where
  "exo_do_activate stack_op = (let op = exo_op_init stack_op in EXO_OK)"

text \<open>Returns 0 when every character is one of a-f, 0-9, and 1 at the first that is not.\<close>

fun exo_util_is_ascii_hex :: "bytes \<Rightarrow> nat \<Rightarrow> u8 option" where
  "exo_util_is_ascii_hex str 0 = Some 0"
| "exo_util_is_ascii_hex [] (Suc n) = None"
| "exo_util_is_ascii_hex (c # str) (Suc n) =
     (if \<not> ((97 \<le> c \<and> c \<le> 102) \<or> (48 \<le> c \<and> c \<le> 57)) then Some 1
      else exo_util_is_ascii_hex str n)"

lemma is_ascii_hex_correct:
  assumes "n \<le> length str"
  shows "exo_util_is_ascii_hex str n =
     Some (if \<forall>c \<in> set (take n str). c \<in> {97..102} \<union> {48..57} then 0 else 1)"
  using assms by (induction str n rule: exo_util_is_ascii_hex.induct) auto

end
