(* ===== verification/Exo_Msg.thy ===== *)
theory Exo_Msg
  imports Exo_Op Packet_Ops
begin

text \<open>
  The message builders of \<^verbatim>\<open>exosite.c\<close> over the packet functions of picocoap, and the messages
  they are meant to build.
\<close>

section \<open>Library state and builders\<close>

record exo_lib =
  lib_cik :: bytes
  lib_vendor :: cptr
  lib_model :: cptr
  lib_serial :: cptr
  lib_mid :: u16
  lib_device :: exo_device_state

definition CIK_LENGTH :: nat where
  "CIK_LENGTH = 40"

text \<open>
  \<open>ret = f1(pdu); ret |= f2(pdu); ...\<close>: every step runs, whatever the earlier ones returned, and
  the error numbers are or-ed together.
\<close>

fun run_steps :: "('p \<Rightarrow> (coap_error \<times> 'p) option) list \<Rightarrow> u32 \<Rightarrow> 'p \<Rightarrow> (u32 \<times> 'p) option" where
  "run_steps [] ret p = Some (ret, p)"
| "run_steps (f # fs) ret p = Option.bind (f p) (\<lambda>(e, p). run_steps fs (ret OR ce_val e) p)"

text \<open>\<open>coap_add_option(pdu, num, s, strlen(s))\<close>: the length parameter is a uint16_t.\<close>

definition add_str_option ::
  "('p \<Rightarrow> int \<Rightarrow> bytes \<Rightarrow> u16 \<Rightarrow> (coap_error \<times> 'p) option) \<Rightarrow> nat \<Rightarrow> heap \<Rightarrow> cptr \<Rightarrow>
     'p \<Rightarrow> (coap_error \<times> 'p) option" where
  "add_str_option add num h s p =
     do { blk \<leftarrow> hload h s; n \<leftarrow> strlen blk; add p (int num) blk (of_nat n) }"

definition exo_result :: "u32 \<Rightarrow> exo_error" where
  "exo_result ret = (if ret \<noteq> ce_val CE_NONE then EXO_GENERAL_ERROR else EXO_OK)"

definition header_steps :: "coap_type \<Rightarrow> coap_code \<Rightarrow> u16 \<Rightarrow> (coap_pdu \<Rightarrow> (coap_error \<times> coap_pdu) option) list" where
  "header_steps t c mid =
     [\<lambda>p. coap_set_version p (cv_val COAP_V1),
      \<lambda>p. coap_set_type p (ct_val t),
      \<lambda>p. coap_set_code p (cc_val c),
      \<lambda>p. coap_set_mid p mid]"

definition next_mid :: "exo_lib \<Rightarrow> exo_lib" where
  "next_mid lib = lib\<lparr>lib_mid := lib_mid lib + 1\<rparr>"

text \<open>
  The argument \<open>rnd\<close> of the request builders is the value of their call of \<open>rand()\<close>.
\<close>

definition exo_build_msg_activate ::
  "heap \<Rightarrow> exo_lib \<Rightarrow> cptr \<Rightarrow> cptr \<Rightarrow> cptr \<Rightarrow> u64 \<Rightarrow> coap_pdu \<Rightarrow> (exo_error \<times> coap_pdu \<times> exo_lib) option" where
  "exo_build_msg_activate h lib vendor model serial rnd pdu =
     do { (_, pdu) \<leftarrow> coap_init_pdu pdu;
          (ret, pdu) \<leftarrow> run_steps (header_steps CT_CON CC_POST (lib_mid lib) @
            [\<lambda>p. coap_set_token p rnd 2,
             \<lambda>p. coap_add_option p (int (con_val CON_URI_PATH)) (c_literal ''provision'') 9,
             \<lambda>p. coap_add_option p (int (con_val CON_URI_PATH)) (c_literal ''activate'') 8,
             add_str_option coap_add_option (con_val CON_URI_PATH) h vendor,
             add_str_option coap_add_option (con_val CON_URI_PATH) h model,
             add_str_option coap_add_option (con_val CON_URI_PATH) h serial]) 0 pdu;
          Some (exo_result ret, pdu, next_mid lib) }"

definition exo_build_msg_read ::
  "heap \<Rightarrow> exo_lib \<Rightarrow> cptr \<Rightarrow> u64 \<Rightarrow> coap_pdu \<Rightarrow> (exo_error \<times> coap_pdu \<times> exo_lib) option" where
  "exo_build_msg_read h lib alias rnd pdu =
     do { (_, pdu) \<leftarrow> coap_init_pdu pdu;
          (ret, pdu) \<leftarrow> run_steps (header_steps CT_CON CC_GET (lib_mid lib) @
            [\<lambda>p. coap_set_token p rnd 2,
             \<lambda>p. coap_add_option p (int (con_val CON_URI_PATH)) (c_literal ''1a'') 2,
             add_str_option coap_add_option (con_val CON_URI_PATH) h alias,
             \<lambda>p. coap_add_option p (int (con_val CON_URI_QUERY)) (lib_cik lib) 40]) 0 pdu;
          Some (exo_result ret, pdu, next_mid lib) }"

definition exo_build_msg_observe ::
  "heap \<Rightarrow> exo_lib \<Rightarrow> cptr \<Rightarrow> u64 \<Rightarrow> coap_pdu \<Rightarrow> (exo_error \<times> coap_pdu \<times> exo_lib) option" where
  "exo_build_msg_observe h lib alias rnd pdu =
     do { (_, pdu) \<leftarrow> coap_init_pdu pdu;
          (ret, pdu) \<leftarrow> run_steps (header_steps CT_CON CC_GET (lib_mid lib) @
            [\<lambda>p. coap_set_token p rnd 2,
             \<lambda>p. coap_add_option p (int (con_val CON_OBSERVE)) [0] 1,
             \<lambda>p. coap_add_option p (int (con_val CON_URI_PATH)) (c_literal ''1a'') 2,
             add_str_option coap_add_option (con_val CON_URI_PATH) h alias,
             \<lambda>p. coap_add_option p (int (con_val CON_URI_QUERY)) (lib_cik lib) 40]) 0 pdu;
          Some (exo_result ret, pdu, next_mid lib) }"

definition set_str_payload :: "heap \<Rightarrow> cptr \<Rightarrow> coap_pdu \<Rightarrow> (coap_error \<times> coap_pdu) option" where
  "set_str_payload h s p =
     do { blk \<leftarrow> hload h s; n \<leftarrow> strlen blk; coap_set_payload p blk n }"

definition exo_build_msg_write ::
  "heap \<Rightarrow> exo_lib \<Rightarrow> cptr \<Rightarrow> cptr \<Rightarrow> u64 \<Rightarrow> coap_pdu \<Rightarrow> (exo_error \<times> coap_pdu \<times> exo_lib) option" where
  "exo_build_msg_write h lib alias value rnd pdu =
     do { (_, pdu) \<leftarrow> coap_init_pdu pdu;
          (ret, pdu) \<leftarrow> run_steps (header_steps CT_CON CC_POST (lib_mid lib) @
            [\<lambda>p. coap_set_token p rnd 2,
             \<lambda>p. coap_add_option p (int (con_val CON_URI_PATH)) (c_literal ''1a'') 2,
             add_str_option coap_add_option (con_val CON_URI_PATH) h alias,
             \<lambda>p. coap_add_option p (int (con_val CON_URI_QUERY)) (lib_cik lib) 40,
             set_str_payload h value]) 0 pdu;
          Some (exo_result ret, pdu, next_mid lib) }"

definition exo_build_msg_rst :: "u16 \<Rightarrow> u64 \<Rightarrow> u8 \<Rightarrow> coap_pdu \<Rightarrow> (exo_error \<times> coap_pdu) option" where
  "exo_build_msg_rst mid token tkl pdu =
     do { (_, pdu) \<leftarrow> coap_init_pdu pdu;
          (ret, pdu) \<leftarrow> run_steps (header_steps CT_RST CC_EMPTY mid @
            [\<lambda>p. coap_set_token p token tkl]) 0 pdu;
          Some (exo_result ret, pdu) }"

definition exo_build_msg_ack :: "u16 \<Rightarrow> coap_pdu \<Rightarrow> (exo_error \<times> coap_pdu) option" where
  "exo_build_msg_ack mid pdu =
     do { (_, pdu) \<leftarrow> coap_init_pdu pdu;
          (ret, pdu) \<leftarrow> run_steps (header_steps CT_ACK CC_EMPTY mid) 0 pdu;
          Some (exo_result ret, pdu) }"


section \<open>Sequences of steps\<close>

lemma ce_val_eq_0_iff [simp]: "ce_val e = 0 \<longleftrightarrow> e = CE_NONE"
  by (cases e) simp_all

lemma run_steps_append:
  "run_steps (fs @ gs) ret p = Option.bind (run_steps fs ret p) (\<lambda>(ret, p). run_steps gs ret p)"
proof (induction fs arbitrary: ret p)
  case (Cons f fs)
  then show ?case by (cases "f p") auto
qed simp

lemma or_eq_0_iff: "(a :: u32) OR b = 0 \<longleftrightarrow> a = 0 \<and> b = 0"
  by (auto simp: bit_eq_iff bit_or_iff)

text \<open>An error of any step shows in the result of the builder.\<close>

lemma run_steps_ret:
  "run_steps fs ret p = Some (ret', p') \<Longrightarrow> ret \<noteq> 0 \<Longrightarrow> ret' \<noteq> 0"
  by (induction fs ret p rule: run_steps.induct) (auto simp: bind_eq_Some_conv or_eq_0_iff)

lemma run_steps_deliver:
  assumes "delivers rep cap p (f p) m'"
    and "\<And>p'. rep p' m' \<Longrightarrow> cap p' = cap p \<Longrightarrow>
           \<exists>q. run_steps fs ret p' = Some (ret, q) \<and> rep q m \<and> cap q = cap p'"
  shows "\<exists>q. run_steps (f # fs) ret p = Some (ret, q) \<and> rep q m \<and> cap q = cap p"
  using assms(1)
proof (rule deliversE)
  fix p' assume "f p = Some (CE_NONE, p')" "rep p' m'" "cap p' = cap p"
  with assms(2) [of p'] show ?thesis by simp
qed

text \<open>What the steps do to a packet, proved from the contract alone.\<close>

context packet_ops
begin

lemma header_ok:
  assumes "rep p m" "length (encode_msg (m\<lparr>m_token := bytes_le n tok\<rparr>)) \<le> cap p" "n \<le> 8"
  shows "\<exists>q. run_steps [\<lambda>p. set_version p 1, \<lambda>p. set_type p (ct_val t), \<lambda>p. set_code p c,
      \<lambda>p. set_mid p i, \<lambda>p. set_token p tok (of_nat n)] ret p = Some (ret, q) \<and>
    rep q (m\<lparr>m_type := t, m_code := c, m_mid := i, m_token := bytes_le n tok\<rparr>) \<and> cap q = cap p"
  by (rule run_steps_deliver, rule version_law, rule assms(1),
      rule run_steps_deliver, rule type_law, assumption,
      rule run_steps_deliver, rule code_law, assumption,
      rule run_steps_deliver, rule mid_law, assumption,
      rule run_steps_deliver, rule token_law, assumption)
    (use assms(2,3) in \<open>simp_all add: encode_msg_def hdr_enc_def\<close>)

lemma add_options_ok:
  assumes "rep p m" "m_payload m = None" "wf_opts (last_num 0 (m_opts m)) (map (\<lambda>(n, v, z). (n, v)) os)"
    "length (encode_msg (with_opts m (map (\<lambda>(n, v, z). (n, v)) os))) \<le> cap p"
  shows "\<exists>q. run_steps (map (\<lambda>(n, v, z) p. add_option p (int n) (v @ z) (of_nat (length v))) os) ret p =
      Some (ret, q) \<and> rep q (with_opts m (map (\<lambda>(n, v, z). (n, v)) os)) \<and> cap q = cap p"
  using assms
proof (induction os arbitrary: m p)
  case Nil
  then show ?case by simp
next
  case (Cons o1 os)
  obtain n v z where o1: "o1 = (n, v, z)" by (cases o1)
  let ?m = "with_opt m n v"
  have app: "can_append m n v"
    using Cons.prems(2,3) o1 by (simp add: can_append_def)
  have fits: "length (encode_msg ?m) \<le> cap p"
    using Cons.prems(2,4) o1 length_encode_mono [of ?m "map (\<lambda>(n, v, z). (n, v)) os"]
    by (simp add: with_opts_Cons)
  show ?case
    unfolding o1 list.map prod.case with_opts_Cons
    by (rule run_steps_deliver, rule option_law [OF Cons.prems(1) app fits], rule Cons.IH)
      (use Cons.prems(2-4) o1 in \<open>simp_all add: with_opts_Cons\<close>)
qed

end


section \<open>The messages the builders are for\<close>

definition str_at :: "heap \<Rightarrow> cptr \<Rightarrow> bytes \<Rightarrow> bool" where
  "str_at h p s \<longleftrightarrow> Option.bind (hload h p) cstr = Some s"

definition request :: "coap_code \<Rightarrow> u16 \<Rightarrow> u64 \<Rightarrow> (nat \<times> bytes) list \<Rightarrow> coap_msg" where
  "request c mid rnd os =
     \<lparr>m_type = CT_CON, m_code = cc_val c, m_mid = mid, m_token = bytes_le 2 rnd, m_opts = os,
      m_payload = None\<rparr>"

definition alias_opts :: "bytes \<Rightarrow> bytes \<Rightarrow> (nat \<times> bytes) list" where
  "alias_opts alias cik =
     [(con_val CON_URI_PATH, str_bytes ''1a''), (con_val CON_URI_PATH, alias),
      (con_val CON_URI_QUERY, take CIK_LENGTH cik)]"

definition read_msg :: "u16 \<Rightarrow> u64 \<Rightarrow> bytes \<Rightarrow> bytes \<Rightarrow> coap_msg" where
  "read_msg mid rnd cik alias = request CC_GET mid rnd (alias_opts alias cik)"

definition observe_msg :: "u16 \<Rightarrow> u64 \<Rightarrow> bytes \<Rightarrow> bytes \<Rightarrow> coap_msg" where
  "observe_msg mid rnd cik alias =
     request CC_GET mid rnd ((con_val CON_OBSERVE, [0]) # alias_opts alias cik)"

definition write_msg :: "u16 \<Rightarrow> u64 \<Rightarrow> bytes \<Rightarrow> bytes \<Rightarrow> bytes \<Rightarrow> coap_msg" where
  "write_msg mid rnd cik alias value =
     with_payload (request CC_POST mid rnd (alias_opts alias cik)) value"

definition activate_msg :: "u16 \<Rightarrow> u64 \<Rightarrow> bytes \<Rightarrow> bytes \<Rightarrow> bytes \<Rightarrow> coap_msg" where
  "activate_msg mid rnd vendor model serial =
     request CC_POST mid rnd
       (map (\<lambda>s. (con_val CON_URI_PATH, s)) [str_bytes ''provision'', str_bytes ''activate'', vendor, model, serial])"

definition empty_msg :: "coap_type \<Rightarrow> u16 \<Rightarrow> bytes \<Rightarrow> coap_msg" where
  "empty_msg t mid tok =
     \<lparr>m_type = t, m_code = cc_val CC_EMPTY, m_mid = mid, m_token = tok, m_opts = [], m_payload = None\<rparr>"

lemma add_str_option_eq:
  assumes "str_at h s str"
  shows "\<exists>z. add_str_option add n h s = (\<lambda>p. add p (int n) (str @ z) (of_nat (length str)))"
proof -
  obtain blk where blk: "hload h s = Some blk" "cstr blk = Some str"
    using assms by (auto simp: str_at_def bind_eq_Some_conv)
  then have "blk = str @ drop (length str) blk"
    using cstr_prefix(2) [OF blk(2)] by (metis append_take_drop_id)
  with blk show ?thesis
    by (intro exI [of _ "drop (length str) blk"]) (simp add: add_str_option_def strlen_def fun_eq_iff)
qed

lemma set_str_payload_eq:
  assumes "str_at h s str"
  shows "\<exists>z. set_str_payload h s = (\<lambda>p. coap_set_payload p (str @ z) (length str))"
proof -
  obtain blk where blk: "hload h s = Some blk" "cstr blk = Some str"
    using assms by (auto simp: str_at_def bind_eq_Some_conv)
  then have "blk = str @ drop (length str) blk"
    using cstr_prefix(2) [OF blk(2)] by (metis append_take_drop_id)
  with blk show ?thesis
    by (intro exI [of _ "drop (length str) blk"]) (simp add: set_str_payload_def strlen_def fun_eq_iff)
qed

lemma build_header:
  assumes "wf_mem pdu" "4 + n \<le> pdu_max pdu" "n \<le> 8"
  shows "\<exists>p q. coap_init_pdu pdu = Some (CE_NONE, p) \<and>
     run_steps (header_steps t c mid @ [\<lambda>p. coap_set_token p tok (of_nat n)]) 0 p = Some (0, q) \<and>
     represents q \<lparr>m_type = t, m_code = cc_val c, m_mid = mid, m_token = bytes_le n tok, m_opts = [],
                   m_payload = None\<rparr> \<and> pdu_max q = pdu_max pdu"
proof -
  obtain p where p: "coap_init_pdu pdu = Some (CE_NONE, p)" "represents p ping_msg" "pdu_max p = pdu_max pdu"
    using init_pdu_represents [OF assms(1)] assms(2) by (auto elim: deliversE)
  have "length (encode_msg (ping_msg\<lparr>m_token := bytes_le n tok\<rparr>)) \<le> pdu_max p"
    using assms(2) p(3) by (simp add: encode_msg_def ping_msg_def)
  from pk.header_ok [OF p(2) this assms(3), of t "cc_val c" mid 0] p show ?thesis
    by (simp add: header_steps_def ping_msg_def)
qed

lemma build_request:
  assumes m_def: "m = request c mid rnd (map (\<lambda>(n, v, z). (n, v)) os)"
    and "wf_mem pdu" "wf_opts 0 (map (\<lambda>(n, v, z). (n, v)) os)" "length (encode_msg m) \<le> pdu_max pdu"
  shows "\<exists>p q. coap_init_pdu pdu = Some (CE_NONE, p) \<and>
     run_steps (header_steps CT_CON c mid @ (\<lambda>p. coap_set_token p rnd 2) #
       map (\<lambda>(n, v, z) p. coap_add_option p (int n) (v @ z) (of_nat (length v))) os) 0 p = Some (0, q) \<and>
     represents q m \<and> pdu_max q = pdu_max pdu"
proof -
  have "4 + 2 \<le> pdu_max pdu"
    using assms(4) by (simp add: encode_msg_def m_def request_def)
  from build_header [OF assms(2) this, of CT_CON c mid rnd] obtain p q where
    q: "coap_init_pdu pdu = Some (CE_NONE, p)"
      "run_steps (header_steps CT_CON c mid @ [\<lambda>p. coap_set_token p rnd 2]) 0 p = Some (0, q)"
      "represents q (request c mid rnd [])" "pdu_max q = pdu_max pdu"
    by (auto simp: request_def)
  have m: "m = with_opts (request c mid rnd []) (map (\<lambda>(n, v, z). (n, v)) os)"
    by (simp add: m_def request_def with_opts_def)
  obtain q' where
    "run_steps (map (\<lambda>(n, v, z) p. coap_add_option p (int n) (v @ z) (of_nat (length v))) os) 0 q = Some (0, q')"
    "represents q' m" "pdu_max q' = pdu_max pdu"
    using pk.add_options_ok [OF q(3), of os 0] assms(3,4) q(4) unfolding m
    by (auto simp: request_def)
  moreover have "run_steps ((header_steps CT_CON c mid @ [\<lambda>p. coap_set_token p rnd 2]) @
      map (\<lambda>(n, v, z) p. coap_add_option p (int n) (v @ z) (of_nat (length v))) os) 0 p = Some (0, q')"
    unfolding run_steps_append [of "header_steps CT_CON c mid @ _"] q(2) using calculation(1) by simp
  ultimately show ?thesis
    using q(1) by auto
qed


section \<open>The builders are correct\<close>

lemma request_length:
  "length (encode_msg (request c mid rnd os)) = 6 + length (opts_enc 0 os)"
  by (simp add: encode_msg_def request_def)

lemma length_opts_enc_le:
  "length (opts_enc prev os) \<le> 5 * length os + sum_list (map (length \<circ> snd) os)"
proof (induction prev os rule: opts_enc.induct)
  case (2 prev n v os)
  then show ?case
    using length_ext_bytes [of "n - prev"] length_ext_bytes [of "length v"] by (simp split: if_splits)
qed simp

lemma literal_1a: "c_literal ''1a'' = str_bytes ''1a'' @ [0]" "2 = (of_nat (length (str_bytes ''1a'')) :: u16)"
  by (simp_all add: c_literal_def str_bytes_def)

lemma cik_split:
  assumes "CIK_LENGTH \<le> length cik"
  shows "cik = take CIK_LENGTH cik @ drop CIK_LENGTH cik" "40 = (of_nat (length (take CIK_LENGTH cik)) :: u16)"
  using assms by (simp_all add: CIK_LENGTH_def)

lemma wf_alias_opts:
  assumes "length alias < 65536" "n \<le> con_val CON_URI_PATH"
  shows "wf_opts n (alias_opts alias cik)"
  using assms by (simp add: alias_opts_def str_bytes_def CIK_LENGTH_def)

lemma build_msg_read_correct:
  assumes "wf_mem pdu" "CIK_LENGTH \<le> length (lib_cik lib)" "str_at h alias str" "length str < 65536"
    "length (encode_msg (read_msg (lib_mid lib) rnd (lib_cik lib) str)) \<le> pdu_max pdu"
  shows "\<exists>q. exo_build_msg_read h lib alias rnd pdu = Some (EXO_OK, q, next_mid lib) \<and>
     represents q (read_msg (lib_mid lib) rnd (lib_cik lib) str) \<and> pdu_max q = pdu_max pdu"
proof -
  obtain z where z: "add_str_option coap_add_option (con_val CON_URI_PATH) h alias =
      (\<lambda>p. coap_add_option p (int (con_val CON_URI_PATH)) (str @ z) (of_nat (length str)))"
    using add_str_option_eq [OF assms(3)] by blast
  let ?os = "[(con_val CON_URI_PATH, str_bytes ''1a'', [0]), (con_val CON_URI_PATH, str, z),
      (con_val CON_URI_QUERY, take CIK_LENGTH (lib_cik lib), drop CIK_LENGTH (lib_cik lib))]"
  have os: "map (\<lambda>(n, v, z). (n, v)) ?os = alias_opts str (lib_cik lib)"
    by (simp add: alias_opts_def)
  note wf = wf_alias_opts [OF assms(4), of 0, simplified]
  from build_request [where os = ?os, unfolded os, OF refl assms(1) wf
      assms(5) [unfolded read_msg_def]] show ?thesis
    unfolding exo_build_msg_read_def z literal_1a
    by (subst cik_split(1) [OF assms(2)], subst cik_split(2) [OF assms(2)])
      (auto simp: exo_result_def read_msg_def simp del: con_val.simps)
qed


lemma build_msg_observe_correct:
  assumes "wf_mem pdu" "CIK_LENGTH \<le> length (lib_cik lib)" "str_at h alias str" "length str < 65536"
    "length (encode_msg (observe_msg (lib_mid lib) rnd (lib_cik lib) str)) \<le> pdu_max pdu"
  shows "\<exists>q. exo_build_msg_observe h lib alias rnd pdu = Some (EXO_OK, q, next_mid lib) \<and>
     represents q (observe_msg (lib_mid lib) rnd (lib_cik lib) str) \<and> pdu_max q = pdu_max pdu"
proof -
  obtain z where z: "add_str_option coap_add_option (con_val CON_URI_PATH) h alias =
      (\<lambda>p. coap_add_option p (int (con_val CON_URI_PATH)) (str @ z) (of_nat (length str)))"
    using add_str_option_eq [OF assms(3)] by blast
  let ?os = "[(con_val CON_OBSERVE, [0], []), (con_val CON_URI_PATH, str_bytes ''1a'', [0]),
      (con_val CON_URI_PATH, str, z),
      (con_val CON_URI_QUERY, take CIK_LENGTH (lib_cik lib), drop CIK_LENGTH (lib_cik lib))]"
  have os: "map (\<lambda>(n, v, z). (n, v)) ?os = (con_val CON_OBSERVE, [0]) # alias_opts str (lib_cik lib)"
    by (simp add: alias_opts_def)
  have wf: "wf_opts 0 ((con_val CON_OBSERVE, [0]) # alias_opts str (lib_cik lib))"
    using wf_alias_opts [OF assms(4)] by simp
  from build_request [where os = ?os, unfolded os, OF refl assms(1) wf
      assms(5) [unfolded observe_msg_def]] show ?thesis
    unfolding exo_build_msg_observe_def z literal_1a
    by (subst cik_split(1) [OF assms(2)], subst cik_split(2) [OF assms(2)])
      (auto simp: exo_result_def observe_msg_def simp del: con_val.simps)
qed

lemma literals_activate:
  "c_literal ''provision'' = str_bytes ''provision'' @ [0]" "c_literal ''activate'' = str_bytes ''activate'' @ [0]"
  "9 = (of_nat (length (str_bytes ''provision'')) :: u16)" "8 = (of_nat (length (str_bytes ''activate'')) :: u16)"
  by (simp_all add: c_literal_def str_bytes_def)

lemma build_msg_activate_correct:
  assumes "wf_mem pdu" "str_at h v vs" "str_at h m ms" "str_at h sn ss"
    "length vs < 65536" "length ms < 65536" "length ss < 65536"
    "length (encode_msg (activate_msg (lib_mid lib) rnd vs ms ss)) \<le> pdu_max pdu"
  shows "\<exists>q. exo_build_msg_activate h lib v m sn rnd pdu = Some (EXO_OK, q, next_mid lib) \<and>
     represents q (activate_msg (lib_mid lib) rnd vs ms ss) \<and> pdu_max q = pdu_max pdu"
proof -
  obtain z1 z2 z3 where z:
    "add_str_option coap_add_option (con_val CON_URI_PATH) h v =
      (\<lambda>p. coap_add_option p (int (con_val CON_URI_PATH)) (vs @ z1) (of_nat (length vs)))"
    "add_str_option coap_add_option (con_val CON_URI_PATH) h m =
      (\<lambda>p. coap_add_option p (int (con_val CON_URI_PATH)) (ms @ z2) (of_nat (length ms)))"
    "add_str_option coap_add_option (con_val CON_URI_PATH) h sn =
      (\<lambda>p. coap_add_option p (int (con_val CON_URI_PATH)) (ss @ z3) (of_nat (length ss)))"
    using assms(2-4) [THEN add_str_option_eq] by metis
  let ?os = "map (\<lambda>(s, z). (con_val CON_URI_PATH, s, z)) [(str_bytes ''provision'', [0]),
      (str_bytes ''activate'', [0]), (vs, z1), (ms, z2), (ss, z3)]"
  let ?segs = "[str_bytes ''provision'', str_bytes ''activate'', vs, ms, ss]"
  have os: "map (\<lambda>(n, v, z). (n, v)) ?os = map (\<lambda>s. (con_val CON_URI_PATH, s)) ?segs"
    by simp
  have wf: "wf_opts 0 (map (\<lambda>s. (con_val CON_URI_PATH, s)) ?segs)"
    using assms(5-7) by (simp add: str_bytes_def)
  from build_request [where os = ?os, unfolded os, OF refl assms(1) wf
      assms(8) [unfolded activate_msg_def]] show ?thesis
    unfolding exo_build_msg_activate_def z literals_activate
    by (auto simp: exo_result_def activate_msg_def simp del: con_val.simps)
qed

lemma build_msg_write_split:
  assumes "wf_mem pdu" "CIK_LENGTH \<le> length (lib_cik lib)" "str_at h alias str" "length str < 65536"
    "str_at h value vs" and r: "r = request CC_POST (lib_mid lib) rnd (alias_opts str (lib_cik lib))"
    and fits: "length (encode_msg r) \<le> pdu_max pdu"
  obtains q y where "represents q r" "pdu_max q = pdu_max pdu"
    "exo_build_msg_write h lib alias value rnd pdu =
       Option.bind (coap_set_payload q (vs @ y) (length vs))
         (\<lambda>(e, q'). Some (exo_result (ce_val e), q', next_mid lib))"
proof -
  obtain z where z: "add_str_option coap_add_option (con_val CON_URI_PATH) h alias =
      (\<lambda>p. coap_add_option p (int (con_val CON_URI_PATH)) (str @ z) (of_nat (length str)))"
    using add_str_option_eq [OF assms(3)] by blast
  obtain y where y: "set_str_payload h value = (\<lambda>p. coap_set_payload p (vs @ y) (length vs))"
    using set_str_payload_eq [OF assms(5)] by blast
  let ?os = "[(con_val CON_URI_PATH, str_bytes ''1a'', [0]), (con_val CON_URI_PATH, str, z),
      (con_val CON_URI_QUERY, take CIK_LENGTH (lib_cik lib), drop CIK_LENGTH (lib_cik lib))]"
  let ?steps = "header_steps CT_CON CC_POST (lib_mid lib) @ (\<lambda>p. coap_set_token p rnd 2) #
       map (\<lambda>(n, v, z) p. coap_add_option p (int n) (v @ z) (of_nat (length v))) ?os"
  have os: "map (\<lambda>(n, v, z). (n, v)) ?os = alias_opts str (lib_cik lib)"
    by (simp add: alias_opts_def)
  obtain p q where q: "coap_init_pdu pdu = Some (CE_NONE, p)" "run_steps ?steps 0 p = Some (0, q)"
    "represents q r" "pdu_max q = pdu_max pdu"
    using build_request [where os = ?os, unfolded os, OF r assms(1)
        wf_alias_opts [OF assms(4), of 0, simplified] fits] by blast
  have run: "run_steps (?steps @ [\<lambda>p. coap_set_payload p (vs @ y) (length vs)]) 0 p =
      Option.bind (coap_set_payload q (vs @ y) (length vs)) (\<lambda>(e, q'). Some (ce_val e, q'))"
    unfolding run_steps_append [of ?steps] q(2) by (cases "coap_set_payload q (vs @ y) (length vs)") auto
  show thesis
  proof (rule that [OF q(3,4)])
    show "exo_build_msg_write h lib alias value rnd pdu =
       Option.bind (coap_set_payload q (vs @ y) (length vs))
         (\<lambda>(e, q'). Some (exo_result (ce_val e), q', next_mid lib))"
      unfolding exo_build_msg_write_def z y literal_1a
      by (subst cik_split(1) [OF assms(2)], subst cik_split(2) [OF assms(2)])
        (use q(1) run in \<open>cases "coap_set_payload q (vs @ y) (length vs)", auto simp del: con_val.simps\<close>)
  qed
qed

lemma build_msg_write_correct:
  assumes "wf_mem pdu" "CIK_LENGTH \<le> length (lib_cik lib)" "str_at h alias str" "length str < 65536"
    "str_at h value vs"
    "length (encode_msg (write_msg (lib_mid lib) rnd (lib_cik lib) str vs)) \<le> pdu_max pdu"
  shows "\<exists>q. exo_build_msg_write h lib alias value rnd pdu = Some (EXO_OK, q, next_mid lib) \<and>
     represents q (write_msg (lib_mid lib) rnd (lib_cik lib) str vs) \<and> pdu_max q = pdu_max pdu"
proof -
  let ?r = "request CC_POST (lib_mid lib) rnd (alias_opts str (lib_cik lib))"
  have none: "m_payload ?r = None" by (simp add: request_def)
  have "length (encode_msg ?r) \<le> pdu_max pdu"
    using assms(6) by (simp add: write_msg_def encode_with_payload [OF none])
  from build_msg_write_split [OF assms(1-5) refl this] obtain q y where q: "represents q ?r" "pdu_max q = pdu_max pdu"
    "exo_build_msg_write h lib alias value rnd pdu =
       Option.bind (coap_set_payload q (vs @ y) (length vs))
         (\<lambda>(e, q'). Some (exo_result (ce_val e), q', next_mid lib))" .
  with pk.payload_law [OF q(1) none, of vs y] assms(6) show ?thesis
    by (auto simp: write_msg_def exo_result_def elim!: deliversE)
qed

text \<open>A value that does not fit is left out of the request, and only the result code tells.\<close>

lemma build_msg_write_oversize:
  assumes "wf_mem pdu" "CIK_LENGTH \<le> length (lib_cik lib)" "str_at h alias str" "length str < 65536"
    "str_at h value vs" "length vs < size_max div 2"
    and r: "r = request CC_POST (lib_mid lib) rnd (alias_opts str (lib_cik lib))"
    and fits: "length (encode_msg r) \<le> pdu_max pdu" "pdu_max pdu < length (encode_msg (with_payload r vs))"
  shows "\<exists>q. exo_build_msg_write h lib alias value rnd pdu = Some (EXO_GENERAL_ERROR, q, next_mid lib) \<and>
     represents q r \<and> pdu_max q = pdu_max pdu"
proof -
  obtain q y where q: "represents q r" "pdu_max q = pdu_max pdu"
    "exo_build_msg_write h lib alias value rnd pdu =
       Option.bind (coap_set_payload q (vs @ y) (length vs))
         (\<lambda>(e, q'). Some (exo_result (ce_val e), q', next_mid lib))"
    using build_msg_write_split [OF assms(1-5) r fits(1)] .
  have "coap_set_payload q (vs @ y) (length vs) = Some (CE_INSUFFICIENT_BUFFER, q)"
    using pk.payload_full_law [OF q(1) _ assms(6)] fits(2) q(2) by (simp add: r request_def)
  with q show ?thesis by (simp add: exo_result_def)
qed

lemma build_msg_rst_correct:
  assumes "wf_mem pdu" "n \<le> 8" "4 + n \<le> pdu_max pdu"
  shows "\<exists>q. exo_build_msg_rst mid tok (of_nat n) pdu = Some (EXO_OK, q) \<and>
     represents q (empty_msg CT_RST mid (bytes_le n tok)) \<and> pdu_max q = pdu_max pdu"
  using build_header [OF assms(1,3,2), of CT_RST CC_EMPTY mid tok]
  by (auto simp: exo_build_msg_rst_def exo_result_def empty_msg_def)

lemma build_msg_ack_correct:
  assumes "wf_mem pdu" "4 \<le> pdu_max pdu"
  shows "\<exists>q. exo_build_msg_ack mid pdu = Some (EXO_OK, q) \<and>
     represents q (empty_msg CT_ACK mid []) \<and> pdu_max q = pdu_max pdu"
proof -
  obtain p where p: "coap_init_pdu pdu = Some (CE_NONE, p)" "represents p ping_msg" "pdu_max p = pdu_max pdu"
    using init_pdu_represents [OF assms] by (auto elim: deliversE)
  have "\<exists>q. run_steps (header_steps CT_ACK CC_EMPTY mid) 0 p = Some (0, q) \<and>
      represents q (ping_msg\<lparr>m_type := CT_ACK, m_code := cc_val CC_EMPTY, m_mid := mid\<rparr>) \<and>
      pdu_max q = pdu_max p"
    unfolding header_steps_def cv_val.simps
    by (rule run_steps_deliver, rule pk.version_law, rule p(2),
        rule run_steps_deliver, rule pk.type_law, assumption,
        rule run_steps_deliver, rule pk.code_law, assumption,
        rule run_steps_deliver, rule pk.mid_law, assumption) simp
  with p show ?thesis
    by (auto simp: exo_build_msg_ack_def exo_result_def empty_msg_def ping_msg_def)
qed

end
