(* ===== verification/Exo_Pal.thy ===== *)
theory Exo_Pal
  imports Exo_Msg
begin

text \<open>
  The platform adaptation layer: the interface \<^verbatim>\<open>exosite_pal.h\<close> as a record of operations on a
  world of type \<open>'w\<close>, and its two implementations, \<^verbatim>\<open>pal/posix\<close> over the calls of a POSIX
  system and the stubs of \<^verbatim>\<open>pal/template\<close>. The system calls, \<open>rand\<close> and the contents of an
  uninitialised stack array are parameters.
\<close>

section \<open>The interface\<close>

text \<open>
  \<open>exopal_udp_recv\<close> gets the buffer, its size and the old value of \<open>*rlen\<close>, and returns the
  code, the buffer and the new value of \<open>*rlen\<close>. \<open>exopal_retrieve_cik\<close> gets and returns the array it
  fills. \<open>libc_srand\<close> is \<open>srand(time(NULL))\<close> and \<open>libc_rand\<close> is \<open>rand()\<close>, in the same world, and \<open>stack_bytes\<close> is what an
  uninitialised array of 576 bytes holds.
\<close>

record 'w plat =
  exopal_init :: "'w \<Rightarrow> u8 \<times> 'w"
  exopal_store_cik :: "bytes \<Rightarrow> 'w \<Rightarrow> u8 \<times> 'w"
  exopal_retrieve_cik :: "bytes \<Rightarrow> 'w \<Rightarrow> u8 \<times> bytes \<times> 'w"
  exopal_udp_sock :: "'w \<Rightarrow> u8 \<times> 'w"
  exopal_udp_send :: "bytes \<Rightarrow> 'w \<Rightarrow> u8 \<times> 'w"
  exopal_udp_recv :: "bytes \<Rightarrow> nat \<Rightarrow> nat \<Rightarrow> 'w \<Rightarrow> u8 \<times> bytes \<times> nat \<times> 'w"
  exopal_get_time :: "'w \<Rightarrow> u64 \<times> 'w"
  exopal_set_time :: "u64 \<Rightarrow> 'w \<Rightarrow> 'w"
  libc_srand :: "'w \<Rightarrow> 'w"
  libc_rand :: "'w \<Rightarrow> nat \<times> 'w"
  stack_bytes :: "'w \<Rightarrow> bytes"

definition MINIMUM_DATAGRAM_SIZE :: nat where
  "MINIMUM_DATAGRAM_SIZE = 576"

text \<open>
  What the library relies on: a receive call that succeeds stays inside the buffer and reports
  how much of it it filled, and a stack array has the size it was declared with.
\<close>

locale pal =
  fixes P :: "'w plat"
  assumes recv_law: "exopal_udp_recv P buf (length buf) rlen w = (0, buf', rlen', w') \<Longrightarrow>
      length buf' = length buf \<and> rlen' \<le> length buf"
    and stack_law: "length (stack_bytes P w) = MINIMUM_DATAGRAM_SIZE"


section \<open>pal/posix\<close>

text \<open>
  The system calls. \<open>sys_recv\<close> returns the count (negative on error) and the bytes it received;
  \<open>sys_getaddrinfo\<close> the error code and the list of addresses; the stream calls on the file
  \<^verbatim>\<open>cik\<close> whether it could be opened, and how many bytes were written or read.
\<close>

record ('a, 'w) posix =
  sys_getaddrinfo :: "string \<Rightarrow> string \<Rightarrow> 'w \<Rightarrow> int \<times> 'a list \<times> 'w"
  sys_socket :: "'a \<Rightarrow> 'w \<Rightarrow> int \<times> 'w"
  sys_fcntl :: "int \<Rightarrow> 'w \<Rightarrow> 'w"
  sys_connect :: "int \<Rightarrow> 'a \<Rightarrow> 'w \<Rightarrow> int \<times> 'w"
  sys_send :: "int \<Rightarrow> bytes \<Rightarrow> 'w \<Rightarrow> int \<times> 'w"
  sys_recv :: "int \<Rightarrow> nat \<Rightarrow> 'w \<Rightarrow> int \<times> bytes \<times> 'w"
  sys_errno :: "'w \<Rightarrow> int"
  sys_fopen :: "string \<Rightarrow> string \<Rightarrow> 'w \<Rightarrow> bool \<times> 'w"
  sys_fwrite :: "bytes \<Rightarrow> 'w \<Rightarrow> nat \<times> 'w"
  sys_fread :: "nat \<Rightarrow> 'w \<Rightarrow> nat \<times> bytes \<times> 'w"
  sys_fclose :: "'w \<Rightarrow> 'w"
  sys_gettimeofday :: "'w \<Rightarrow> nat \<times> nat \<times> 'w"
  sys_srand :: "'w \<Rightarrow> 'w"
  sys_rand :: "'w \<Rightarrow> nat \<times> 'w"
  sys_stack :: "'w \<Rightarrow> bytes"

definition EAGAIN :: int where
  "EAGAIN = 11"

record 'w pal_state =
  exosock :: int
  sys :: 'w

definition exosite_pal_host :: string where
  "exosite_pal_host = ''coap.exosite.com''"

definition exosite_pal_port :: string where
  "exosite_pal_port = ''5683''"

text \<open>The loop over the addresses: the first one a socket can be made for.\<close>

fun posix_sock_loop :: "('a, 'w) posix \<Rightarrow> 'a list \<Rightarrow> 'w pal_state \<Rightarrow> 'a option \<times> 'w pal_state" where
  "posix_sock_loop os [] s = (None, s)"
| "posix_sock_loop os (q # qs) s =
     (let (fd, w) = sys_socket os q (sys s); s = s\<lparr>exosock := fd, sys := w\<rparr> in
      if fd = -1 then posix_sock_loop os qs s
      else (Some q, s\<lparr>sys := sys_fcntl os fd (sys s)\<rparr>))"

definition posix_udp_sock :: "('a, 'w) posix \<Rightarrow> 'w pal_state \<Rightarrow> u8 \<times> 'w pal_state" where
  "posix_udp_sock os s =
     (let (rv, servinfo, w) = sys_getaddrinfo os exosite_pal_host exosite_pal_port (sys s);
          s = s\<lparr>sys := w\<rparr> in
      if rv \<noteq> 0 then (1, s)
      else
        (case posix_sock_loop os servinfo s of
           (None, s) \<Rightarrow> (2, s)
         | (Some q, s) \<Rightarrow>
             (let (rc, w) = sys_connect os (exosock s) q (sys s); s = s\<lparr>sys := w\<rparr> in
              if rc = -1 then (3, s) else (0, s))))"

definition posix_init :: "'w pal_state \<Rightarrow> u8 \<times> 'w pal_state" where
  "posix_init s = (0, s)"

definition posix_udp_send :: "('a, 'w) posix \<Rightarrow> bytes \<Rightarrow> 'w pal_state \<Rightarrow> u8 \<times> 'w pal_state" where
  "posix_udp_send os bs s =
     (let (sent, w) = sys_send os (exosock s) bs (sys s); s = s\<lparr>sys := w\<rparr> in
      if sent = -1 then (1, s) else (0, s))"

text \<open>\<open>recv\<close> writes what it received to the front of the buffer.\<close>

definition posix_udp_recv ::
  "('a, 'w) posix \<Rightarrow> bytes \<Rightarrow> nat \<Rightarrow> nat \<Rightarrow> 'w pal_state \<Rightarrow> u8 \<times> bytes \<times> nat \<times> 'w pal_state" where
  "posix_udp_recv os buf sz rlen s =
     (let (n, bs, w) = sys_recv os (exosock s) sz (sys s); s = s\<lparr>sys := w\<rparr> in
      if n < 0 then (if sys_errno os w \<noteq> EAGAIN then (1, buf, rlen, s) else (2, buf, rlen, s))
      else (0, bs @ drop (length bs) buf, nat n, s))"

definition posix_store_cik :: "('a, 'w) posix \<Rightarrow> bytes \<Rightarrow> 'w pal_state \<Rightarrow> u8 \<times> 'w pal_state" where
  "posix_store_cik os cik s =
     (let (opened, w) = sys_fopen os ''cik'' ''w'' (sys s); s = s\<lparr>sys := w\<rparr> in
      if \<not> opened then (2, s)
      else
        (let (written, w) = sys_fwrite os (take 40 cik) (sys s); s = s\<lparr>sys := w\<rparr> in
         if written \<noteq> 40 then (1, s) else (0, s\<lparr>sys := sys_fclose os (sys s)\<rparr>)))"

definition posix_retrieve_cik :: "('a, 'w) posix \<Rightarrow> bytes \<Rightarrow> 'w pal_state \<Rightarrow> u8 \<times> bytes \<times> 'w pal_state" where
  "posix_retrieve_cik os cik s =
     (let (opened, w) = sys_fopen os ''cik'' ''r'' (sys s); s = s\<lparr>sys := w\<rparr> in
      if \<not> opened then (2, cik, s)
      else
        (let (got, bs, w) = sys_fread os 40 (sys s); s = s\<lparr>sys := w\<rparr>;
             cik = bs @ drop (length bs) cik in
         if got \<noteq> 40 then (1, cik, s) else (0, cik, s\<lparr>sys := sys_fclose os (sys s)\<rparr>)))"

definition posix_get_time :: "('a, 'w) posix \<Rightarrow> 'w pal_state \<Rightarrow> u64 \<times> 'w pal_state" where
  "posix_get_time os s =
     (let (sec, usec, w) = sys_gettimeofday os (sys s) in
      (of_nat sec * 1000000 + of_nat usec, s\<lparr>sys := w\<rparr>))"

definition posix_set_time :: "u64 \<Rightarrow> 'w pal_state \<Rightarrow> 'w pal_state" where
  "posix_set_time t s = s"

definition posix_pal :: "('a, 'w) posix \<Rightarrow> 'w pal_state plat" where
  "posix_pal os =
     \<lparr>exopal_init = posix_init, exopal_store_cik = posix_store_cik os,
      exopal_retrieve_cik = posix_retrieve_cik os, exopal_udp_sock = posix_udp_sock os,
      exopal_udp_send = posix_udp_send os, exopal_udp_recv = posix_udp_recv os,
      exopal_get_time = posix_get_time os, exopal_set_time = posix_set_time,
      libc_srand = (\<lambda>s. s\<lparr>sys := sys_srand os (sys s)\<rparr>),
      libc_rand = (\<lambda>s. let (r, w) = sys_rand os (sys s) in (r, s\<lparr>sys := w\<rparr>)),
      stack_bytes = (\<lambda>s. sys_stack os (sys s))\<rparr>"


section \<open>pal/template\<close>

definition template_udp_sock :: "'w \<Rightarrow> u8 \<times> 'w" where
  "template_udp_sock w = (1, w)"

definition template_init :: "'w \<Rightarrow> u8 \<times> 'w" where
  "template_init w = (0, w)"

definition template_udp_send :: "bytes \<Rightarrow> 'w \<Rightarrow> u8 \<times> 'w" where
  "template_udp_send bs w = (1, w)"

definition template_udp_recv :: "bytes \<Rightarrow> nat \<Rightarrow> nat \<Rightarrow> 'w \<Rightarrow> u8 \<times> bytes \<times> nat \<times> 'w" where
  "template_udp_recv buf sz rlen w = (1, buf, rlen, w)"

definition template_store_cik :: "bytes \<Rightarrow> 'w \<Rightarrow> u8 \<times> 'w" where
  "template_store_cik cik w = (1, w)"

definition template_retrieve_cik :: "bytes \<Rightarrow> 'w \<Rightarrow> u8 \<times> bytes \<times> 'w" where
  "template_retrieve_cik cik w = (1, cik, w)"

definition template_get_time :: "'w \<Rightarrow> u64 \<times> 'w" where
  "template_get_time w = (1, w)"

definition template_set_time :: "u64 \<Rightarrow> 'w \<Rightarrow> 'w" where
  "template_set_time t w = w"

definition template_pal :: "('w \<Rightarrow> 'w) \<Rightarrow> ('w \<Rightarrow> nat \<times> 'w) \<Rightarrow> ('w \<Rightarrow> bytes) \<Rightarrow> 'w plat" where
  "template_pal seed rnd stack =
     \<lparr>exopal_init = template_init, exopal_store_cik = template_store_cik,
      exopal_retrieve_cik = template_retrieve_cik, exopal_udp_sock = template_udp_sock,
      exopal_udp_send = template_udp_send, exopal_udp_recv = template_udp_recv,
      exopal_get_time = template_get_time, exopal_set_time = template_set_time,
      libc_srand = seed, libc_rand = rnd, stack_bytes = stack\<rparr>"


section \<open>The implementations meet the contract\<close>

text \<open>
  POSIX: \<open>recv\<close> returns at most as many bytes as it was asked for, and the count is their number.
\<close>

locale posix_os =
  fixes os :: "('a, 'w) posix"
  assumes recv_count: "sys_recv os fd sz w = (n, bs, w') \<Longrightarrow> 0 \<le> n \<Longrightarrow>
      n = int (length bs) \<and> length bs \<le> sz"
    and stack_size: "length (sys_stack os w) = MINIMUM_DATAGRAM_SIZE"

sublocale posix_os \<subseteq> posix: pal "posix_pal os"
proof unfold_locales
  fix buf rlen and w :: "'w pal_state" and buf' rlen' w'
  assume "exopal_udp_recv (posix_pal os) buf (length buf) rlen w = (0, buf', rlen', w')"
  then obtain n bs v where r: "sys_recv os (exosock w) (length buf) (sys w) = (n, bs, v)" "0 \<le> n"
    "buf' = bs @ drop (length bs) buf" "rlen' = nat n"
    by (auto simp: posix_pal_def posix_udp_recv_def Let_def split: prod.splits if_splits)
  with recv_count [OF r(1,2)] show "length buf' = length buf \<and> rlen' \<le> length buf"
    by simp
next
  fix w :: "'w pal_state"
  show "length (stack_bytes (posix_pal os) w) = MINIMUM_DATAGRAM_SIZE"
    by (simp add: posix_pal_def stack_size)
qed

interpretation template: pal "template_pal seed rnd (\<lambda>w. replicate MINIMUM_DATAGRAM_SIZE 0)"
  for seed and rnd :: "'w \<Rightarrow> nat \<times> 'w"
  by unfold_locales (simp_all add: template_pal_def template_udp_recv_def)


section \<open>A POSIX system driven by a script\<close>

text \<open>
  A closed instance of the system calls: datagrams arrive from a queue, what is sent is
  recorded, the clock is a counter of microseconds, and the file \<^verbatim>\<open>cik\<close> is a byte list.
\<close>

record net =
  net_in :: "bytes list"
  net_out :: "bytes list"
  net_clock :: nat
  net_rand :: nat
  net_file :: "bytes option"

definition script_os :: "(unit, net) posix" where
  "script_os =
     \<lparr>sys_getaddrinfo = (\<lambda>host port w. (0, [()], w)),
      sys_socket = (\<lambda>q w. (3, w)),
      sys_fcntl = (\<lambda>fd w. w),
      sys_connect = (\<lambda>fd q w. (0, w)),
      sys_send = (\<lambda>fd bs w. (int (length bs), w\<lparr>net_out := net_out w @ [bs]\<rparr>)),
      sys_recv = (\<lambda>fd sz w. case net_in w of [] \<Rightarrow> (-1, [], w)
                   | d # ds \<Rightarrow> (int (length (take sz d)), take sz d, w\<lparr>net_in := ds\<rparr>)),
      sys_errno = (\<lambda>w. EAGAIN),
      sys_fopen = (\<lambda>path mode w. if mode = ''w'' then (True, w\<lparr>net_file := Some []\<rparr>)
                   else (net_file w \<noteq> None, w)),
      sys_fwrite = (\<lambda>bs w. (length bs, w\<lparr>net_file := map_option (\<lambda>f. f @ bs) (net_file w)\<rparr>)),
      sys_fread = (\<lambda>n w. let bs = take n (case net_file w of None \<Rightarrow> [] | Some f \<Rightarrow> f) in (length bs, bs, w)),
      sys_fclose = (\<lambda>w. w),
      sys_gettimeofday = (\<lambda>w. (net_clock w div 1000000, net_clock w mod 1000000, w)),
      sys_srand = (\<lambda>w. w\<lparr>net_rand := net_clock w div 1000000\<rparr>),
      sys_rand = (\<lambda>w. (net_rand w, w\<lparr>net_rand := net_rand w + 1\<rparr>)),
      sys_stack = (\<lambda>w. replicate MINIMUM_DATAGRAM_SIZE 0)\<rparr>"

interpretation script: posix_os script_os
  by unfold_locales (auto simp: script_os_def split: list.splits)



section \<open>The CIK file\<close>

text \<open>
  The stream calls on the file \<^verbatim>\<open>cik\<close>, whose content (if it exists) is \<open>stored\<close>: opening for writing
  empties it, writing appends the bytes it counts, opening for reading fails only without a file and
  a first read gets the front of it.
\<close>

locale posix_file =
  fixes os :: "('a, 'w) posix" and stored :: "'w \<Rightarrow> bytes option"
  assumes open_write: "sys_fopen os ''cik'' ''w'' w = (True, w') \<Longrightarrow> stored w' = Some []"
    and write_law: "sys_fwrite os bs w = (n, w') \<Longrightarrow> stored w = Some f \<Longrightarrow> stored w' = Some (f @ take n bs)"
    and open_read: "sys_fopen os ''cik'' ''r'' w = (ok, w') \<Longrightarrow> ok = (stored w \<noteq> None) \<and> stored w' = stored w"
    and read_law: "sys_fopen os ''cik'' ''r'' w = (True, w1) \<Longrightarrow> stored w = Some f \<Longrightarrow>
      sys_fread os n w1 = (k, bs, w2) \<Longrightarrow> bs = take n f \<and> k = length bs \<and> stored w2 = stored w1"
    and close_law: "stored (sys_fclose os w) = stored w"
begin

lemma store_writes:
  assumes "posix_store_cik os cik s = (0, s1)" "40 \<le> length cik"
  shows "stored (sys s1) = Some (take 40 cik)"
proof -
  obtain w1 w2 where w: "sys_fopen os ''cik'' ''w'' (sys s) = (True, w1)"
    "sys_fwrite os (take 40 cik) w1 = (40, w2)" "sys s1 = sys_fclose os w2"
    using assms(1) by (auto simp: posix_store_cik_def Let_def split: prod.splits if_splits)
  then show ?thesis
    using write_law [OF w(2) open_write [OF w(1)]] by (simp add: close_law)
qed

lemma retrieve_stored:
  assumes "stored (sys s) = Some f" "length f = 40"
  shows "\<exists>s'. posix_retrieve_cik os buf s = (0, f @ drop 40 buf, s') \<and> stored (sys s') = stored (sys s)"
proof -
  obtain w1 where w1: "sys_fopen os ''cik'' ''r'' (sys s) = (True, w1)" "stored w1 = stored (sys s)"
    using open_read assms(1) by (metis option.distinct(1) surj_pair)
  obtain k bs w2 where r: "sys_fread os 40 w1 = (k, bs, w2)" by (metis prod_cases3)
  then have "bs = f" "k = 40" "stored w2 = stored w1"
    using read_law [OF w1(1) assms(1) r] assms(2) by simp_all
  then show ?thesis
    using w1 r assms(2) by (simp add: posix_retrieve_cik_def Let_def close_law)
qed

end

interpretation script_file: posix_file script_os net_file
  by unfold_locales (auto simp: script_os_def Let_def split: if_splits option.splits)


section \<open>Datagrams in order\<close>

text \<open>
  A platform whose network is two queues: \<open>inq\<close> are the datagrams that wait to be received and
  \<open>outq\<close> those that were sent. Receiving takes the first datagram, cut to the buffer, and fails when
  none is left; the clock, \<open>rand\<close> and the storage of the CIK leave the network alone.
\<close>

locale datagram_pal = pal P for P :: "'w plat" +
  fixes inq :: "'w \<Rightarrow> bytes list" and outq :: "'w \<Rightarrow> bytes list"
  assumes queue_law: "exopal_udp_recv P buf (length buf) rlen w = (rc, buf', rlen', w') \<Longrightarrow>
      outq w' = outq w \<and>
      (case inq w of
         [] \<Rightarrow> rc \<noteq> 0 \<and> inq w' = []
       | d # ds \<Rightarrow> rc = 0 \<and> inq w' = ds \<and> buf' = take (length buf) d @ drop (length d) buf \<and>
                   rlen' = length (take (length buf) d))"
    and send_law: "exopal_udp_send P bs w = (rc, w') \<Longrightarrow>
      inq w' = inq w \<and> outq w' = (if rc = 0 then outq w @ [bs] else outq w)"
    and time_law: "exopal_get_time P w = (t, w') \<Longrightarrow> inq w' = inq w \<and> outq w' = outq w"
    and rand_law: "libc_rand P w = (r, w') \<Longrightarrow> inq w' = inq w \<and> outq w' = outq w"
    and store_law: "exopal_store_cik P cik w = (rc, w') \<Longrightarrow> inq w' = inq w \<and> outq w' = outq w"

interpretation script: datagram_pal "posix_pal script_os" "\<lambda>s. net_in (sys s)" "\<lambda>s. net_out (sys s)"
  by unfold_locales
    (auto simp: posix_pal_def script_os_def posix_udp_recv_def posix_udp_send_def posix_get_time_def
      posix_store_cik_def Let_def EAGAIN_def min_def split: list.splits if_splits prod.splits)

end
