(* ===== verification/Exo_Operate.thy ===== *)
theory Exo_Operate
  imports Exo_Pal
begin

text \<open>
  The engine of \<^verbatim>\<open>exosite.c\<close>: \<open>exo_init\<close>, \<open>exo_operate\<close>, the handling of received datagrams
  (\<open>exo_process_waiting_datagrams\<close>) and the sending of requests, retransmissions and
  acknowledgements (\<open>exo_process_active_ops\<close>), over the whole state the code touches.
\<close>

section \<open>State\<close>

record 'w exo =
  x_lib :: exo_lib
  x_heap :: heap
  x_ops :: "exo_op list"
  x_world :: 'w

text \<open>\<open>op[i]\<close>, read and written; the array has \<open>length (x_ops s)\<close> entries.\<close>

definition get_op :: "nat \<Rightarrow> 'w exo \<Rightarrow> exo_op option" where
  "get_op i s = nth_opt (x_ops s) i"

definition upd_op :: "nat \<Rightarrow> (exo_op \<Rightarrow> exo_op) \<Rightarrow> 'w exo \<Rightarrow> 'w exo option" where
  "upd_op i f s = do { op \<leftarrow> get_op i s; Some (s\<lparr>x_ops := (x_ops s)[i := f op]\<rparr>) }"

definition set_state :: "exo_request_state \<Rightarrow> exo_op \<Rightarrow> exo_op" where
  "set_state st op = op\<lparr>op_state := st\<rparr>"

definition now_of :: "'w plat \<Rightarrow> 'w exo \<Rightarrow> u64 \<times> 'w exo" where
  "now_of P s = (let (t, w) = exopal_get_time P (x_world s) in (t, s\<lparr>x_world := w\<rparr>))"

definition rand_of :: "'w plat \<Rightarrow> 'w exo \<Rightarrow> u64 \<times> 'w exo" where
  "rand_of P s = (let (r, w) = libc_rand P (x_world s) in (of_nat r, s\<lparr>x_world := w\<rparr>))"

definition send_pdu :: "'w plat \<Rightarrow> coap_pdu \<Rightarrow> 'w exo \<Rightarrow> (u8 \<times> 'w exo) option" where
  "send_pdu P pdu s =
     do { bs \<leftarrow> mem_read (pdu_buf pdu) 0 (pdu_len pdu);
          let (rc, w) = exopal_udp_send P bs (x_world s);
          Some (rc, s\<lparr>x_world := w\<rparr>) }"

text \<open>The local \<open>coap_pdu\<close> over an uninitialised array of \<open>MINIMUM_DATAGRAM_SIZE\<close> bytes.\<close>

definition local_pdu :: "'w plat \<Rightarrow> 'w exo \<Rightarrow> coap_pdu" where
  "local_pdu P s =
     \<lparr>pdu_buf = stack_bytes P (x_world s), pdu_addr = 140737488351232, pdu_len = 0,
      pdu_max = MINIMUM_DATAGRAM_SIZE, pdu_opt_ptr = NULL\<rparr>"


section \<open>Initialisation\<close>

definition exo_init :: "'w plat \<Rightarrow> cptr \<Rightarrow> cptr \<Rightarrow> cptr \<Rightarrow> 'w exo \<Rightarrow> (exo_error \<times> 'w exo) option" where
  "exo_init P vendor model serial s =
     (let s = s\<lparr>x_lib := (x_lib s)\<lparr>lib_device := EXO_STATE_UNINITIALIZED\<rparr>\<rparr>;
          (rc, w) = exopal_init P (x_world s); s = s\<lparr>x_world := w\<rparr> in
      if rc \<noteq> 0 then Some (EXO_FATAL_ERROR_PAL, s)
      else
        (let s = s\<lparr>x_world := libc_srand P (x_world s)\<rparr>;
             (r, s) = rand_of P s;
             s = s\<lparr>x_lib := (x_lib s)\<lparr>lib_mid := ucast r, lib_serial := serial, lib_vendor := vendor,
                                     lib_model := model\<rparr>\<rparr>;
             (rc, cik, w) = exopal_retrieve_cik P (lib_cik (x_lib s)) (x_world s);
             s = s\<lparr>x_world := w, x_lib := (x_lib s)\<lparr>lib_cik := cik\<rparr>\<rparr> in
         if rc > 1 then Some (EXO_FATAL_ERROR_PAL, s)
         else do {
           cik \<leftarrow> wr (lib_cik (x_lib s)) 40 0;
           let s = s\<lparr>x_lib := (x_lib s)\<lparr>lib_cik := cik\<rparr>\<rparr>;
           let (rc, w) = exopal_udp_sock P (x_world s);
           let s = s\<lparr>x_world := w\<rparr>;
           if rc \<noteq> 0 then Some (EXO_FATAL_ERROR_PAL, s)
           else Some (EXO_OK, s\<lparr>x_lib := (x_lib s)\<lparr>lib_device := EXO_STATE_INITIALIZED\<rparr>\<rparr>) }))"


section \<open>Received datagrams\<close>

text \<open>
  \<open>for (j = 0; j < opt.len; j++) seq = (seq << (8*j)) | opt.val[j];\<close> on a uint32_t: a shift by 32
  or more is undefined.
\<close>

function obs_seq_loop :: "bytes \<Rightarrow> coap_option \<Rightarrow> nat \<Rightarrow> u32 \<Rightarrow> u32 option" where
  "obs_seq_loop buf opt j seq =
     (if j < opt_len opt then
        (if 8 * j \<ge> 32 then None
         else do { b \<leftarrow> deref buf (ptr_add (opt_val opt) j);
                   obs_seq_loop buf opt (j + 1) (push_bit (8 * j) seq OR ucast b) })
      else Some seq)"
  by pat_completeness auto
termination
  by (relation "measure (\<lambda>(buf, opt, j, seq). opt_len opt - j)") auto

declare obs_seq_loop.simps [simp del]

text \<open>The Max-Age option if it is there with one byte, else 120 seconds.\<close>

definition max_age :: "coap_pdu \<Rightarrow> coap_option \<Rightarrow> u8 option" where
  "max_age pdu opt =
     (if opt_num opt \<noteq> 0 \<and> opt_len opt = 1 then deref (pdu_buf pdu) (opt_val opt) else Some 120)"

text \<open>\<open>exopal_get_time() + (age * 1000000) + ((uint64_t)rand() % 1500000)\<close>\<close>

definition expiry :: "'w plat \<Rightarrow> u8 \<Rightarrow> 'w exo \<Rightarrow> u64 \<times> 'w exo" where
  "expiry P age s =
     (let (t, s) = now_of P s; (r, s) = rand_of P s in
      (t + ucast age * 1000000 + r mod 1500000, s))"

datatype stored = StoredEmpty | StoredTooBig | StoredValue

text \<open>
  The three-way branch that copies a payload to \<open>op[i].value\<close>, which the code has three times: for a notification, for
  the answer to a read and for the answer to a subscription. The empty payload is handled
  before the size check, and stores its NUL whatever \<open>value\<close> and \<open>value_max\<close> are.
\<close>

definition store_value :: "coap_pdu \<Rightarrow> coap_payload \<Rightarrow> exo_op \<Rightarrow> heap \<Rightarrow> (stored \<times> heap) option" where
  "store_value pdu payload op h =
     (if pl_len payload = 0 then
        do { h \<leftarrow> hstore h (op_value op) 0 [0]; Some (StoredEmpty, h) }
      else if add64 (pl_len payload) 1 > op_value_max op \<or> op_value op = None then
        Some (StoredTooBig, h)
      else do {
        bs \<leftarrow> (case pl_val payload of NULL \<Rightarrow> None | Buf q \<Rightarrow> mem_read (pdu_buf pdu) q (pl_len payload));
        h \<leftarrow> hstore h (op_value op) 0 bs;
        h \<leftarrow> hstore h (op_value op) (pl_len payload) [0];
        Some (StoredValue, h) })"

text \<open>A CON or NON message whose token is that of the subscribed operation \<open>i\<close>.\<close>

definition handle_notification :: "'w plat \<Rightarrow> coap_pdu \<Rightarrow> nat \<Rightarrow> 'w exo \<Rightarrow> 'w exo option" where
  "handle_notification P pdu i s =
     do {
       op \<leftarrow> get_op i s;
       code \<leftarrow> coap_get_code pdu;
       if code = cc_val CC_CONTENT then do {
         opt \<leftarrow> coap_get_option_by_num pdu CON_OBSERVE 0;
         new_seq \<leftarrow> obs_seq_loop (pdu_buf pdu) opt 0 0;
         payload \<leftarrow> coap_get_payload pdu;
         (out, h) \<leftarrow> store_value pdu payload op (x_heap s);
         let s = s\<lparr>x_heap := h\<rparr>;
         case out of
           StoredEmpty \<Rightarrow> Some s
         | StoredTooBig \<Rightarrow> upd_op i (set_state EXO_REQUEST_ERROR) s
         | StoredValue \<Rightarrow> do {
             mid \<leftarrow> coap_get_mid pdu;
             s \<leftarrow> upd_op i (\<lambda>op.
                    if op_obs_seq op \<noteq> new_seq
                    then op\<lparr>op_mid := mid, op_state := EXO_REQUEST_SUB_ACK_NEW, op_obs_seq := new_seq\<rparr>
                    else op\<lparr>op_mid := mid, op_state := EXO_REQUEST_SUB_ACK\<rparr>) s;
             opt \<leftarrow> coap_get_option_by_num pdu CON_MAX_AGE 0;
             age \<leftarrow> max_age pdu opt;
             let (t, s) = expiry P age s;
             upd_op i (\<lambda>op. op\<lparr>op_timeout := t\<rparr>) s } }
       else do {
         cls \<leftarrow> coap_get_code_class pdu;
         if cls \<noteq> 2 then upd_op i (set_state EXO_REQUEST_ERROR) s else Some s } }"

text \<open>
  An acknowledgement of class 2 for the pending operation \<open>i\<close>. The result says whether the loop
  over the operations ends here; it goes on for an operation without a type.
\<close>

definition handle_ack_success :: "'w plat \<Rightarrow> coap_pdu \<Rightarrow> nat \<Rightarrow> 'w exo \<Rightarrow> (bool \<times> 'w exo) option" where
  "handle_ack_success P pdu i s =
     do {
       op \<leftarrow> get_op i s;
       case op_type op of
         EXO_WRITE \<Rightarrow> do { s \<leftarrow> upd_op i (set_state EXO_REQUEST_SUCCESS) s; Some (True, s) }
       | EXO_READ \<Rightarrow> do {
           payload \<leftarrow> coap_get_payload pdu;
           (out, h) \<leftarrow> store_value pdu payload op (x_heap s);
           let s = s\<lparr>x_heap := h\<rparr>;
           s \<leftarrow> (case out of
                  StoredEmpty \<Rightarrow> Some s
                | StoredTooBig \<Rightarrow> upd_op i (set_state EXO_REQUEST_ERROR) s
                | StoredValue \<Rightarrow> upd_op i (set_state EXO_REQUEST_SUCCESS) s);
           Some (True, s) }
       | EXO_SUBSCRIBE \<Rightarrow> do {
           payload \<leftarrow> coap_get_payload pdu;
           (out, h) \<leftarrow> store_value pdu payload op (x_heap s);
           let s = s\<lparr>x_heap := h\<rparr>;
           s \<leftarrow> (case out of
                  StoredEmpty \<Rightarrow> Some s
                | StoredTooBig \<Rightarrow> upd_op i (set_state EXO_REQUEST_ERROR) s
                | StoredValue \<Rightarrow> do {
                    s \<leftarrow> upd_op i (set_state EXO_REQUEST_SUCCESS) s;
                    opt \<leftarrow> coap_get_option_by_num pdu CON_MAX_AGE 0;
                    age \<leftarrow> max_age pdu opt;
                    opt \<leftarrow> coap_get_option_by_num pdu CON_OBSERVE 0;
                    seq \<leftarrow> obs_seq_loop (pdu_buf pdu) opt 0 (op_obs_seq op);
                    let (t, s) = expiry P age s;
                    upd_op i (\<lambda>op. op\<lparr>op_obs_seq := seq, op_timeout := t\<rparr>) s });
           Some (True, s) }
       | EXO_ACTIVATE \<Rightarrow> do {
           payload \<leftarrow> coap_get_payload pdu;
           s \<leftarrow> (if pl_len payload = CIK_LENGTH then do {
                   bs \<leftarrow> (case pl_val payload of NULL \<Rightarrow> None
                         | Buf q \<Rightarrow> mem_read (pdu_buf pdu) q CIK_LENGTH);
                   cik \<leftarrow> mem_write (lib_cik (x_lib s)) 0 bs;
                   cik \<leftarrow> wr cik CIK_LENGTH 0;
                   s \<leftarrow> upd_op i (set_state EXO_REQUEST_SUCCESS) s;
                   let (rc, w) = exopal_store_cik P cik (x_world s);
                   Some (s\<lparr>x_lib := (x_lib s)\<lparr>lib_cik := cik, lib_device := EXO_STATE_GOOD\<rparr>,
                           x_world := w\<rparr>) }
                 else upd_op i (set_state EXO_REQUEST_ERROR) s);
           s \<leftarrow> upd_op i exo_op_init s;
           Some (True, s) }
       | EXO_NULL \<Rightarrow> Some (False, s) }"

definition handle_ack_failure :: "'w plat \<Rightarrow> coap_pdu \<Rightarrow> nat \<Rightarrow> 'w exo \<Rightarrow> 'w exo option" where
  "handle_ack_failure P pdu i s =
     do {
       s \<leftarrow> upd_op i (set_state EXO_REQUEST_ERROR) s;
       code \<leftarrow> coap_get_code pdu;
       if code = cc_val CC_UNAUTHORIZED then do {
         op0 \<leftarrow> get_op 0 s;
         if op_type op0 = EXO_NULL then upd_op 0 exo_activate s
         else
           (let (t, s) = now_of P s in
            if op_timeout op0 < t then upd_op 0 exo_activate s else Some s) }
       else if code = cc_val CC_NOT_FOUND then
         Some (s\<lparr>x_lib := (x_lib s)\<lparr>lib_device := EXO_STATE_GOOD\<rparr>\<rparr>)
       else Some s }"

text \<open>One turn of the loop over the operations: did the message belong to operation \<open>i\<close>?\<close>

definition match_op :: "'w plat \<Rightarrow> coap_pdu \<Rightarrow> nat \<Rightarrow> 'w exo \<Rightarrow> (bool \<times> 'w exo) option" where
  "match_op P pdu i s =
     do {
       t \<leftarrow> coap_get_type pdu;
       op \<leftarrow> get_op i s;
       if t = ct_val CT_CON \<or> t = ct_val CT_NON then
         (if op_state op = EXO_REQUEST_SUBSCRIBED then do {
            token \<leftarrow> coap_get_token pdu;
            if token = op_token op
            then do { s \<leftarrow> handle_notification P pdu i s; Some (True, s) }
            else Some (False, s) }
          else Some (False, s))
       else if t = ct_val CT_ACK then
         (if op_state op = EXO_REQUEST_PENDING then do {
            mid \<leftarrow> coap_get_mid pdu;
            if op_mid op = mid then do {
              cls \<leftarrow> coap_get_code_class pdu;
              if cls = 2 then handle_ack_success P pdu i s
              else do { s \<leftarrow> handle_ack_failure P pdu i s; Some (True, s) } }
            else Some (False, s) }
          else Some (False, s))
       else if t = ct_val CT_RST then
         (if op_state op = EXO_REQUEST_PENDING \<or> op_state op = EXO_REQUEST_SUBSCRIBED then do {
            mid \<leftarrow> coap_get_mid pdu;
            if op_mid op = mid then do {
              token \<leftarrow> coap_get_token pdu;
              if op_token op = token
              then do { s \<leftarrow> upd_op i (set_state EXO_REQUEST_ERROR) s; Some (True, s) }
              else Some (False, s) }
            else Some (False, s) }
          else Some (False, s))
       else Some (False, s) }"

text \<open>The loop from operation \<open>i\<close> on, with \<open>n\<close> operations left.\<close>

fun match_ops :: "'w plat \<Rightarrow> coap_pdu \<Rightarrow> nat \<Rightarrow> nat \<Rightarrow> 'w exo \<Rightarrow> (bool \<times> 'w exo) option" where
  "match_ops P pdu i 0 s = Some (False, s)"
| "match_ops P pdu i (Suc n) s =
     Option.bind (match_op P pdu i s) (\<lambda>(hit, s).
       if hit then Some (True, s) else match_ops P pdu (Suc i) n s)"

definition reply_rst :: "'w plat \<Rightarrow> coap_pdu \<Rightarrow> 'w exo \<Rightarrow> 'w exo option" where
  "reply_rst P pdu s =
     do {
       t \<leftarrow> coap_get_type pdu;
       if t = ct_val CT_CON then do {
         mid \<leftarrow> coap_get_mid pdu;
         token \<leftarrow> coap_get_token pdu;
         tkl \<leftarrow> coap_get_tkl pdu;
         (_, pdu) \<leftarrow> exo_build_msg_rst mid token tkl pdu;
         (_, s) \<leftarrow> send_pdu P pdu s;
         Some s }
       else Some s }"

text \<open>
  The receive loop. An invalid packet is skipped; a packet no operation recognises is answered
  with a reset if it was confirmable, and ends the loop. The loop may run for as long as
  datagrams arrive: a run that never ends is \<open>None\<close>.
\<close>

partial_function (option) recv_loop :: "'w plat \<Rightarrow> nat \<Rightarrow> coap_pdu \<Rightarrow> 'w exo \<Rightarrow> 'w exo option" where
  "recv_loop P count pdu s =
     (case exopal_udp_recv P (pdu_buf pdu) (pdu_max pdu) (pdu_len pdu) (x_world s) of
        (rc, buf, len, w) \<Rightarrow>
          if rc \<noteq> 0 then Some (s\<lparr>x_world := w\<rparr>)
          else
            Option.bind (coap_validate_pkt (pdu\<lparr>pdu_buf := buf, pdu_len := len\<rparr>)) (\<lambda>(err, pdu).
              if err \<noteq> CE_NONE then recv_loop P count pdu (s\<lparr>x_world := w\<rparr>)
              else
                Option.bind (match_ops P pdu 0 count (s\<lparr>x_world := w\<rparr>)) (\<lambda>(hit, s).
                  if hit then recv_loop P count pdu s else reply_rst P pdu s)))"

declare recv_loop.simps [code]

definition exo_process_waiting_datagrams :: "'w plat \<Rightarrow> nat \<Rightarrow> 'w exo \<Rightarrow> 'w exo option" where
  "exo_process_waiting_datagrams P count s = recv_loop P count (local_pdu P s) s"


section \<open>Requests, retransmissions and acknowledgements\<close>

definition COAP_MAX_RETRANSMIT :: u8 where
  "COAP_MAX_RETRANSMIT = 4"

definition COAP_PROBING_RATE :: u64 where
  "COAP_PROBING_RATE = 1"

text \<open>
  The call of a builder on the local packet. It draws a random token and counts the message id;
  the caller drops the error code.
\<close>

definition build_for ::
  "'w plat \<Rightarrow> (heap \<Rightarrow> exo_lib \<Rightarrow> u64 \<Rightarrow> coap_pdu \<Rightarrow> (exo_error \<times> coap_pdu \<times> exo_lib) option) \<Rightarrow>
     coap_pdu \<Rightarrow> 'w exo \<Rightarrow> (coap_pdu \<times> 'w exo) option" where
  "build_for P build pdu s =
     (let (r, s) = rand_of P s in
      do { (_, pdu, lib) \<leftarrow> build (x_heap s) (x_lib s) r pdu; Some (pdu, s\<lparr>x_lib := lib\<rparr>) })"

definition op_builder ::
  "exo_op \<Rightarrow> heap \<Rightarrow> exo_lib \<Rightarrow> u64 \<Rightarrow> coap_pdu \<Rightarrow> (exo_error \<times> coap_pdu \<times> exo_lib) option" where
  "op_builder op h lib =
     (case op_type op of
        EXO_READ \<Rightarrow> exo_build_msg_read h lib (op_alias op)
      | EXO_SUBSCRIBE \<Rightarrow> exo_build_msg_observe h lib (op_alias op)
      | EXO_WRITE \<Rightarrow> exo_build_msg_write h lib (op_alias op) (op_value op)
      | EXO_ACTIVATE \<Rightarrow> exo_build_msg_activate h lib (lib_vendor lib) (lib_model lib) (lib_serial lib)
      | EXO_NULL \<Rightarrow> (\<lambda>r pdu. Some (EXO_OK, pdu, lib)))"

text \<open>\<open>case EXO_REQUEST_NEW\<close>\<close>

definition send_new :: "'w plat \<Rightarrow> nat \<Rightarrow> exo_op \<Rightarrow> coap_pdu \<Rightarrow> 'w exo \<Rightarrow> (coap_pdu \<times> 'w exo) option" where
  "send_new P i op pdu s =
     (if op_type op = EXO_NULL then
        do { s \<leftarrow> upd_op i (\<lambda>op. op\<lparr>op_type := EXO_NULL\<rparr>) s; Some (pdu, s) }
      else do {
        (pdu, s) \<leftarrow> build_for P (op_builder op) pdu s;
        (rc, s) \<leftarrow> send_pdu P pdu s;
        if rc = 0 then do {
          let (t, s) = now_of P s;
          mid \<leftarrow> coap_get_mid pdu;
          token \<leftarrow> coap_get_token pdu;
          s \<leftarrow> upd_op i (\<lambda>op. op\<lparr>op_state := EXO_REQUEST_PENDING, op_timeout := t + 4000000,
                                op_mid := mid, op_token := token\<rparr>) s;
          Some (pdu, s) }
        else Some (pdu, s) })"

text \<open>
  A read, write or activation that has timed out is built again under its old message id and
  with the \<open>op_tkl\<close> bytes of its old token, and sent.
\<close>

definition retransmit :: "'w plat \<Rightarrow> nat \<Rightarrow> exo_op \<Rightarrow> coap_pdu \<Rightarrow> 'w exo \<Rightarrow> (coap_pdu \<times> 'w exo) option" where
  "retransmit P i op pdu s =
     do {
       (pdu, s) \<leftarrow> build_for P (op_builder op) pdu s;
       (_, pdu) \<leftarrow> coap_set_mid pdu (op_mid op);
       (_, pdu) \<leftarrow> coap_set_token pdu (op_token op) (op_tkl op);
       (rc, s) \<leftarrow> send_pdu P pdu s;
       if rc = 0 then do {
         let n = op_retries op + 1;
         let (t, s) = now_of P s;
         let (r, s) = rand_of P s;
         s \<leftarrow> upd_op i (\<lambda>op. op\<lparr>op_retries := n,
                op_timeout := t + ucast n * COAP_PROBING_RATE * 1000000 + r mod 1500000\<rparr>) s;
         Some (pdu, s) }
       else Some (pdu, s) }"

text \<open>\<open>case EXO_REQUEST_SUBSCRIBED: case EXO_REQUEST_PENDING:\<close>\<close>

definition check_timeout ::
  "'w plat \<Rightarrow> u64 \<Rightarrow> nat \<Rightarrow> exo_op \<Rightarrow> coap_pdu \<Rightarrow> 'w exo \<Rightarrow> (coap_pdu \<times> 'w exo) option" where
  "check_timeout P now i op pdu s =
     (if op_timeout op \<le> now then
        (if op_type op = EXO_READ \<or> op_type op = EXO_WRITE \<or> op_type op = EXO_ACTIVATE then
           (if op_retries op < COAP_MAX_RETRANSMIT then retransmit P i op pdu s
            else do { s \<leftarrow> upd_op i (set_state EXO_REQUEST_ERROR) s; Some (pdu, s) })
         else if op_type op = EXO_SUBSCRIBE then
           do { s \<leftarrow> upd_op i (set_state EXO_REQUEST_NEW) s; Some (pdu, s) }
         else Some (pdu, s))
      else Some (pdu, s))"

text \<open>\<open>case EXO_REQUEST_SUB_ACK_NEW: case EXO_REQUEST_SUB_ACK:\<close>\<close>

definition send_ack :: "'w plat \<Rightarrow> nat \<Rightarrow> exo_op \<Rightarrow> coap_pdu \<Rightarrow> 'w exo \<Rightarrow> (coap_pdu \<times> 'w exo) option" where
  "send_ack P i op pdu s =
     do {
       (_, pdu) \<leftarrow> exo_build_msg_ack (op_mid op) pdu;
       (rc, s) \<leftarrow> send_pdu P pdu s;
       if rc = 0 then do {
         s \<leftarrow> (if op_state op = EXO_REQUEST_SUB_ACK then upd_op i (set_state EXO_REQUEST_SUBSCRIBED) s
               else upd_op i (set_state EXO_REQUEST_SUCCESS) s);
         Some (pdu, s) }
       else Some (pdu, s) }"

definition active_op :: "'w plat \<Rightarrow> u64 \<Rightarrow> nat \<Rightarrow> coap_pdu \<Rightarrow> 'w exo \<Rightarrow> (coap_pdu \<times> 'w exo) option" where
  "active_op P now i pdu s =
     do {
       op \<leftarrow> get_op i s;
       case op_state op of
         EXO_REQUEST_NEW \<Rightarrow> send_new P i op pdu s
       | EXO_REQUEST_SUBSCRIBED \<Rightarrow> check_timeout P now i op pdu s
       | EXO_REQUEST_PENDING \<Rightarrow> check_timeout P now i op pdu s
       | EXO_REQUEST_SUB_ACK_NEW \<Rightarrow> send_ack P i op pdu s
       | EXO_REQUEST_SUB_ACK \<Rightarrow> send_ack P i op pdu s
       | _ \<Rightarrow> Some (pdu, s) }"

text \<open>The loop from operation \<open>i\<close> on, with \<open>n\<close> operations left.\<close>

fun active_loop :: "'w plat \<Rightarrow> u64 \<Rightarrow> nat \<Rightarrow> nat \<Rightarrow> coap_pdu \<Rightarrow> 'w exo \<Rightarrow> 'w exo option" where
  "active_loop P now i 0 pdu s = Some s"
| "active_loop P now i (Suc n) pdu s =
     Option.bind (active_op P now i pdu s) (\<lambda>(pdu, s). active_loop P now (Suc i) n pdu s)"

definition exo_process_active_ops :: "'w plat \<Rightarrow> nat \<Rightarrow> 'w exo \<Rightarrow> 'w exo option" where
  "exo_process_active_ops P count s =
     (let (now, s) = now_of P s in active_loop P now 0 count (local_pdu P s) s)"


section \<open>The main entry point\<close>

text \<open>While the device has no CIK, operation 0 is kept busy with activations.\<close>

definition need_activation :: "'w plat \<Rightarrow> 'w exo \<Rightarrow> 'w exo option" where
  "need_activation P s =
     do {
       op0 \<leftarrow> get_op 0 s;
       if op_state op0 = EXO_REQUEST_NULL then upd_op 0 exo_activate s
       else
         (let (t, s) = now_of P s in
          if op_timeout op0 < t then upd_op 0 exo_activate s else Some s) }"

definition ops_state :: "nat \<Rightarrow> exo_op list \<Rightarrow> exo_state" where
  "ops_state count ops =
     (if \<exists>op \<in> set (take count ops). op_state op = EXO_REQUEST_NEW then EXO_BUSY
      else if \<exists>op \<in> set (take count ops). op_state op = EXO_REQUEST_PENDING then EXO_WAITING
      else EXO_IDLE)"

definition exo_operate :: "'w plat \<Rightarrow> u8 \<Rightarrow> 'w exo \<Rightarrow> (exo_state \<times> 'w exo) option" where
  "exo_operate P count s =
     (if lib_device (x_lib s) = EXO_STATE_UNINITIALIZED then Some (EXO_ERROR, s)
      else do {
        s \<leftarrow> (if lib_device (x_lib s) = EXO_STATE_GOOD then Some s else need_activation P s);
        s \<leftarrow> exo_process_waiting_datagrams P (unat count) s;
        s \<leftarrow> exo_process_active_ops P (unat count) s;
        Some (ops_state (unat count) (x_ops s), s) })"

end
