(* ===== verification/Exo_Steps.thy ===== *)
theory Exo_Steps
  imports Exo_Operate
begin

text \<open>
  The life of an operation as a state machine. \<open>op_step i\<close> is what the library may do to
  operation \<open>i\<close> between two calls of the application, and every run of \<open>exo_operate\<close> takes
  each operation along such steps.
\<close>

section \<open>The state machine\<close>

text \<open>
  Times, message ids, tokens and sequence numbers come from outside and are left open. Only
  operation 0 can be taken for an activation the application did not ask for.
\<close>

inductive op_step :: "nat \<Rightarrow> exo_op \<Rightarrow> exo_op \<Rightarrow> bool" for i :: nat where
  sent: "op_state op = EXO_REQUEST_NEW \<Longrightarrow> op_type op \<noteq> EXO_NULL \<Longrightarrow>
    op_step i op (op\<lparr>op_state := EXO_REQUEST_PENDING, op_timeout := t, op_mid := m, op_token := k\<rparr>)"
| answered: "op_state op = EXO_REQUEST_PENDING \<Longrightarrow> op_type op \<in> {EXO_READ, EXO_WRITE} \<Longrightarrow>
    op_step i op (op\<lparr>op_state := EXO_REQUEST_SUCCESS\<rparr>)"
| subscribed: "op_state op = EXO_REQUEST_PENDING \<Longrightarrow> op_type op = EXO_SUBSCRIBE \<Longrightarrow>
    op_step i op (op\<lparr>op_state := EXO_REQUEST_SUCCESS, op_obs_seq := q, op_timeout := t\<rparr>)"
| activated: "op_state op = EXO_REQUEST_PENDING \<Longrightarrow> op_type op = EXO_ACTIVATE \<Longrightarrow>
    op_step i op (exo_op_init op)"
| failed: "op_state op \<in> {EXO_REQUEST_PENDING, EXO_REQUEST_SUBSCRIBED} \<Longrightarrow>
    op_step i op (op\<lparr>op_state := EXO_REQUEST_ERROR\<rparr>)"
| notified: "op_state op = EXO_REQUEST_SUBSCRIBED \<Longrightarrow>
    st \<in> {EXO_REQUEST_SUB_ACK, EXO_REQUEST_SUB_ACK_NEW} \<Longrightarrow>
    op_step i op (op\<lparr>op_mid := m, op_state := st, op_obs_seq := q, op_timeout := t\<rparr>)"
| repeated: "op_state op \<in> {EXO_REQUEST_PENDING, EXO_REQUEST_SUBSCRIBED} \<Longrightarrow>
    op_type op \<in> {EXO_READ, EXO_WRITE, EXO_ACTIVATE} \<Longrightarrow> op_retries op < COAP_MAX_RETRANSMIT \<Longrightarrow>
    op_step i op (op\<lparr>op_retries := op_retries op + 1, op_timeout := t\<rparr>)"
| renewed: "op_state op \<in> {EXO_REQUEST_PENDING, EXO_REQUEST_SUBSCRIBED} \<Longrightarrow>
    op_type op = EXO_SUBSCRIBE \<Longrightarrow> op_step i op (op\<lparr>op_state := EXO_REQUEST_NEW\<rparr>)"
| confirmed: "op_state op = EXO_REQUEST_SUB_ACK \<Longrightarrow>
    op_step i op (op\<lparr>op_state := EXO_REQUEST_SUBSCRIBED\<rparr>)"
| confirmed_new: "op_state op = EXO_REQUEST_SUB_ACK_NEW \<Longrightarrow>
    op_step i op (op\<lparr>op_state := EXO_REQUEST_SUCCESS\<rparr>)"
| taken: "i = 0 \<Longrightarrow> op_step i op (exo_activate op)"

inductive_cases op_stepE: "op_step i op op'"

abbreviation op_steps :: "nat \<Rightarrow> exo_op \<Rightarrow> exo_op \<Rightarrow> bool" where
  "op_steps i \<equiv> (op_step i)\<^sup>*\<^sup>*"

definition all_steps :: "exo_op list \<Rightarrow> exo_op list \<Rightarrow> bool" where
  "all_steps ops ops' \<longleftrightarrow>
     length ops' = length ops \<and> (\<forall>i < length ops. op_steps i (ops ! i) (ops' ! i))"

lemma all_steps_refl [simp, intro]: "all_steps ops ops"
  by (simp add: all_steps_def)

lemma all_steps_trans [trans]: "all_steps a b \<Longrightarrow> all_steps b c \<Longrightarrow> all_steps a c"
  by (auto simp: all_steps_def intro: rtranclp_trans)

lemma all_steps_update:
  "i < length ops \<Longrightarrow> op_step i (ops ! i) op' \<Longrightarrow> all_steps ops (ops[i := op'])"
  by (auto simp: all_steps_def nth_list_update)


section \<open>Relations a call keeps\<close>

text \<open>
  A reflexive and transitive relation on states that the pass over one operation keeps, whatever the world
  does, is kept by the whole pass; if the handling of received messages keeps it too, it is kept by a
  call of \<open>exo_operate\<close> that returns.
\<close>

locale pass_rel =
  fixes P :: "'w plat" and R :: "'w exo \<Rightarrow> 'w exo \<Rightarrow> bool"
  assumes rel_refl: "R s s"
    and rel_trans: "R s s1 \<Longrightarrow> R s1 s2 \<Longrightarrow> R s s2"
    and rel_world: "R s (s\<lparr>x_world := w\<rparr>)"
    and active_law: "if_returns (active_op P now i pdu s) (\<lambda>(pdu', s'). R s s')"
begin

lemma active_loop_rel: "if_returns (active_loop P now i n pdu s) (R s)"
proof (induction n arbitrary: i pdu s)
  case (Suc n)
  show ?case
    by (auto intro!: if_returnsI dest!: if_returnsD [OF Suc.IH] if_returnsD [OF active_law] intro: rel_trans)
qed (simp add: rel_refl)

lemma now_rel: "R s (snd (now_of P s))"
  by (simp add: now_of_def rel_world split: prod.splits)

lemma process_active_ops_rel: "if_returns (exo_process_active_ops P count s) (R s)"
  unfolding exo_process_active_ops_def split_beta Let_def
  using active_loop_rel by (rule if_returns_mono) (rule rel_trans [OF now_rel])

end

locale engine_rel = pass_rel +
  assumes match_law: "if_returns (match_op P pdu i s) (\<lambda>(hit, s'). R s s')"
    and rst_law: "if_returns (reply_rst P pdu s) (R s)"
    and activation_law: "if_returns (need_activation P s) (R s)"
begin

lemma match_ops_rel: "if_returns (match_ops P pdu i n s) (\<lambda>(hit, s'). R s s')"
proof (induction n arbitrary: i s)
  case (Suc n)
  show ?case
    by (auto intro!: if_returnsI dest!: if_returnsD [OF Suc.IH] if_returnsD [OF match_law]
        intro: rel_trans split: if_splits)
qed (simp add: rel_refl)

lemma recv_loop_rel: "if_returns (recv_loop P count pdu s) (R s)"
proof (rule if_returnsI)
  fix s' assume loop: "recv_loop P count pdu s = Some s'"
  have "fst (fst (fst (((P, count), pdu), s))) = P \<longrightarrow> R (snd (((P, count), pdu), s)) s'"
  proof (rule recv_loop.raw_induct [where Pa = "\<lambda>a s'. fst (fst (fst a)) = P \<longrightarrow> R (snd a) s'", OF _ loop],
      unfold fst_conv snd_conv, intro impI, goal_cases)
    case (1 loop Q count pdu s s')
    obtain rc buf len w where r: "exopal_udp_recv P (pdu_buf pdu) (pdu_max pdu) (pdu_len pdu) (x_world s) =
        (rc, buf, len, w)"
      by (metis prod_cases4)
    note run = 1(2) [unfolded 1(3)]
    have IH: "R t t'" if "loop P c p t = Some t'" for c p t t'
      using 1(1) that by blast
    show ?case
    proof (cases "rc = 0")
      case True
      with run r obtain err pdu' where v: "coap_validate_pkt (pdu\<lparr>pdu_buf := buf, pdu_len := len\<rparr>) = Some (err, pdu')"
        by (auto simp: bind_eq_Some_conv)
      show ?thesis
      proof (cases "err = CE_NONE")
        case True
        with \<open>rc = 0\<close> v run r obtain hit s1 where hit: "match_ops P pdu' 0 count (s\<lparr>x_world := w\<rparr>) = Some (hit, s1)"
          "(if hit then loop P count pdu' s1 else reply_rst P pdu' s1) = Some s'"
          by (auto simp: bind_eq_Some_conv)
        have "R s s1"
          using if_returnsD [OF match_ops_rel hit(1)] rel_trans [OF rel_world] by simp
        moreover have "R s1 s'"
          using hit(2) IH if_returnsD [OF rst_law, of pdu' s1 s'] by (cases hit) auto
        ultimately show ?thesis by (rule rel_trans)
      next
        case False
        then have "loop P count pdu' (s\<lparr>x_world := w\<rparr>) = Some s'"
          using \<open>rc = 0\<close> v run r by simp
        then have "R (s\<lparr>x_world := w\<rparr>) s'" by (rule IH)
        then show ?thesis by (rule rel_trans [OF rel_world])
      qed
    qed (use run r in \<open>auto simp: rel_world\<close>)
  qed
  then show "R s s'" by simp
qed

lemma operate_rel:
  assumes "exo_operate P count s = Some (r, s')"
  shows "R s s'"
proof (cases "lib_device (x_lib s) = EXO_STATE_UNINITIALIZED")
  case False
  then obtain s1 s2 where s: "s1 = s \<or> need_activation P s = Some s1"
    "recv_loop P (unat count) (local_pdu P s1) s1 = Some s2"
    "exo_process_active_ops P (unat count) s2 = Some s'"
    using assms
    by (auto simp: exo_operate_def exo_process_waiting_datagrams_def bind_eq_Some_conv split: if_splits)
  have "R s s1" using s(1) if_returnsD [OF activation_law] rel_refl by blast
  from rel_trans [OF rel_trans [OF this if_returnsD [OF recv_loop_rel s(2)]]
      if_returnsD [OF process_active_ops_rel s(3)]] show ?thesis .
qed (use assms in \<open>simp add: exo_operate_def rel_refl\<close>)

end


section \<open>State updates\<close>

lemma if_returns_op [simp]:
  "if_returns (get_op i s) Q \<longleftrightarrow> (i < length (x_ops s) \<longrightarrow> Q (x_ops s ! i))"
  "if_returns (upd_op i f s) R \<longleftrightarrow>
     (i < length (x_ops s) \<longrightarrow> R (s\<lparr>x_ops := (x_ops s)[i := f (x_ops s ! i)]\<rparr>))"
  by (auto simp: if_returns_def get_op_def upd_op_def nth_opt_def)

lemma ops_of_world [simp]:
  "x_ops (snd (now_of P s)) = x_ops s" "x_ops (snd (rand_of P s)) = x_ops s"
  "x_ops (snd (expiry P age s)) = x_ops s"
  by (simp_all add: now_of_def rand_of_def expiry_def split: prod.splits)

lemma if_returns_send_pdu:
  "(\<And>rc s'. x_ops s' = x_ops s \<Longrightarrow> Q (rc, s')) \<Longrightarrow> if_returns (send_pdu P pdu s) Q"
  by (auto simp: send_pdu_def split_beta Let_def intro!: if_returnsI)

lemma if_returns_build_for:
  "(\<And>pdu' s'. x_ops s' = x_ops s \<Longrightarrow> Q (pdu', s')) \<Longrightarrow> if_returns (build_for P b pdu s) Q"
  by (auto simp: build_for_def split_beta Let_def intro!: if_returnsI)

lemma exo_op_init_state [simp]: "exo_op_init (op\<lparr>op_state := st\<rparr>) = exo_op_init op"
  by (simp add: exo_op_init_def)

abbreviation steps_from :: "'w exo \<Rightarrow> 'w exo \<Rightarrow> bool" where
  "steps_from s s' \<equiv> all_steps (x_ops s) (x_ops s')"


section \<open>Received datagrams\<close>

lemma notified_same_seq:
  assumes "op_state op = EXO_REQUEST_SUBSCRIBED"
  shows "op_step i op (op\<lparr>op_mid := m, op_state := EXO_REQUEST_SUB_ACK, op_timeout := t\<rparr>)"
  using notified [OF assms, of EXO_REQUEST_SUB_ACK i t "op_obs_seq op" m] by simp

lemma notified_new_seq:
  assumes "op_state op = EXO_REQUEST_SUBSCRIBED"
  shows "op_step i op (op\<lparr>op_mid := m, op_state := EXO_REQUEST_SUB_ACK_NEW, op_obs_seq := q, op_timeout := t\<rparr>)"
  using notified [OF assms, of EXO_REQUEST_SUB_ACK_NEW i t q m] by simp


lemma handle_notification_steps:
  assumes "op_state (x_ops s ! i) = EXO_REQUEST_SUBSCRIBED"
  shows "if_returns (handle_notification P pdu i s) (\<lambda>s'. all_steps (x_ops s) (x_ops s'))"
  using assms
  by (auto simp: handle_notification_def Let_def set_state_def split_beta split: stored.split
      intro!: if_returnsI all_steps_update failed notified_same_seq notified_new_seq)

lemma handle_ack_success_steps:
  assumes "op_state (x_ops s ! i) = EXO_REQUEST_PENDING"
  shows "if_returns (handle_ack_success P pdu i s) (\<lambda>(hit, s'). all_steps (x_ops s) (x_ops s'))"
  using assms
  by (auto simp: handle_ack_success_def Let_def set_state_def
      split_beta split: stored.split exo_request_type.split
      intro!: if_returnsI all_steps_update answered subscribed failed activated)


lemma activate_steps:
  "all_steps ops (ops'[0 := exo_activate (ops' ! 0)])" if "all_steps ops ops'" for ops
proof (cases "ops' = []")
  case False
  then show ?thesis
    using all_steps_trans [OF that all_steps_update [OF _ taken]] by simp
qed (use that in simp)

lemma handle_ack_failure_steps:
  assumes "op_state (x_ops s ! i) = EXO_REQUEST_PENDING"
  shows "if_returns (handle_ack_failure P pdu i s) (steps_from s)"
  using assms
  by (auto simp: handle_ack_failure_def Let_def set_state_def split_beta
      intro!: if_returnsI activate_steps all_steps_update failed)

lemma match_op_steps: "if_returns (match_op P pdu i s) (\<lambda>(hit, s'). steps_from s s')"
  using handle_notification_steps [of s i P pdu] handle_ack_failure_steps [of s i P pdu]
    handle_ack_success_steps [of s i P pdu]
  by (auto simp: match_op_def set_state_def split_beta intro!: if_returnsI all_steps_update failed
      dest: if_returnsD)

lemma reply_rst_steps: "if_returns (reply_rst P pdu s) (steps_from s)"
  by (auto simp: reply_rst_def split_beta intro!: if_returnsI if_returns_send_pdu)


section \<open>Requests, retransmissions and acknowledgements\<close>

lemma null_type_again: "op_type op = EXO_NULL \<Longrightarrow> op\<lparr>op_type := EXO_NULL\<rparr> = op"
  by (cases op) simp

lemma send_new_steps:
  assumes "op_state (x_ops s ! i) = EXO_REQUEST_NEW"
  shows "if_returns (send_new P i (x_ops s ! i) pdu s) (\<lambda>(pdu', s'). steps_from s s')"
  using assms
  by (auto simp: send_new_def split_beta Let_def null_type_again
      intro!: if_returnsI if_returns_send_pdu if_returns_build_for all_steps_update sent)

lemma retransmit_steps:
  assumes "op_state (x_ops s ! i) \<in> {EXO_REQUEST_PENDING, EXO_REQUEST_SUBSCRIBED}"
    "op_type (x_ops s ! i) \<in> {EXO_READ, EXO_WRITE, EXO_ACTIVATE}"
    "op_retries (x_ops s ! i) < COAP_MAX_RETRANSMIT"
  shows "if_returns (retransmit P i (x_ops s ! i) pdu s) (\<lambda>(pdu', s'). steps_from s s')"
  using assms(3) repeated [OF assms]
  by (auto simp: retransmit_def split_beta Let_def
      intro!: if_returnsI if_returns_send_pdu if_returns_build_for all_steps_update)

lemma check_timeout_steps:
  assumes "op_state (x_ops s ! i) \<in> {EXO_REQUEST_PENDING, EXO_REQUEST_SUBSCRIBED}"
  shows "if_returns (check_timeout P now i (x_ops s ! i) pdu s) (\<lambda>(pdu', s'). steps_from s s')"
  using assms
  by (auto simp: check_timeout_def set_state_def
      intro!: retransmit_steps all_steps_update failed renewed)

lemma send_ack_steps:
  assumes "op_state (x_ops s ! i) \<in> {EXO_REQUEST_SUB_ACK, EXO_REQUEST_SUB_ACK_NEW}"
  shows "if_returns (send_ack P i (x_ops s ! i) pdu s) (\<lambda>(pdu', s'). steps_from s s')"
  using assms
  by (auto simp: send_ack_def set_state_def split_beta
      intro!: if_returnsI if_returns_send_pdu all_steps_update confirmed confirmed_new)

lemma active_op_steps: "if_returns (active_op P now i pdu s) (\<lambda>(pdu', s'). steps_from s s')"
  using send_new_steps [of s i P pdu] check_timeout_steps [of s i P now pdu] send_ack_steps [of s i P pdu]
  by (simp add: active_op_def split: exo_request_state.split)

lemma need_activation_steps: "if_returns (need_activation P s) (steps_from s)"
  by (auto simp: need_activation_def split_beta Let_def intro: activate_steps)

interpretation steps: engine_rel P steps_from for P
  by unfold_locales
    (auto intro: all_steps_trans match_op_steps reply_rst_steps active_op_steps need_activation_steps)

lemmas operate_steps = steps.operate_rel


section \<open>Invariants of the state machine\<close>

text \<open>
  What holds of every operation: it is retransmitted at most \<open>COAP_MAX_RETRANSMIT\<close> times, its token
  length is never set, and the states of a subscription belong to subscriptions.
\<close>

definition subscription_state :: "exo_request_state \<Rightarrow> bool" where
  "subscription_state st \<longleftrightarrow>
     st \<in> {EXO_REQUEST_SUBSCRIBED, EXO_REQUEST_SUB_ACK, EXO_REQUEST_SUB_ACK_NEW}"

definition op_inv :: "exo_op \<Rightarrow> bool" where
  "op_inv op \<longleftrightarrow> op_retries op \<le> COAP_MAX_RETRANSMIT \<and> op_tkl op = 0 \<and>
     (subscription_state (op_state op) \<longrightarrow> op_type op = EXO_SUBSCRIBE) \<and>
     (op_type op = EXO_NULL \<longrightarrow> op_state op = EXO_REQUEST_NULL)"

lemmas op_calls = exo_read_def exo_write_def exo_subscribe_def exo_activate_def exo_op_init_def

lemma op_inv_calls:
  "op_inv (exo_op_init op)" "op_inv op \<Longrightarrow> op_inv (exo_activate op)"
  "op_inv op \<Longrightarrow> op_inv (exo_read a v n op)" "op_inv op \<Longrightarrow> op_inv (exo_write a v op)"
  "op_inv op \<Longrightarrow> op_inv (exo_subscribe a v n op)"
  by (simp_all add: op_inv_def op_calls subscription_state_def)

lemma op_inv_done: "op_inv op \<Longrightarrow> op_inv (exo_op_done op)"
  by (cases "op_type op = EXO_SUBSCRIBE")
    (simp_all add: exo_op_done_def exo_is_op_subscribe_def op_inv_calls,
      simp add: op_inv_def subscription_state_def)

lemma op_step_retries:
  "op_step i op op' \<Longrightarrow> op_retries op \<le> COAP_MAX_RETRANSMIT \<Longrightarrow> op_retries op' \<le> COAP_MAX_RETRANSMIT"
  by (induction rule: op_step.induct) (simp_all add: op_calls inc_le)

lemma op_step_tkl: "op_step i op op' \<Longrightarrow> op_tkl op = 0 \<Longrightarrow> op_tkl op' = 0"
  by (induction rule: op_step.induct) (simp_all add: op_calls)

lemma op_step_subscription:
  "op_step i op op' \<Longrightarrow> subscription_state (op_state op) \<longrightarrow> op_type op = EXO_SUBSCRIBE \<Longrightarrow>
     subscription_state (op_state op') \<longrightarrow> op_type op' = EXO_SUBSCRIBE"
  by (induction rule: op_step.induct) (simp_all add: op_calls subscription_state_def)

lemma op_step_null:
  "op_step i op op' \<Longrightarrow> op_type op = EXO_NULL \<longrightarrow> op_state op = EXO_REQUEST_NULL \<Longrightarrow>
     op_type op' = EXO_NULL \<longrightarrow> op_state op' = EXO_REQUEST_NULL"
  by (induction rule: op_step.induct) (auto simp: op_calls)

lemma op_step_inv: "op_step i op op' \<Longrightarrow> op_inv op \<Longrightarrow> op_inv op'"
  using op_step_retries op_step_tkl op_step_subscription op_step_null by (simp add: op_inv_def)

lemma op_steps_inv: "op_steps i op op' \<Longrightarrow> op_inv op \<Longrightarrow> op_inv op'"
  by (induction rule: rtranclp_induct) (auto intro: op_step_inv)

lemma all_steps_inv: "all_steps ops ops' \<Longrightarrow> \<forall>op \<in> set ops. op_inv op \<Longrightarrow> \<forall>op \<in> set ops'. op_inv op"
  by (simp add: all_steps_def all_set_conv_all_nth) (blast intro: op_steps_inv)

text \<open>A finished operation, or a free one, is left alone until the application takes it back.\<close>

definition at_rest :: "exo_op \<Rightarrow> bool" where
  "at_rest op \<longleftrightarrow> op_state op \<in> {EXO_REQUEST_NULL, EXO_REQUEST_SUCCESS, EXO_REQUEST_ERROR}"

lemma op_step_at_rest: "op_step i op op' \<Longrightarrow> at_rest op \<Longrightarrow> i = 0"
  by (induction rule: op_step.induct) (auto simp: at_rest_def)

lemma op_steps_at_rest: "op_steps i op op' \<Longrightarrow> at_rest op \<Longrightarrow> i \<noteq> 0 \<Longrightarrow> op' = op"
  by (induction rule: rtranclp_induct) (auto dest: op_step_at_rest)

text \<open>Apart from activations, the library never changes what an operation is for.\<close>

lemma op_step_purpose:
  "op_step i op op' \<Longrightarrow> i \<noteq> 0 \<Longrightarrow> op_type op \<noteq> EXO_ACTIVATE \<Longrightarrow>
     op_type op' = op_type op \<and> op_alias op' = op_alias op \<and> op_value op' = op_value op \<and>
     op_value_max op' = op_value_max op"
  by (induction rule: op_step.induct) auto

lemma op_steps_purpose:
  "op_steps i op op' \<Longrightarrow> i \<noteq> 0 \<Longrightarrow> op_type op \<noteq> EXO_ACTIVATE \<Longrightarrow>
     op_type op' = op_type op \<and> op_alias op' = op_alias op \<and> op_value op' = op_value op \<and>
     op_value_max op' = op_value_max op"
  by (induction rule: rtranclp_induct) (auto dest!: op_step_purpose)

lemma op_step_types: "op_step i op op' \<Longrightarrow> op_type op' \<in> {op_type op, EXO_ACTIVATE, EXO_NULL}"
  by (induction rule: op_step.induct) (auto simp: op_calls)

lemma op_steps_types: "op_steps i op op' \<Longrightarrow> op_type op' \<in> {op_type op, EXO_ACTIVATE, EXO_NULL}"
  by (induction rule: rtranclp_induct) (auto dest!: op_step_types)

end
