(* ===== verification/Exo_Safety.thy ===== *)
theory Exo_Safety
  imports Exo_Steps
begin

text \<open>
  What the engine needs of the application's memory and of the messages it receives, and that
  then every call returns: no access leaves its object, and no loop runs forever.
\<close>

section \<open>Well-formed states\<close>

definition str_ok :: "heap \<Rightarrow> cptr \<Rightarrow> bool" where
  "str_ok h p \<longleftrightarrow>
     (case hload h p of None \<Rightarrow> False | Some blk \<Rightarrow> 0 \<in> set blk \<and> length blk < size_max div 2)"

definition buffer_ok :: "heap \<Rightarrow> exo_op \<Rightarrow> bool" where
  "buffer_ok h op \<longleftrightarrow>
     (case hload h (op_value op) of
        None \<Rightarrow> False | Some blk \<Rightarrow> 0 < length blk \<and> op_value_max op \<le> length blk \<and> length blk < size_max div 2)"

definition op_mem :: "heap \<Rightarrow> exo_op \<Rightarrow> bool" where
  "op_mem h op \<longleftrightarrow>
     (case op_type op of
        EXO_READ \<Rightarrow> str_ok h (op_alias op) \<and> buffer_ok h op
      | EXO_SUBSCRIBE \<Rightarrow> str_ok h (op_alias op) \<and> buffer_ok h op
      | EXO_WRITE \<Rightarrow> str_ok h (op_alias op) \<and> str_ok h (op_value op)
      | _ \<Rightarrow> True)"

definition lib_ok :: "heap \<Rightarrow> exo_lib \<Rightarrow> bool" where
  "lib_ok h lib \<longleftrightarrow> length (lib_cik lib) = CIK_LENGTH + 1 \<and>
     str_ok h (lib_vendor lib) \<and> str_ok h (lib_model lib) \<and> str_ok h (lib_serial lib)"

definition state_ok :: "'w exo \<Rightarrow> bool" where
  "state_ok s \<longleftrightarrow> lib_ok (x_heap s) (x_lib s) \<and> 
     (\<forall>op \<in> set (x_ops s). op_inv op \<and> op_mem (x_heap s) op)"

text \<open>What storing a value keeps of the heap: sizes, and that a block holds a string.\<close>

definition heap_kept :: "heap \<Rightarrow> heap \<Rightarrow> bool" where
  "heap_kept h h' \<longleftrightarrow> (\<forall>a blk. h a = Some blk \<longrightarrow>
     (\<exists>blk'. h' a = Some blk' \<and> length blk' = length blk \<and> (0 \<in> set blk \<longrightarrow> 0 \<in> set blk')))"

lemma heap_kept_refl [simp]: "heap_kept h h"
  by (simp add: heap_kept_def)

lemma heap_kept_update:
  "h a = Some blk \<Longrightarrow> length blk' = length blk \<Longrightarrow> 0 \<in> set blk' \<Longrightarrow> heap_kept h (h(a \<mapsto> blk'))"
  by (auto simp: heap_kept_def)

lemma heap_kept_load:
  "heap_kept h h' \<Longrightarrow> hload h p = Some blk \<Longrightarrow>
     \<exists>blk'. hload h' p = Some blk' \<and> length blk' = length blk \<and> (0 \<in> set blk \<longrightarrow> 0 \<in> set blk')"
  by (auto simp: heap_kept_def hload_def bind_eq_Some_conv)

lemma str_ok_kept: "heap_kept h h' \<Longrightarrow> str_ok h p \<Longrightarrow> str_ok h' p"
  by (auto simp: str_ok_def split: option.splits dest: heap_kept_load)

lemma buffer_ok_kept: "heap_kept h h' \<Longrightarrow> buffer_ok h op \<Longrightarrow> buffer_ok h' op"
  by (auto simp: buffer_ok_def split: option.splits dest: heap_kept_load)

lemma op_mem_kept: "heap_kept h h' \<Longrightarrow> op_mem h op \<Longrightarrow> op_mem h' op"
  by (auto simp: op_mem_def str_ok_kept buffer_ok_kept split: exo_request_type.splits)

lemma lib_ok_kept: "heap_kept h h' \<Longrightarrow> lib_ok h lib \<Longrightarrow> lib_ok h' lib"
  by (auto simp: lib_ok_def str_ok_kept)

lemma buffer_okE:
  assumes "buffer_ok h op"
  obtains a blk where "op_value op = Some a" "h a = Some blk" "0 < length blk"
    "op_value_max op \<le> length blk" "length blk < size_max div 2"
  using assms by (auto simp: buffer_ok_def hload_def split: option.splits simp: bind_eq_Some_conv)


section \<open>Storing a value\<close>

text \<open>What the application's buffer holds after a payload \<open>p\<close> was stored.\<close>

definition stored_block :: "bytes \<Rightarrow> bytes \<Rightarrow> bytes" where
  "stored_block p blk = p @ 0 # drop (length p + 1) blk"

lemma stored_block_props:
  "length p < length blk \<Longrightarrow> length (stored_block p blk) = length blk"
  "0 \<in> set (stored_block p blk)"
  by (simp_all add: stored_block_def)

lemma hstore_nul:
  assumes "h a = Some blk" "length p < length blk"
  shows "hstore h (Some a) 0 p = Some (h(a \<mapsto> p @ drop (length p) blk))"
    and "hstore (h(a \<mapsto> p @ drop (length p) blk)) (Some a) (length p) [0] = Some (h(a \<mapsto> stored_block p blk))"
  using assms by (simp_all add: hstore_Some stored_block_def)

lemma store_value_correct:
  assumes "represents pdu m" "coap_get_payload pdu = Some payload" "op_value op = Some a" "h a = Some blk"
    "0 < length blk" "op_value_max op \<le> length blk" "length blk < size_max div 2"
    and p_def: "p = (case m_payload m of None \<Rightarrow> [] | Some p \<Rightarrow> p)"
  shows "store_value pdu payload op h = Some
     (if p = [] then (StoredEmpty, h(a \<mapsto> stored_block [] blk))
      else if op_value_max op \<le> length p then (StoredTooBig, h)
      else (StoredValue, h(a \<mapsto> stored_block p blk)))"
proof (cases "p = []")
  case True
  then have "pl_len payload = 0"
    using get_payload_represents(1) [OF assms(1)] assms(2) p_def by (auto split: option.splits)
  then show ?thesis
    using True hstore_Some [of h a blk 0 "[0]"] assms(3-5)
    by (simp add: store_value_def stored_block_def Suc_le_eq)
next
  case False
  then obtain q where q: "m_payload m = Some p" "payload = \<lparr>pl_len = length p, pl_val = Buf q\<rparr>"
    "mem_read (pdu_buf pdu) q (length p) = Some p"
    using get_payload_represents [OF assms(1)] assms(2) p_def by (auto split: option.splits)
  have "length p \<le> pdu_len pdu"
    using represents_len [OF assms(1)] q(1) by (simp add: encode_msg_def)
  then have "Suc (length p) < size_max"
    using assms(1) by (auto simp: represents_def wf_mem_def size_max_def)
  then have "add64 (length p) 1 = Suc (length p)"
    by (simp add: add64_def)
  then show ?thesis
    using False q hstore_nul [of h a blk p] assms(3-7) by (simp add: store_value_def)
qed

lemma store_value_safe:
  assumes "represents pdu m" "buffer_ok h op" "coap_get_payload pdu = Some payload"
  shows "returns (store_value pdu payload op h) (\<lambda>(out, h'). heap_kept h h')"
proof -
  obtain a blk where b: "op_value op = Some a" "h a = Some blk" "0 < length blk"
    "op_value_max op \<le> length blk" "length blk < size_max div 2"
    using assms(2) by (rule buffer_okE)
  show ?thesis
    unfolding store_value_correct [of pdu m payload op a h blk, OF assms(1,3) b refl]
    using b by (auto intro!: heap_kept_update [of h a blk] simp: stored_block_props)
qed



section \<open>What a run keeps\<close>

text \<open>
  \<open>frame net s s'\<close>: from \<open>s\<close> to \<open>s'\<close> the blocks of the heap kept their sizes and strings, the
  identity of the device stayed, and so did what \<open>net\<close> shows of the world.
\<close>

definition frame :: "('w \<Rightarrow> 'a) \<Rightarrow> 'w exo \<Rightarrow> 'w exo \<Rightarrow> bool" where
  "frame net s s' \<longleftrightarrow>
     heap_kept (x_heap s) (x_heap s') \<and>
     length (lib_cik (x_lib s')) = length (lib_cik (x_lib s)) \<and>
     lib_vendor (x_lib s') = lib_vendor (x_lib s) \<and> lib_model (x_lib s') = lib_model (x_lib s) \<and>
     lib_serial (x_lib s') = lib_serial (x_lib s) \<and> net (x_world s') = net (x_world s)"

lemma heap_kept_trans: "heap_kept h h' \<Longrightarrow> heap_kept h' h'' \<Longrightarrow> heap_kept h h''"
  unfolding heap_kept_def by metis

lemma frame_refl [simp]: "frame net s s"
  by (simp add: frame_def)

lemma frame_trans: "frame net s s' \<Longrightarrow> frame net s' s'' \<Longrightarrow> frame net s s''"
  by (auto simp: frame_def intro: heap_kept_trans)

lemma op_mem_simps [simp]:
  "op_mem h (op\<lparr>op_state := st\<rparr>) = op_mem h op" "op_mem h (op\<lparr>op_timeout := t\<rparr>) = op_mem h op"
  "op_mem h (op\<lparr>op_mid := m\<rparr>) = op_mem h op" "op_mem h (op\<lparr>op_obs_seq := q\<rparr>) = op_mem h op"
  "op_mem h (op\<lparr>op_token := k\<rparr>) = op_mem h op" "op_mem h (op\<lparr>op_retries := r\<rparr>) = op_mem h op"
  "op_mem h (exo_activate op)" "op_mem h (exo_op_init op)"
  by (simp_all add: op_mem_def buffer_ok_def op_calls split: exo_request_type.split option.split)

lemma op_step_mem: "op_step i op op' \<Longrightarrow> op_mem h op \<Longrightarrow> op_mem h op'"
  by (induction rule: op_step.induct) simp_all

lemma op_steps_mem: "op_steps i op op' \<Longrightarrow> op_mem h op \<Longrightarrow> op_mem h op'"
  by (induction rule: rtranclp_induct) (auto intro: op_step_mem)

lemma state_ok_frame:
  assumes "state_ok s" "frame net s s'" "steps_from s s'"
  shows "state_ok s'"
proof -
  have "op_inv (x_ops s' ! i)" "op_mem (x_heap s') (x_ops s' ! i)" if "i < length (x_ops s')" for i
    using that assms op_steps_inv op_steps_mem op_mem_kept
    by (auto simp: state_ok_def frame_def all_steps_def all_set_conv_all_nth)
  moreover have "lib_ok (x_heap s') (x_lib s')"
    using assms lib_ok_kept by (auto simp: state_ok_def frame_def lib_ok_def str_ok_kept)
  ultimately show ?thesis
    by (simp add: state_ok_def all_set_conv_all_nth)
qed

definition evolves :: "('w \<Rightarrow> 'a) \<Rightarrow> 'w exo \<Rightarrow> 'w exo \<Rightarrow> bool" where
  "evolves net s s' \<longleftrightarrow> frame net s s' \<and> steps_from s s'"

lemma evolves_refl [simp]: "evolves net s s"
  by (simp add: evolves_def)

lemma evolves_trans: "evolves net s s' \<Longrightarrow> evolves net s' s'' \<Longrightarrow> evolves net s s''"
  unfolding evolves_def by (blast intro: frame_trans all_steps_trans)

lemma evolves_state_ok: "evolves net s s' \<Longrightarrow> state_ok s \<Longrightarrow> state_ok s'"
  unfolding evolves_def by (blast intro: state_ok_frame)

lemma evolves_length: "evolves net s s' \<Longrightarrow> length (x_ops s') = length (x_ops s)"
  by (simp add: evolves_def all_steps_def)

lemma returns_conj: "returns r Q \<Longrightarrow> if_returns r R \<Longrightarrow> returns r (\<lambda>x. Q x \<and> R x)"
  by (auto simp: returns_def if_returns_def)

lemma returns_op [simp]:
  "returns (get_op i s) Q \<longleftrightarrow> i < length (x_ops s) \<and> Q (x_ops s ! i)"
  "returns (upd_op i f s) R \<longleftrightarrow>
     i < length (x_ops s) \<and> R (s\<lparr>x_ops := (x_ops s)[i := f (x_ops s ! i)]\<rparr>)"
  by (auto simp: returns_def get_op_def upd_op_def nth_opt_def)



section \<open>Options of a received message\<close>

text \<open>What the decoding loop computes from the bytes of an Observe option, from byte \<open>j\<close> on.\<close>

fun obs_fold :: "nat \<Rightarrow> bytes \<Rightarrow> u32 \<Rightarrow> u32" where
  "obs_fold j [] seq = seq"
| "obs_fold j (b # bs) seq = obs_fold (Suc j) bs (push_bit (8 * j) seq OR ucast b)"

lemma obs_seq_loop_found:
  assumes "opt_val opt = Buf q" "mem_read buf q (opt_len opt) = Some v" "opt_len opt \<le> 4" "j \<le> opt_len opt"
  shows "obs_seq_loop buf opt j seq = Some (obs_fold j (drop j v) seq)"
  using assms(4)
proof (induction "opt_len opt - j" arbitrary: j seq)
  case 0
  then show ?case
    using assms(2) by (subst obs_seq_loop.simps) (auto simp: mem_read_def split: if_splits)
next
  case (Suc n)
  have v: "length v = opt_len opt" "q + opt_len opt \<le> length buf" "v = take (opt_len opt) (drop q buf)"
    using assms(2) by (auto simp: mem_read_def split: if_splits)
  have j: "j < opt_len opt" using Suc.hyps(2) by simp
  then have d: "drop j v = v ! j # drop (Suc j) v"
    using v(1) by (simp add: Cons_nth_drop_Suc)
  have "rd buf (q + j) = Some (v ! j)"
    using v j by (simp add: rd_def)
  moreover have "obs_seq_loop buf opt (Suc j) s = Some (obs_fold (Suc j) (drop (Suc j) v) s)" for s
    using Suc j by simp
  ultimately show ?case
    using j assms(1,3) d by (subst obs_seq_loop.simps) simp
qed

definition observe_ok :: "coap_msg \<Rightarrow> bool" where
  "observe_ok m \<longleftrightarrow>
     (case hits (con_val CON_OBSERVE) (m_opts m) of [] \<Rightarrow> False | v # vs \<Rightarrow> length v \<le> 4)"

definition observe_bytes :: "coap_msg \<Rightarrow> bytes" where
  "observe_bytes m = hd (hits (con_val CON_OBSERVE) (m_opts m))"

lemma observe_seq:
  assumes "represents pdu m" "observe_ok m"
  shows "\<exists>opt. coap_get_option_by_num pdu CON_OBSERVE 0 = Some opt \<and>
     (\<forall>seq. obs_seq_loop (pdu_buf pdu) opt 0 seq = Some (obs_fold 0 (observe_bytes m) seq))"
proof -
  obtain v vs where v: "hits (con_val CON_OBSERVE) (m_opts m) = v # vs" "length v \<le> 4"
    using assms(2) by (auto simp: observe_ok_def split: list.splits simp del: con_val.simps)
  from get_option_by_num_represents [OF assms(1), of 0 CON_OBSERVE]
  obtain opt where opt: "coap_get_option_by_num pdu CON_OBSERVE 0 = Some opt"
    "found_option pdu opt (con_val CON_OBSERVE) v"
    unfolding v(1) by (auto simp: unsigned_0 simp del: con_val.simps)
  then show ?thesis
    using v obs_seq_loop_found [of opt _ "pdu_buf pdu" v 0]
    by (auto simp: found_option_def observe_bytes_def simp del: con_val.simps)
qed

definition msg_max_age :: "coap_msg \<Rightarrow> u8" where
  "msg_max_age m =
     (case hits (con_val CON_MAX_AGE) (m_opts m) of [b] # vs \<Rightarrow> b | _ \<Rightarrow> 120)"

lemma max_age_correct:
  assumes "represents pdu m"
  shows "\<exists>opt. coap_get_option_by_num pdu CON_MAX_AGE 0 = Some opt \<and> max_age pdu opt = Some (msg_max_age m)"
proof -
  from get_option_by_num_represents [OF assms, of 0 CON_MAX_AGE]
  obtain opt where opt: "coap_get_option_by_num pdu CON_MAX_AGE 0 = Some opt"
    "search_result pdu opt (con_val CON_MAX_AGE) (hits (con_val CON_MAX_AGE) (m_opts m)) 0"
    by (auto simp: unsigned_0 simp del: con_val.simps)
  show ?thesis
  proof (cases "hits (con_val CON_MAX_AGE) (m_opts m)")
    case Nil
    with opt show ?thesis by (auto simp: max_age_def msg_max_age_def simp del: con_val.simps)
  next
    case (Cons v vs)
    then obtain q where "opt_num opt = of_nat (con_val CON_MAX_AGE)" "opt_len opt = length v"
      "opt_val opt = Buf q" "mem_read (pdu_buf pdu) q (length v) = Some v"
      using opt(2) by (auto simp: found_option_def simp del: con_val.simps)
    moreover have "rd (pdu_buf pdu) q = Some b" if "mem_read (pdu_buf pdu) q 1 = Some [b]" for b
      using that by (auto simp: mem_read_def rd_def split: if_splits simp: take_Suc_conv_app_nth)
    ultimately show ?thesis
      using opt(1) Cons
      by (cases v rule: list.exhaust)
        (auto simp: max_age_def msg_max_age_def length_Suc_conv split: list.splits)
  qed
qed



section \<open>Handling a received message\<close>

text \<open>
  A subscription takes this message for its answer or for a notification, and reads its Observe option. A message is fit for
  a list of operations when it carries a readable Observe option, or no subscription among them reads it. (Without that
  option the sequence number may be read through a NULL pointer.)
\<close>

definition reads_observe :: "coap_msg \<Rightarrow> exo_op \<Rightarrow> bool" where
  "reads_observe m op \<longleftrightarrow> op_type op = EXO_SUBSCRIBE \<and>
     (case m_type m of
        CT_ACK \<Rightarrow> op_state op = EXO_REQUEST_PENDING \<and> op_mid op = m_mid m \<and> drop_bit 5 (m_code m) = 2
      | CT_RST \<Rightarrow> False
      | _ \<Rightarrow> op_state op = EXO_REQUEST_SUBSCRIBED \<and> op_token op = le_bytes (m_token m) \<and> m_code m = cc_val CC_CONTENT)"

definition fit_for :: "exo_op list \<Rightarrow> coap_msg \<Rightarrow> bool" where
  "fit_for ops m \<longleftrightarrow> observe_ok m \<or> (\<forall>op \<in> set ops. \<not> reads_observe m op)"

text \<open>
  No operation starts to wait for a message while messages are received: each keeps what it is recognised by, or does not wait
  any more.
\<close>

definition settles :: "exo_op \<Rightarrow> exo_op \<Rightarrow> bool" where
  "settles op op' \<longleftrightarrow> op_state op' \<notin> {EXO_REQUEST_PENDING, EXO_REQUEST_SUBSCRIBED} \<or>
     op_type op' = op_type op \<and> op_state op' = op_state op \<and> op_mid op' = op_mid op \<and> op_token op' = op_token op"

definition calmer :: "exo_op list \<Rightarrow> exo_op list \<Rightarrow> bool" where
  "calmer = list_all2 settles"

lemma settles_refl [simp]: "settles op op"
  by (simp add: settles_def)

lemma settles_trans: "settles op op1 \<Longrightarrow> settles op1 op2 \<Longrightarrow> settles op op2"
  by (auto simp: settles_def)

lemma calmer_refl [simp]: "calmer ops ops"
  by (simp add: calmer_def list.rel_refl)

lemma calmer_trans: "calmer ops ops1 \<Longrightarrow> calmer ops1 ops2 \<Longrightarrow> calmer ops ops2"
  unfolding calmer_def by (rule list_all2_trans [where ?P1.0 = settles and ?P2.0 = settles]) (rule settles_trans)

lemma calmer_update: "calmer ops ops' \<Longrightarrow> settles (ops' ! i) op \<Longrightarrow> calmer ops (ops'[i := op])"
proof (rule calmer_trans)
  assume "settles (ops' ! i) op"
  then have "settles (ops' ! j) (ops'[i := op] ! j)" if "j < length ops'" for j
    using that by (cases "i = j") simp_all
  then show "calmer ops' (ops'[i := op])" by (simp add: calmer_def list_all2_conv_all_nth)
qed

lemma settled [simp]: "op_state op' \<notin> {EXO_REQUEST_PENDING, EXO_REQUEST_SUBSCRIBED} \<Longrightarrow> settles op op'"
  by (simp add: settles_def)

lemma settled_calls [simp]: "settles op (exo_activate op')" "settles op (exo_op_init op')"
  by (simp_all add: exo_activate_def exo_op_init_def)

lemma fit_for_calmer: "calmer ops ops' \<Longrightarrow> fit_for ops m \<Longrightarrow> fit_for ops' m"
  by (auto simp: fit_for_def calmer_def list_all2_conv_all_nth all_set_conv_all_nth settles_def reads_observe_def
      split: coap_type.splits)

lemma handle_notification_calmer: "if_returns (handle_notification P pdu i s) (\<lambda>s'. calmer (x_ops s) (x_ops s'))"
  by (auto simp: handle_notification_def Let_def set_state_def split_beta split: stored.split
      intro!: if_returnsI calmer_update)

lemma handle_ack_success_calmer: "if_returns (handle_ack_success P pdu i s) (\<lambda>(hit, s'). calmer (x_ops s) (x_ops s'))"
  by (auto simp: handle_ack_success_def Let_def set_state_def split_beta
      split: stored.split exo_request_type.split intro!: if_returnsI calmer_update)

lemma handle_ack_failure_calmer: "if_returns (handle_ack_failure P pdu i s) (\<lambda>s'. calmer (x_ops s) (x_ops s'))"
  by (auto simp: handle_ack_failure_def Let_def set_state_def split_beta intro!: if_returnsI calmer_update)

lemma match_op_calmer: "if_returns (match_op P pdu i s) (\<lambda>(hit, s'). calmer (x_ops s) (x_ops s'))"
  using handle_notification_calmer [of P pdu i s] handle_ack_failure_calmer [of P pdu i s]
    handle_ack_success_calmer [of P pdu i s]
  by (auto simp: match_op_def set_state_def split_beta intro!: if_returnsI calmer_update dest: if_returnsD)

lemma need_activation_calmer: "if_returns (need_activation P s) (\<lambda>s'. calmer (x_ops s) (x_ops s'))"
  by (auto simp: need_activation_def split_beta Let_def intro: calmer_update)

abbreviation network :: "('w \<Rightarrow> bytes list) \<Rightarrow> ('w \<Rightarrow> bytes list) \<Rightarrow> 'w \<Rightarrow> bytes list \<times> bytes list" where
  "network inq outq w \<equiv> (inq w, outq w)"

lemma get_code_class_represents:
  "represents pdu m \<Longrightarrow> coap_get_code_class pdu = Some (drop_bit 5 (m_code m))"
  by (simp add: coap_get_code_class_def get_code_represents)

lemmas getters = get_type_represents get_code_represents get_mid_represents get_token_represents
  get_code_class_represents

context datagram_pal
begin

lemma net_of_calls:
  "network inq outq (x_world (snd (now_of P s))) = network inq outq (x_world s)"
  "network inq outq (x_world (snd (rand_of P s))) = network inq outq (x_world s)"
  using time_law [of "x_world s"] rand_law [of "x_world s"]
  by (auto simp: now_of_def rand_of_def split: prod.splits)

lemma frame_calls [simp]:
  "frame (network inq outq) s (snd (now_of P s))" "frame (network inq outq) s (snd (rand_of P s))"
  using net_of_calls [of s]
  by (simp_all add: frame_def) (simp_all add: now_of_def rand_of_def split: prod.splits)

lemma frame_expiry: "frame (network inq outq) s s' \<Longrightarrow> frame (network inq outq) s (snd (expiry P age s'))"
  unfolding expiry_def split_beta Let_def snd_conv
  by (rule frame_trans [OF frame_trans [OF _ frame_calls(1)] frame_calls(2)])

lemma frame_ops [simp]: "frame net s (s'\<lparr>x_ops := ops\<rparr>) = frame net s s'"
  "frame net (s\<lparr>x_ops := ops\<rparr>) s' = frame net s s'"
  by (simp_all add: frame_def)

lemma frame_heap: "heap_kept (x_heap s) h \<Longrightarrow> frame net s (s\<lparr>x_heap := h\<rparr>)"
  by (simp add: frame_def)

lemma handle_notification_safe:
  assumes "represents pdu m" "observe_ok m \<or> m_code m \<noteq> cc_val CC_CONTENT" "i < length (x_ops s)"
    "buffer_ok (x_heap s) (x_ops s ! i)"
  shows "returns (handle_notification P pdu i s) (frame (network inq outq) s)"
proof (cases "observe_ok m")
  case False
  with assms show ?thesis
    by (auto simp: handle_notification_def getters [OF assms(1)])
next
  case True
  obtain opt where obs: "coap_get_option_by_num pdu CON_OBSERVE 0 = Some opt"
    "\<And>seq. obs_seq_loop (pdu_buf pdu) opt 0 seq = Some (obs_fold 0 (observe_bytes m) seq)"
    using observe_seq [OF assms(1) True] by blast
  obtain opt' where age: "coap_get_option_by_num pdu CON_MAX_AGE 0 = Some opt'"
    "max_age pdu opt' = Some (msg_max_age m)"
    using max_age_correct [OF assms(1)] by blast
  obtain payload where pl: "coap_get_payload pdu = Some payload"
    using get_payload_represents(1) [OF assms(1)] by blast
  obtain out h' where st: "store_value pdu payload (x_ops s ! i) (x_heap s) = Some (out, h')"
    "heap_kept (x_heap s) h'"
    using store_value_safe [OF assms(1,4) pl] by (auto elim: returnsE)
  show ?thesis
    using assms(3) frame_heap [OF st(2)]
    by (auto simp: handle_notification_def getters [OF assms(1)] obs age pl st(1) split_beta Let_def
        split: stored.split intro!: frame_expiry)
qed

lemma frame_cik:
  assumes "mem_write (lib_cik (x_lib s)) 0 bs = Some cik" "wr cik CIK_LENGTH 0 = Some cik'"
  shows "frame (network inq outq) s
     (s\<lparr>x_ops := ops, x_lib := (x_lib s)\<lparr>lib_cik := cik', lib_device := dev\<rparr>,
        x_world := snd (exopal_store_cik P cik' (x_world s))\<rparr>)"
  using assms store_law [of cik' "x_world s"]
  by (auto simp: frame_def dest!: mem_write_length wr_length split: prod.splits)
    (metis prod.collapse)+

lemma handle_ack_success_safe:
  assumes "represents pdu m" "op_type (x_ops s ! i) = EXO_SUBSCRIBE \<Longrightarrow> observe_ok m" "i < length (x_ops s)" "state_ok s"
  shows "returns (handle_ack_success P pdu i s) (\<lambda>(hit, s'). frame (network inq outq) s s')"
proof -
  let ?op = "x_ops s ! i"
  obtain payload where pl: "coap_get_payload pdu = Some payload"
    using get_payload_represents(1) [OF assms(1)] by blast
  have mem: "op_mem (x_heap s) ?op" and cik: "length (lib_cik (x_lib s)) = CIK_LENGTH + 1"
    using assms(3,4) by (auto simp: state_ok_def lib_ok_def)
  show ?thesis
  proof (cases "op_type ?op")
    case EXO_READ
    then have "buffer_ok (x_heap s) ?op" using mem by (simp add: op_mem_def)
    from store_value_safe [OF assms(1) this pl] obtain out h' where
      "store_value pdu payload ?op (x_heap s) = Some (out, h')" "heap_kept (x_heap s) h'"
      by (auto elim: returnsE)
    then show ?thesis
      using assms(3) EXO_READ frame_heap
      by (auto simp: handle_ack_success_def pl split_beta Let_def split: stored.split)
  next
    case EXO_SUBSCRIBE
    then have "buffer_ok (x_heap s) ?op" using mem by (simp add: op_mem_def)
    from store_value_safe [OF assms(1) this pl] obtain out h' where
      st: "store_value pdu payload ?op (x_heap s) = Some (out, h')" "heap_kept (x_heap s) h'"
      by (auto elim: returnsE)
    have "observe_ok m" using assms(2) EXO_SUBSCRIBE by simp
    from observe_seq [OF assms(1) this] max_age_correct [OF assms(1)] st show ?thesis
      using assms(3) EXO_SUBSCRIBE frame_heap [OF st(2)]
      by (auto simp: handle_ack_success_def pl split_beta Let_def split: stored.split
          intro!: frame_expiry)
  next
    case EXO_ACTIVATE
    show ?thesis
    proof (cases "pl_len payload = CIK_LENGTH")
      case True
      then obtain q bs where "pl_val payload = Buf q" "mem_read (pdu_buf pdu) q CIK_LENGTH = Some bs"
        using pl get_payload_represents [OF assms(1)]
        by (auto simp: CIK_LENGTH_def split: option.splits)
      moreover obtain c c' where "mem_write (lib_cik (x_lib s)) 0 bs = Some c" "wr c CIK_LENGTH 0 = Some c'"
        using cik mem_read_length [OF calculation(2)]
        by (auto simp: mem_write_def wr_def)
      ultimately show ?thesis
        using assms(3) EXO_ACTIVATE pl True frame_cik [where dev = EXO_STATE_GOOD and s = s and bs = bs]
        by (simp add: handle_ack_success_def split_beta Let_def)
    qed (use assms(3) EXO_ACTIVATE pl in \<open>simp add: handle_ack_success_def\<close>)
  qed (use assms(3) in \<open>simp_all add: handle_ack_success_def\<close>)
qed

lemma handle_ack_failure_safe:
  assumes "represents pdu m" "i < length (x_ops s)"
  shows "returns (handle_ack_failure P pdu i s) (frame (network inq outq) s)"
proof -
  have "x_ops s \<noteq> []" using assms(2) by auto
  moreover have "frame (network inq outq) s (s\<lparr>x_ops := ops, x_lib := (x_lib s)\<lparr>lib_device := d\<rparr>\<rparr>)" for ops d
    by (simp add: frame_def)
  moreover have "frame (network inq outq) s (snd (now_of P (s\<lparr>x_ops := ops\<rparr>)))" for ops
    by (rule frame_trans [OF _ frame_calls(1)]) simp
  ultimately show ?thesis
    using assms(2)
    by (simp add: handle_ack_failure_def getters [OF assms(1)] split_beta Let_def set_state_def)
qed

lemma match_op_safe:
  assumes "represents pdu m" "fit_for (x_ops s) m" "i < length (x_ops s)" "state_ok s"
  shows "returns (match_op P pdu i s) (\<lambda>(hit, s'). frame (network inq outq) s s')"
proof -
  have inv: "op_inv (x_ops s ! i)" "op_mem (x_heap s) (x_ops s ! i)"
    using assms(3,4) by (auto simp: state_ok_def)
  have fit: "observe_ok m \<or> \<not> reads_observe m (x_ops s ! i)"
    using assms(2,3) by (auto simp: fit_for_def)
  have "returns (handle_notification P pdu i s) (frame (network inq outq) s)"
    if "op_state (x_ops s ! i) = EXO_REQUEST_SUBSCRIBED" "op_token (x_ops s ! i) = le_bytes (m_token m)"
      "m_type m = CT_CON \<or> m_type m = CT_NON"
    using that inv fit handle_notification_safe [OF assms(1) _ assms(3)]
    by (auto simp: op_inv_def subscription_state_def op_mem_def reads_observe_def)
  moreover have "returns (handle_ack_success P pdu i s) (\<lambda>(hit, s'). frame (network inq outq) s s')"
    if "op_state (x_ops s ! i) = EXO_REQUEST_PENDING" "op_mid (x_ops s ! i) = m_mid m" "m_type m = CT_ACK"
      "drop_bit 5 (m_code m) = 2"
    using that fit by (intro handle_ack_success_safe [OF assms(1) _ assms(3,4)]) (auto simp: reads_observe_def)
  ultimately show ?thesis
    using assms(3) handle_ack_failure_safe [OF assms(1,3)]
    by (cases "m_type m") (auto simp: match_op_def getters [OF assms(1)] set_state_def)
qed

lemma match_op_evolves:
  assumes "represents pdu m" "fit_for (x_ops s) m" "i < length (x_ops s)" "state_ok s"
  shows "returns (match_op P pdu i s) (\<lambda>(hit, s'). evolves (network inq outq) s s' \<and> calmer (x_ops s) (x_ops s'))"
  using returns_conj [OF returns_conj [OF match_op_safe [OF assms] match_op_steps] match_op_calmer]
  by (rule returns_mono) (auto simp: evolves_def)

lemma match_ops_evolves:
  assumes "represents pdu m" "fit_for (x_ops s) m" "i + n \<le> length (x_ops s)" "state_ok s"
  shows "returns (match_ops P pdu i n s) (\<lambda>(hit, s'). evolves (network inq outq) s s' \<and> calmer (x_ops s) (x_ops s'))"
  using assms(2-)
proof (induction n arbitrary: i s)
  case (Suc n)
  have "i < length (x_ops s)" using Suc.prems(2) by simp
  from match_op_evolves [OF assms(1) Suc.prems(1) this Suc.prems(3)] obtain hit s1 where
    s1: "match_op P pdu i s = Some (hit, s1)" "evolves (network inq outq) s s1" "calmer (x_ops s) (x_ops s1)"
    by (auto elim: returnsE)
  have "Suc i + n \<le> length (x_ops s1)"
    using Suc.prems(2) evolves_length [OF s1(2)] by simp
  from Suc.IH [OF fit_for_calmer [OF s1(3) Suc.prems(1)] this evolves_state_ok [OF s1(2) Suc.prems(3)]]
  show ?case
    using s1 by (auto elim!: returns_mono intro: evolves_trans calmer_trans)
qed simp

end

end
