(* ===== verification/Exo_Receive.thy ===== *)
theory Exo_Receive
  imports Exo_Safety
begin

text \<open>
  The receive loop: on a finite queue of datagrams that are messages or are rejected as packets it
  ends, and the functional behaviour of every kind of reply.
\<close>

section \<open>Datagrams\<close>

text \<open>A datagram, cut to the buffer, that is a message fit for the operations, or is rejected.\<close>

definition datagram_ok :: "exo_op list \<Rightarrow> bytes \<Rightarrow> bool" where
  "datagram_ok ops d \<longleftrightarrow>
     (let d = take MINIMUM_DATAGRAM_SIZE d in
      rejected d \<or> (\<exists>m. wf_msg m \<and> d = encode_msg m \<and> fit_for ops m))"

lemma datagram_ok_calmer: "datagram_ok ops d \<Longrightarrow> calmer ops ops' \<Longrightarrow> datagram_ok ops' d"
  by (auto simp: datagram_ok_def Let_def intro: fit_for_calmer)

text \<open>The local packet of the loops.\<close>

definition pdu_ok :: "coap_pdu \<Rightarrow> bool" where
  "pdu_ok pdu \<longleftrightarrow> length (pdu_buf pdu) = MINIMUM_DATAGRAM_SIZE \<and> pdu_max pdu = MINIMUM_DATAGRAM_SIZE"

lemma pdu_ok_wf_mem: "pdu_ok pdu \<Longrightarrow> wf_mem pdu"
  by (simp add: pdu_ok_def wf_mem_def MINIMUM_DATAGRAM_SIZE_def size_max_def)

lemma datagram_validated:
  assumes "datagram_ok ops d" "pdu_ok pdu" "pdu_buf pdu = take MINIMUM_DATAGRAM_SIZE d @ rest"
    "pdu_len pdu = length (take MINIMUM_DATAGRAM_SIZE d)"
  shows "coap_validate_pkt pdu = Some (CE_INVALID_PACKET, pdu\<lparr>pdu_opt_ptr := NULL\<rparr>) \<or>
     (\<exists>m. coap_validate_pkt pdu = Some (CE_NONE, pdu\<lparr>pdu_opt_ptr := NULL\<rparr>) \<and>
        represents (pdu\<lparr>pdu_opt_ptr := NULL\<rparr>) m \<and> fit_for ops m)"
proof -
  let ?d = "take MINIMUM_DATAGRAM_SIZE d"
  consider (bad) "rejected ?d" | (msg) m where "wf_msg m" "?d = encode_msg m" "fit_for ops m"
    using assms(1) by (auto simp: datagram_ok_def Let_def)
  then show ?thesis
  proof cases
    case bad
    then show ?thesis using validate_rejected [OF bad assms(3,4)] by simp
  next
    case msg
    have "represents pdu m"
      by (rule representsI [where rest = rest])
        (use msg assms pdu_ok_wf_mem in \<open>auto simp: pdu_ok_def\<close>)
    then show ?thesis
      using msg(3) validate_represents by (auto simp: represents_def wf_mem_def)
  qed
qed

text \<open>
  What the receive loop does to the network: it consumes datagrams from the front of the queue and
  sends at most one reset.
\<close>

definition received :: "('w \<Rightarrow> bytes list) \<Rightarrow> ('w \<Rightarrow> bytes list) \<Rightarrow> 'w exo \<Rightarrow> 'w exo \<Rightarrow> bool" where
  "received inq outq s s' \<longleftrightarrow>
     evolves (\<lambda>_. ()) s s' \<and> (\<exists>seen. inq (x_world s) = seen @ inq (x_world s')) \<and>
     (outq (x_world s') = outq (x_world s) \<or>
      (\<exists>mid tok. length tok \<le> 8 \<and>
         outq (x_world s') = outq (x_world s) @ [encode_msg (empty_msg CT_RST mid tok)]))"

lemma evolves_weaken: "evolves net s s' \<Longrightarrow> evolves (\<lambda>_. ()) s s'"
  by (simp add: evolves_def frame_def)

lemma received_step:
  assumes "evolves (network inq outq) (s\<lparr>x_world := w\<rparr>) s1" "inq (x_world s) = d # inq w"
    "outq w = outq (x_world s)"
  shows "evolves (\<lambda>_. ()) s s1"
    and "received inq outq s1 s2 \<Longrightarrow> received inq outq s s2"
proof -
  have "evolves (\<lambda>_. ()) s (s\<lparr>x_world := w\<rparr>)" by (simp add: evolves_def frame_def)
  then show e: "evolves (\<lambda>_. ()) s s1"
    using evolves_weaken [OF assms(1)] by (rule evolves_trans)
  have n: "inq (x_world s1) = inq w" "outq (x_world s1) = outq w"
    using assms(1) by (auto simp: evolves_def frame_def)
  assume r: "received inq outq s1 s2"
  then have "evolves (\<lambda>_. ()) s s2"
    using e evolves_trans unfolding received_def by blast
  moreover have "\<exists>seen. inq (x_world s) = seen @ inq (x_world s2)"
    using r assms(2) n unfolding received_def by (metis append_Cons)
  ultimately show "received inq outq s s2"
    using r assms(3) n by (simp add: received_def)
qed

context datagram_pal
begin

lemma send_pdu_represents:
  assumes "represents pdu m"
  shows "returns (send_pdu P pdu s) (\<lambda>(rc, s').
     rc = fst (exopal_udp_send P (encode_msg m) (x_world s)) \<and>
     x_lib s' = x_lib s \<and> x_heap s' = x_heap s \<and> x_ops s' = x_ops s \<and>
     inq (x_world s') = inq (x_world s) \<and>
     outq (x_world s') = outq (x_world s) @ (if rc = 0 then [encode_msg m] else []))"
proof -
  have "mem_read (pdu_buf pdu) 0 (pdu_len pdu) = Some (encode_msg m)"
    using assms represents_min [OF assms] by (simp add: mem_read_def represents_def)
  then show ?thesis
    using send_law [of "encode_msg m" "x_world s"]
    by (auto simp: send_pdu_def split: prod.splits)
qed

text \<open>The answer to a confirmable message nobody waits for: a reset with its id and token.\<close>

lemma reply_rst_correct:
  assumes "represents pdu m" "12 \<le> pdu_max pdu"
  shows "returns (reply_rst P pdu s) (\<lambda>s'.
     x_lib s' = x_lib s \<and> x_heap s' = x_heap s \<and> x_ops s' = x_ops s \<and>
     inq (x_world s') = inq (x_world s) \<and>
     (\<exists>sent. outq (x_world s') = outq (x_world s) @ sent \<and>
        (if m_type m = CT_CON then sent \<in> {[], [encode_msg (empty_msg CT_RST (m_mid m) (m_token m))]}
         else sent = [])))"
proof -
  have tok: "length (m_token m) \<le> 8"
    using assms(1) by (simp add: represents_def wf_msg_def)
  have type: "ct_val (m_type m) = ct_val CT_CON \<longleftrightarrow> m_type m = CT_CON"
    by (cases "m_type m") simp_all
  obtain q where q: "exo_build_msg_rst (m_mid m) (le_bytes (m_token m)) (of_nat (length (m_token m))) pdu = Some (EXO_OK, q)"
    "represents q (empty_msg CT_RST (m_mid m) (m_token m))"
    using build_msg_rst_correct [of pdu "length (m_token m)" "m_mid m" "le_bytes (m_token m)"] assms tok
    by (auto simp: represents_def bytes_le_le_bytes)
  show ?thesis
    using send_pdu_represents [OF q(2), of s]
    by (auto simp: reply_rst_def getters [OF assms(1)] get_tkl_represents [OF assms(1)] type q(1)
        simp del: ct_val.simps elim!: returns_mono)
qed

lemma reply_rst_received:
  assumes "represents pdu m" "12 \<le> pdu_max pdu"
  shows "returns (reply_rst P pdu s) (received inq outq s)"
  using reply_rst_correct [OF assms]
  by (rule returns_mono)
    (use assms(1) in \<open>auto simp: received_def evolves_def frame_def represents_def wf_msg_def split: if_splits\<close>)

lemma recv_loop_next:
  assumes "pdu_ok pdu" "inq (x_world s) = d # ds"
  obtains w v where "inq w = ds" "outq w = outq (x_world s)" "pdu_ok v" "pdu_addr v = pdu_addr pdu"
    "pdu_buf v = take MINIMUM_DATAGRAM_SIZE d @ drop (length d) (pdu_buf pdu)"
    "pdu_len v = length (take MINIMUM_DATAGRAM_SIZE d)"
    "recv_loop P count pdu s =
       Option.bind (coap_validate_pkt v) (\<lambda>(err, pdu).
         if err \<noteq> CE_NONE then recv_loop P count pdu (s\<lparr>x_world := w\<rparr>)
         else Option.bind (match_ops P pdu 0 count (s\<lparr>x_world := w\<rparr>)) (\<lambda>(hit, s).
                if hit then recv_loop P count pdu s else reply_rst P pdu s))"
proof -
  obtain rc buf len w where r: "exopal_udp_recv P (pdu_buf pdu) (pdu_max pdu) (pdu_len pdu) (x_world s) =
      (rc, buf, len, w)" by (metis prod_cases4)
  have q: "rc = 0" "inq w = ds" "outq w = outq (x_world s)"
    "buf = take MINIMUM_DATAGRAM_SIZE d @ drop (length d) (pdu_buf pdu)"
    "len = length (take MINIMUM_DATAGRAM_SIZE d)"
    using r assms queue_law [of "pdu_buf pdu" "pdu_len pdu" "x_world s" rc buf len w]
    by (auto simp: pdu_ok_def)
  show thesis
  proof (rule that [of w "pdu\<lparr>pdu_buf := buf, pdu_len := len\<rparr>"])
    show "recv_loop P count pdu s =
       Option.bind (coap_validate_pkt (pdu\<lparr>pdu_buf := buf, pdu_len := len\<rparr>)) (\<lambda>(err, pdu).
         if err \<noteq> CE_NONE then recv_loop P count pdu (s\<lparr>x_world := w\<rparr>)
         else Option.bind (match_ops P pdu 0 count (s\<lparr>x_world := w\<rparr>)) (\<lambda>(hit, s).
                if hit then recv_loop P count pdu s else reply_rst P pdu s))"
      by (subst recv_loop.simps) (simp add: r q(1))
  qed (use q assms(1) in \<open>auto simp: pdu_ok_def\<close>)
qed

lemma recv_loop_empty:
  assumes "pdu_ok pdu" "inq (x_world s) = []"
  obtains w where "recv_loop P count pdu s = Some (s\<lparr>x_world := w\<rparr>)" "inq w = []" "outq w = outq (x_world s)"
    "\<exists>rc buf len. exopal_udp_recv P (pdu_buf pdu) (length (pdu_buf pdu)) (pdu_len pdu) (x_world s) = (rc, buf, len, w)"
proof -
  obtain rc buf len w where r: "exopal_udp_recv P (pdu_buf pdu) (length (pdu_buf pdu)) (pdu_len pdu) (x_world s) =
      (rc, buf, len, w)" by (metis prod_cases4)
  moreover have "rc \<noteq> 0" "inq w = []" "outq w = outq (x_world s)" using assms(2) queue_law [OF r] by auto
  moreover have "recv_loop P count pdu s = Some (s\<lparr>x_world := w\<rparr>)"
    using r \<open>rc \<noteq> 0\<close> assms(1) by (subst recv_loop.simps) (simp add: pdu_ok_def)
  ultimately show thesis using that by blast
qed

lemma recv_loop_last:
  assumes "pdu_ok pdu" "inq (x_world s) = []"
  shows "returns (recv_loop P count pdu s) (received inq outq s)"
  by (rule recv_loop_empty [OF assms, of count]) (use assms(2) in \<open>simp add: received_def evolves_def frame_def\<close>)

text \<open>A valid message is handed to the operations; then the loop goes on, or a reset is sent.\<close>

lemma message_received:
  assumes "represents pdu m" "pdu_ok pdu" "fit_for (x_ops s) m" "state_ok s" "count \<le> length (x_ops s)"
    and go: "\<And>s1. evolves (network inq outq) s s1 \<Longrightarrow> calmer (x_ops s) (x_ops s1) \<Longrightarrow> returns (loop s1) Q"
    and stop: "\<And>s1 s2. evolves (network inq outq) s s1 \<Longrightarrow> received inq outq s1 s2 \<Longrightarrow> Q s2"
  shows "returns (Option.bind (match_ops P pdu 0 count s) (\<lambda>(hit, s). if hit then loop s else reply_rst P pdu s)) Q"
proof -
  obtain hit s1 where s1: "match_ops P pdu 0 count s = Some (hit, s1)" "evolves (network inq outq) s s1"
    "calmer (x_ops s) (x_ops s1)"
    using match_ops_evolves [OF assms(1,3) _ assms(4), of 0 count] assms(5) by (auto elim: returnsE)
  have "12 \<le> pdu_max pdu" using assms(2) by (simp add: pdu_ok_def MINIMUM_DATAGRAM_SIZE_def)
  from reply_rst_received [OF assms(1) this, of s1] have "returns (reply_rst P pdu s1) Q"
    by (rule returns_mono) (rule stop [OF s1(2)])
  with go [OF s1(2,3)] s1(1) show ?thesis by simp
qed

lemma recv_loop_received:
  assumes "pdu_ok pdu" "state_ok s" "count \<le> length (x_ops s)"
    "\<forall>d \<in> set (inq (x_world s)). datagram_ok (x_ops s) d"
  shows "returns (recv_loop P count pdu s) (received inq outq s)"
  using assms
proof (induction "inq (x_world s)" arbitrary: pdu s)
  case Nil
  then show ?case by (intro recv_loop_last) simp_all
next
  case (Cons d ds)
  note q = Cons.hyps(2) [symmetric]
  from Cons.prems(1) q obtain w v where w: "inq w = ds" "outq w = outq (x_world s)" and v: "pdu_ok v" and "pdu_addr v = pdu_addr pdu"
    and buf:
    "pdu_buf v = take MINIMUM_DATAGRAM_SIZE d @ drop (length d) (pdu_buf pdu)"
    "pdu_len v = length (take MINIMUM_DATAGRAM_SIZE d)"
    and loop: "recv_loop P count pdu s =
       Option.bind (coap_validate_pkt v) (\<lambda>(err, pdu).
         if err \<noteq> CE_NONE then recv_loop P count pdu (s\<lparr>x_world := w\<rparr>)
         else Option.bind (match_ops P pdu 0 count (s\<lparr>x_world := w\<rparr>)) (\<lambda>(hit, s).
                if hit then recv_loop P count pdu s else reply_rst P pdu s))"
    by (rule recv_loop_next)
  let ?v = "v\<lparr>pdu_opt_ptr := NULL\<rparr>" and ?s = "s\<lparr>x_world := w\<rparr>"
  have ok: "pdu_ok ?v" using v by (simp add: pdu_ok_def)
  have rest: "returns (recv_loop P count ?v s1) (received inq outq s)"
    if s1: "evolves (network inq outq) ?s s1" and calm: "calmer (x_ops s) (x_ops s1)" for s1
  proof -
    note e = received_step [OF s1 _ w(2), of d, unfolded w(1), OF q]
    have "\<forall>d \<in> set (inq (x_world s1)). datagram_ok (x_ops s1) d"
      using s1 Cons.prems(4) q w(1) datagram_ok_calmer [OF _ calm]
      by (auto simp: evolves_def frame_def)
    moreover have "ds = inq (x_world s1)"
      using s1 w(1) by (auto simp: evolves_def frame_def)
    ultimately have "returns (recv_loop P count ?v s1) (received inq outq s1)"
      using Cons.hyps(1) ok evolves_state_ok [OF e(1) Cons.prems(2)] evolves_length [OF e(1)] Cons.prems(3)
      by auto
    then show ?thesis by (rule returns_mono) (rule e(2))
  qed
  have "datagram_ok (x_ops s) d" using Cons.prems(4) q by simp
  from datagram_validated [OF this v buf] show ?case
  proof (elim disjE exE conjE)
    assume "coap_validate_pkt v = Some (CE_INVALID_PACKET, ?v)"
    then show ?thesis using rest [of ?s] loop by simp
  next
    fix m assume m: "coap_validate_pkt v = Some (CE_NONE, ?v)" "represents ?v m" "fit_for (x_ops s) m"
    have "state_ok ?s" using Cons.prems(2) by (simp add: state_ok_def)
    then show ?thesis
      unfolding loop m(1)
      using message_received [OF m(2) ok, of ?s count "recv_loop P count ?v" "received inq outq s"] m(3) Cons.prems(3)
        rest received_step(2) [where inq = inq, OF _ q [folded w(1)] w(2)]
      by auto
  qed
qed

end

end
