(* ===== verification/Exo_Send.thy ===== *)
theory Exo_Send
  imports Exo_Receive
begin

text \<open>
  The sending side: whatever strings the application hands over, a builder returns with a
  well-formed request in the packet, and a pass over the operations sends well-formed CoAP
  messages only.
\<close>

section \<open>Builders always leave a message\<close>

text \<open>
  \<open>partial_request c mid rnd cap k p\<close>: the packet holds a request with some of its options, numbered at
  most \<open>k\<close>, and no payload yet.
\<close>

definition partial_request :: "coap_code \<Rightarrow> u16 \<Rightarrow> u64 \<Rightarrow> nat \<Rightarrow> nat \<Rightarrow> coap_pdu \<Rightarrow> bool" where
  "partial_request c mid rnd cap k p \<longleftrightarrow>
     (\<exists>os. represents p (request c mid rnd os) \<and> last_num 0 os \<le> k \<and> pdu_max p = cap)"

definition some_request :: "u16 \<Rightarrow> u64 \<Rightarrow> nat \<Rightarrow> coap_pdu \<Rightarrow> bool" where
  "some_request mid rnd cap p \<longleftrightarrow>
     (\<exists>m. represents p m \<and> m_type m = CT_CON \<and> m_mid m = mid \<and> m_token m = bytes_le 2 rnd \<and> pdu_max p = cap)"

lemma partial_request_some: "partial_request c mid rnd cap k p \<Longrightarrow> some_request mid rnd cap p"
  by (auto simp: partial_request_def some_request_def) (auto simp: request_def)

lemma add_option_total:
  assumes "partial_request c mid rnd cap k p" "k \<le> n" "0 < n" "n < 65536" "length v < 65536"
  shows "returns (coap_add_option p (int n) (v @ z) (of_nat (length v)))
     (\<lambda>(e, p'). partial_request c mid rnd cap n p')"
proof -
  obtain os where os: "represents p (request c mid rnd os)" "last_num 0 os \<le> k" "pdu_max p = cap"
    using assms(1) by (auto simp: partial_request_def)
  let ?m = "request c mid rnd os"
  have app: "can_append ?m n v"
    using assms os(2) by (simp add: can_append_def request_def)
  have m': "with_opt ?m n v = request c mid rnd (os @ [(n, v)])"
    by (simp add: with_opt_def request_def)
  show ?thesis
  proof (cases "length (encode_msg (with_opt ?m n v)) \<le> pdu_max p")
    case True
    from add_option_represents [OF os(1) app True, of z] show ?thesis
      by (rule deliversE) (use os(3) in \<open>auto simp: partial_request_def m' intro!: exI [of _ "os @ [(n, v)]"]\<close>)
  next
    case False
    then have "coap_add_option p (int n) (v @ z) (of_nat (length v)) = Some (CE_INSUFFICIENT_BUFFER, p)"
      using add_option_full [OF os(1) app] by simp
    then show ?thesis
      using os assms(2) by (auto simp: partial_request_def)
  qed
qed

lemma str_okE:
  assumes "str_ok h p"
  obtains s z where "hload h p = Some (s @ z)" "cstr (s @ z) = Some s" "length s < size_max div 2"
proof -
  obtain blk where b: "hload h p = Some blk" "0 \<in> set blk" "length blk < size_max div 2"
    using assms by (auto simp: str_ok_def split: option.splits)
  then obtain s where s: "cstr blk = Some s" by (auto simp: cstr_def)
  from cstr_prefix [OF s] show thesis
    using that [of s "drop (length s) blk"] b s by (metis append_take_drop_id less_trans)
qed

lemma add_str_total:
  assumes "partial_request c mid rnd cap k p" "k \<le> n" "0 < n" "n < 65536" "str_ok h s"
  shows "returns (add_str_option coap_add_option n h s p) (\<lambda>(e, p'). partial_request c mid rnd cap n p')"
proof -
  obtain str z where str: "hload h s = Some (str @ z)" "cstr (str @ z) = Some str"
    using assms(5) by (rule str_okE)
  let ?v = "take (length str mod 65536) str"
  have n: "(of_nat (length str) :: u16) = of_nat (length ?v)"
    by (simp add: word_unat_eq_iff unat_of_nat min_def mod_less_eq_dividend)
  have "str @ z = ?v @ (drop (length str mod 65536) str @ z)" by simp
  with str n have "add_str_option coap_add_option n h s p =
      coap_add_option p (int n) (?v @ (drop (length str mod 65536) str @ z)) (of_nat (length ?v))"
    by (simp add: add_str_option_def strlen_def)
  with add_option_total [OF assms(1-4), of ?v] show ?thesis by simp
qed

lemma set_str_payload_total:
  assumes "partial_request c mid rnd cap k p" "str_ok h s"
  shows "returns (set_str_payload h s p) (\<lambda>(e, p'). some_request mid rnd cap p')"
proof -
  obtain str z where str: "hload h s = Some (str @ z)" "cstr (str @ z) = Some str" "length str < size_max div 2"
    using assms(2) by (rule str_okE)
  then have eq: "set_str_payload h s p = coap_set_payload p (str @ z) (length str)"
    by (simp add: set_str_payload_def strlen_def)
  obtain os where os: "represents p (request c mid rnd os)" "pdu_max p = cap"
    using assms(1) by (auto simp: partial_request_def)
  let ?m = "request c mid rnd os"
  have none: "m_payload ?m = None" by (simp add: request_def)
  show ?thesis
  proof (cases "length (encode_msg (with_payload ?m str)) \<le> pdu_max p")
    case True
    from set_payload_represents [OF os(1) none True, of z] show ?thesis
      unfolding eq by (rule deliversE) (use os(2) in \<open>auto simp: some_request_def with_payload_def request_def\<close>)
  next
    case False
    then have "coap_set_payload p (str @ z) (length str) = Some (CE_INSUFFICIENT_BUFFER, p)"
      using set_payload_full [OF os(1) none str(3)] by simp
    then show ?thesis
      using partial_request_some [OF assms(1)] by (simp add: eq)
  qed
qed

lemma run_step_returns:
  assumes "returns (f p) (\<lambda>(e, p'). A p')" "\<And>ret p'. A p' \<Longrightarrow> returns (run_steps fs ret p') Q"
  shows "returns (run_steps (f # fs) ret p) Q"
  using assms(1) by (rule returnsE) (use assms(2) in auto)

lemma builder_total:
  assumes "wf_mem pdu" "6 \<le> pdu_max pdu"
    and body: "\<And>p. partial_request c mid rnd (pdu_max pdu) 0 p \<Longrightarrow>
           returns (run_steps fs 0 p) (\<lambda>(ret, q). Q q)"
  shows "returns (Option.bind (coap_init_pdu pdu) (\<lambda>(_, pdu).
       Option.bind (run_steps (header_steps CT_CON c mid @ (\<lambda>p. coap_set_token p rnd 2) # fs) 0 pdu)
         (\<lambda>(ret, pdu). Some (exo_result ret, pdu, lib')))) (\<lambda>(e, q, lib). lib = lib' \<and> Q q)"
proof -
  from build_header [OF assms(1), of 2 CT_CON c mid rnd] assms(2) obtain p q where
    q: "coap_init_pdu pdu = Some (CE_NONE, p)"
      "run_steps (header_steps CT_CON c mid @ [\<lambda>p. coap_set_token p rnd 2]) 0 p = Some (0, q)"
      "represents q (request c mid rnd [])" "pdu_max q = pdu_max pdu"
    by (auto simp: request_def)
  then have "partial_request c mid rnd (pdu_max pdu) 0 q"
    by (auto simp: partial_request_def intro!: exI [of _ "[]"])
  then have "returns (run_steps fs 0 q) (\<lambda>(ret, q). Q q)" by (rule body)
  then obtain ret q' where "run_steps fs 0 q = Some (ret, q')" "Q q'"
    by (auto elim: returnsE)
  moreover have "run_steps (header_steps CT_CON c mid @ (\<lambda>p. coap_set_token p rnd 2) # fs) 0 p = run_steps fs 0 q"
    using run_steps_append [of "header_steps CT_CON c mid @ [\<lambda>p. coap_set_token p rnd 2]" fs 0 p] q(2) by simp
  ultimately show ?thesis using q(1) by simp
qed


lemma add_literal_total:
  assumes "partial_request c mid rnd cap k p" "k \<le> con_val CON_URI_PATH"
    "n = of_nat (length lit)" "length lit < 65536"
  shows "returns (coap_add_option p (int (con_val CON_URI_PATH)) (c_literal lit) n)
     (\<lambda>(e, p'). partial_request c mid rnd cap (con_val CON_URI_PATH) p')"
  using add_option_total [OF assms(1,2) con_val_range, of "str_bytes lit" "[0]"] assms(3,4)
  by (simp add: c_literal_def str_bytes_def del: con_val.simps)

lemma add_cik_total:
  assumes "partial_request c mid rnd cap (con_val CON_URI_PATH) p" "CIK_LENGTH \<le> length cik"
  shows "returns (coap_add_option p (int (con_val CON_URI_QUERY)) cik 40)
     (\<lambda>(e, p'). partial_request c mid rnd cap (con_val CON_URI_QUERY) p')"
proof -
  have "con_val CON_URI_PATH \<le> con_val CON_URI_QUERY" by simp
  from add_option_total [OF assms(1) this con_val_range, of "take CIK_LENGTH cik" "drop CIK_LENGTH cik"]
  show ?thesis using assms(2) by (simp add: CIK_LENGTH_def del: con_val.simps)
qed

lemma add_observe_total:
  assumes "partial_request c mid rnd cap 0 p"
  shows "returns (coap_add_option p (int (con_val CON_OBSERVE)) [0] 1)
     (\<lambda>(e, p'). partial_request c mid rnd cap (con_val CON_OBSERVE) p')"
  using add_option_total [OF assms le0 con_val_range(1) [of CON_OBSERVE] con_val_range(2), of "[0]" "[]"] by simp

lemma run_steps_nil: "some_request mid rnd cap p \<Longrightarrow> returns (run_steps [] ret p) (\<lambda>(r, q). some_request mid rnd cap q)"
  by simp

lemma op_builder_total:
  assumes "wf_mem pdu" "6 \<le> pdu_max pdu" "op_mem h op" "lib_ok h lib" "op_type op \<noteq> EXO_NULL"
  shows "returns (op_builder op h lib rnd pdu)
     (\<lambda>(e, q, lib'). lib' = next_mid lib \<and> some_request (lib_mid lib) rnd (pdu_max pdu) q)"
proof -
  have cik: "CIK_LENGTH \<le> length (lib_cik lib)"
    using assms(4) by (simp add: lib_ok_def)
  have le: "con_val CON_OBSERVE \<le> con_val CON_URI_PATH" by simp
  note step = run_step_returns [OF add_str_total [OF _ order_refl con_val_range]]
    run_step_returns [OF add_literal_total] run_step_returns [OF add_cik_total [OF _ cik]]
    run_step_returns [OF add_observe_total] run_step_returns [OF set_str_payload_total]
  note last = run_steps_nil partial_request_some
  show ?thesis
  proof (cases "op_type op")
    case EXO_READ
    then have "str_ok h (op_alias op)" using assms(3) by (simp add: op_mem_def)
    then show ?thesis
      unfolding op_builder_def EXO_READ exo_request_type.case exo_build_msg_read_def append.simps
      by (intro builder_total [OF assms(1,2)] step last) (assumption | rule le0 | simp)+
  next
    case EXO_SUBSCRIBE
    then have "str_ok h (op_alias op)" using assms(3) by (simp add: op_mem_def)
    then show ?thesis
      unfolding op_builder_def EXO_SUBSCRIBE exo_request_type.case exo_build_msg_observe_def append.simps
      by (intro builder_total [OF assms(1,2)] step last) (assumption | rule le | simp)+
  next
    case EXO_WRITE
    then have "str_ok h (op_alias op)" "str_ok h (op_value op)" using assms(3) by (simp_all add: op_mem_def)
    then show ?thesis
      unfolding op_builder_def EXO_WRITE exo_request_type.case exo_build_msg_write_def append.simps
      by (intro builder_total [OF assms(1,2)] step run_steps_nil) (assumption | rule le0 | simp)+
  next
    case EXO_ACTIVATE
    have "str_ok h (lib_vendor lib)" "str_ok h (lib_model lib)" "str_ok h (lib_serial lib)"
      using assms(4) by (simp_all add: lib_ok_def)
    then show ?thesis
      unfolding op_builder_def EXO_ACTIVATE exo_request_type.case exo_build_msg_activate_def append.simps
      by (intro builder_total [OF assms(1,2)] step last) (assumption | rule le0 order_refl | simp)+
  qed (use assms(5) in simp)
qed



section \<open>A pass over the operations\<close>

definition pdu_ready :: "coap_pdu \<Rightarrow> bool" where
  "pdu_ready pdu \<longleftrightarrow> wf_mem pdu \<and> pdu_max pdu = MINIMUM_DATAGRAM_SIZE"

lemma some_request_ready: "some_request mid rnd MINIMUM_DATAGRAM_SIZE p \<Longrightarrow> pdu_ready p"
  by (auto simp: some_request_def pdu_ready_def represents_def)

text \<open>At most \<open>k\<close> datagrams were sent, each a well-formed message of at most 576 bytes.\<close>

definition sends :: "('w \<Rightarrow> bytes list) \<Rightarrow> nat \<Rightarrow> 'w exo \<Rightarrow> 'w exo \<Rightarrow> bool" where
  "sends outq k s s' \<longleftrightarrow>
     (\<exists>ms. length ms \<le> k \<and> outq (x_world s') = outq (x_world s) @ map encode_msg ms \<and>
        (\<forall>m \<in> set ms. wf_msg m \<and> length (encode_msg m) \<le> MINIMUM_DATAGRAM_SIZE))"

lemma sends_same: "outq (x_world s') = outq (x_world s) \<Longrightarrow> sends outq k s s'"
  by (auto simp: sends_def intro!: exI [of _ "[]"])

lemma sends_trans: "sends outq j s s1 \<Longrightarrow> sends outq k s1 s2 \<Longrightarrow> sends outq (j + k) s s2"
  unfolding sends_def by (elim exE, rule_tac x = "ms @ msa" in exI) auto

lemma sends_one:
  assumes "represents p m" "pdu_ready p"
    "outq (x_world s') = outq (x_world s) @ (if b then [encode_msg m] else [])"
  shows "sends outq 1 s s'"
  using assms represents_len [OF assms(1)]
  by (auto simp: sends_def represents_def pdu_ready_def intro!: exI [of _ "if b then [m] else []"])

context datagram_pal
begin

lemma build_for_total:
  assumes "pdu_ready pdu" "op_mem (x_heap s) op" "lib_ok (x_heap s) (x_lib s)" "op_type op \<noteq> EXO_NULL"
  shows "returns (build_for P (op_builder op) pdu s) (\<lambda>(pdu', s').
     some_request (lib_mid (x_lib s)) (fst (rand_of P s)) MINIMUM_DATAGRAM_SIZE pdu' \<and>
     x_ops s' = x_ops s \<and> x_heap s' = x_heap s \<and> x_lib s' = next_mid (x_lib s) \<and>
     inq (x_world s') = inq (x_world s) \<and> outq (x_world s') = outq (x_world s))"
proof -
  let ?s = "snd (rand_of P s)"
  have s: "x_heap ?s = x_heap s" "x_lib ?s = x_lib s"
    by (simp_all add: rand_of_def split: prod.splits)
  have "returns (op_builder op (x_heap s) (x_lib s) (fst (rand_of P s)) pdu) (\<lambda>(e, q, lib').
      lib' = next_mid (x_lib s) \<and> some_request (lib_mid (x_lib s)) (fst (rand_of P s)) (pdu_max pdu) q)"
    using assms by (intro op_builder_total) (auto simp: pdu_ready_def MINIMUM_DATAGRAM_SIZE_def)
  then show ?thesis
    using assms(1) net_of_calls(2) [of s] s
    by (auto simp: build_for_def split_beta Let_def pdu_ready_def elim!: returns_mono)
qed

lemma build_forE:
  assumes "pdu_ready pdu" "i < length (x_ops s)" "op = x_ops s ! i" "state_ok s" "op_type op \<noteq> EXO_NULL"
  obtains q s' m where "build_for P (op_builder op) pdu s = Some (q, s')" "represents q m" "pdu_ready q"
    "m_type m = CT_CON" "m_mid m = lib_mid (x_lib s)" "m_token m = bytes_le 2 (fst (rand_of P s))"
    "x_ops s' = x_ops s" "x_heap s' = x_heap s" "x_lib s' = next_mid (x_lib s)"
    "inq (x_world s') = inq (x_world s)" "outq (x_world s') = outq (x_world s)"
proof -
  have "op_mem (x_heap s) op" "lib_ok (x_heap s) (x_lib s)"
    using assms by (auto simp: state_ok_def)
  from build_for_total [OF assms(1) this assms(5)] obtain q s' where
    "build_for P (op_builder op) pdu s = Some (q, s')"
    and q: "some_request (lib_mid (x_lib s)) (fst (rand_of P s)) MINIMUM_DATAGRAM_SIZE q"
    and "x_ops s' = x_ops s" "x_heap s' = x_heap s" "x_lib s' = next_mid (x_lib s)"
    "inq (x_world s') = inq (x_world s)" "outq (x_world s') = outq (x_world s)"
    by (auto elim!: returnsE)
  with some_request_ready [OF q] show thesis
    using that by (auto simp: some_request_def)
qed

lemma frame_next_mid: "x_heap s' = x_heap s \<Longrightarrow> x_lib s' \<in> {x_lib s, next_mid (x_lib s)} \<Longrightarrow>
    net (x_world s') = net (x_world s) \<Longrightarrow> frame net s s'"
  by (auto simp: frame_def next_mid_def)

lemma send_new_sends:
  assumes "pdu_ready pdu" "i < length (x_ops s)" "op = x_ops s ! i" "state_ok s"
  shows "returns (send_new P i op pdu s) (\<lambda>(pdu', s'). pdu_ready pdu' \<and> frame inq s s' \<and> sends outq 1 s s')"
proof (cases "op_type op = EXO_NULL")
  case True
  then show ?thesis using assms by (simp add: send_new_def sends_same)
next
  case False
  obtain q s1 m where b: "build_for P (op_builder op) pdu s = Some (q, s1)" "represents q m" "pdu_ready q"
      "x_ops s1 = x_ops s" "x_heap s1 = x_heap s" "x_lib s1 = next_mid (x_lib s)"
      "inq (x_world s1) = inq (x_world s)" "outq (x_world s1) = outq (x_world s)"
    using build_forE [OF assms False] by metis
  obtain rc s2 where c: "send_pdu P q s1 = Some (rc, s2)" "x_ops s2 = x_ops s1" "x_heap s2 = x_heap s1"
    "x_lib s2 = x_lib s1" "inq (x_world s2) = inq (x_world s1)"
    "outq (x_world s2) = outq (x_world s1) @ (if rc = 0 then [encode_msg m] else [])"
    using send_pdu_represents [OF b(2), of s1] by (auto elim!: returnsE)
  let ?s = "snd (now_of P s2)"
  have f: "frame inq s s2" using b c by (intro frame_next_mid) auto
  then have "frame inq s ?s"
    by (rule frame_trans) (use frame_calls(1) [of s2] in \<open>simp add: frame_def\<close>)
  moreover have "sends outq 1 s s2" "sends outq 1 s (?s\<lparr>x_ops := ops\<rparr>)" for ops
    using sends_one [OF b(2,3), of outq _ s "rc = 0"] b(8) c(6) net_of_calls(1) [of s2] by auto
  ultimately show ?thesis
    using False assms(2) b c f
    by (simp add: send_new_def getters [OF b(2)] split_beta Let_def)
qed

lemma retransmit_sends:
  assumes "pdu_ready pdu" "i < length (x_ops s)" "op = x_ops s ! i" "state_ok s" "op_type op \<noteq> EXO_NULL"
  shows "returns (retransmit P i op pdu s) (\<lambda>(pdu', s'). pdu_ready pdu' \<and> frame inq s s' \<and> sends outq 1 s s')"
proof -
  have tkl: "op_tkl op = 0" using assms by (auto simp: state_ok_def op_inv_def)
  obtain q s1 m where b: "build_for P (op_builder op) pdu s = Some (q, s1)" "represents q m" "pdu_ready q"
      "x_ops s1 = x_ops s" "x_heap s1 = x_heap s" "x_lib s1 = next_mid (x_lib s)"
      "inq (x_world s1) = inq (x_world s)" "outq (x_world s1) = outq (x_world s)"
    using build_forE [OF assms] by metis
  obtain q1 where q1: "coap_set_mid q (op_mid op) = Some (CE_NONE, q1)" "represents q1 (m\<lparr>m_mid := op_mid op\<rparr>)"
    "pdu_max q1 = pdu_max q"
    using set_mid_represents [OF b(2)] by (rule deliversE)
  let ?m = "m\<lparr>m_mid := op_mid op, m_token := bytes_le 0 (op_token op)\<rparr>"
  have "length (encode_msg ?m) \<le> pdu_max q1"
    using represents_len [OF q1(2)] represents_min(3) [OF q1(2)] by (simp add: encode_msg_def)
  from set_token_represents [OF q1(2) le0 this] obtain q2 where
    q2: "coap_set_token q1 (op_token op) 0 = Some (CE_NONE, q2)" "represents q2 ?m" "pdu_max q2 = pdu_max q1"
    by (auto elim: deliversE)
  have ready: "pdu_ready q2" using q2(2,3) q1(3) b(3) by (simp add: pdu_ready_def represents_def)
  obtain rc s2 where c: "send_pdu P q2 s1 = Some (rc, s2)" "x_ops s2 = x_ops s1" "x_heap s2 = x_heap s1"
    "x_lib s2 = x_lib s1" "inq (x_world s2) = inq (x_world s1)"
    "outq (x_world s2) = outq (x_world s1) @ (if rc = 0 then [encode_msg ?m] else [])"
    using send_pdu_represents [OF q2(2), of s1] by (auto elim!: returnsE)
  let ?s = "snd (rand_of P (snd (now_of P s2)))"
  have f: "frame inq s s2" using b c by (intro frame_next_mid) auto
  have net: "inq (x_world ?s) = inq (x_world s2)" "outq (x_world ?s) = outq (x_world s2)"
    using net_of_calls(2) [of "snd (now_of P s2)"] net_of_calls(1) [of s2] by simp_all
  have "frame inq s2 ?s"
    using net frame_trans [OF frame_calls(1) frame_calls(2), of s2] by (simp add: frame_def)
  with f have "frame inq s ?s" by (rule frame_trans)
  moreover have "sends outq 1 s s2" "sends outq 1 s (?s\<lparr>x_ops := ops\<rparr>)" for ops
    using sends_one [OF q2(2) ready, of outq _ s "rc = 0"] b(8) c(6) net(2) by auto
  ultimately show ?thesis
    using assms(2) b q1(1) q2(1) c f ready tkl
    by (simp add: retransmit_def split_beta Let_def)
qed

lemma check_timeout_sends:
  assumes "pdu_ready pdu" "i < length (x_ops s)" "op = x_ops s ! i" "state_ok s"
  shows "returns (check_timeout P now i op pdu s) (\<lambda>(pdu', s'). pdu_ready pdu' \<and> frame inq s s' \<and> sends outq 1 s s')"
  using assms(1,2) retransmit_sends [OF assms] by (auto simp: check_timeout_def sends_same)

lemma send_ack_sends:
  assumes "pdu_ready pdu" "i < length (x_ops s)"
  shows "returns (send_ack P i op pdu s) (\<lambda>(pdu', s'). pdu_ready pdu' \<and> frame inq s s' \<and> sends outq 1 s s')"
proof -
  let ?m = "empty_msg CT_ACK (op_mid op) []"
  obtain q where q: "exo_build_msg_ack (op_mid op) pdu = Some (EXO_OK, q)" "represents q ?m" "pdu_max q = pdu_max pdu"
    using build_msg_ack_correct [of pdu "op_mid op"] assms(1)
    by (auto simp: pdu_ready_def MINIMUM_DATAGRAM_SIZE_def)
  have ready: "pdu_ready q" using q(2,3) assms(1) by (simp add: pdu_ready_def represents_def)
  obtain rc s2 where c: "send_pdu P q s = Some (rc, s2)" "x_ops s2 = x_ops s" "x_heap s2 = x_heap s"
    "x_lib s2 = x_lib s" "inq (x_world s2) = inq (x_world s)"
    "outq (x_world s2) = outq (x_world s) @ (if rc = 0 then [encode_msg ?m] else [])"
    using send_pdu_represents [OF q(2), of s] by (auto elim!: returnsE)
  have f: "frame inq s s2" using c by (intro frame_next_mid) auto
  moreover have "sends outq 1 s (s2\<lparr>x_ops := ops\<rparr>)" "sends outq 1 s s2" for ops
    using sends_one [OF q(2) ready, of outq _ s "rc = 0"] c(6) by auto
  ultimately show ?thesis
    using assms(2) q(1) c ready by (simp add: send_ack_def)
qed

lemma active_op_sends:
  assumes "pdu_ready pdu" "i < length (x_ops s)" "state_ok s"
  shows "returns (active_op P now i pdu s) (\<lambda>(pdu', s'). pdu_ready pdu' \<and> evolves inq s s' \<and> sends outq 1 s s')"
proof -
  have "returns (active_op P now i pdu s) (\<lambda>(pdu', s'). pdu_ready pdu' \<and> frame inq s s' \<and> sends outq 1 s s')"
    using assms send_new_sends [OF assms(1,2) refl assms(3)] check_timeout_sends [OF assms(1,2) refl assms(3)]
      send_ack_sends [OF assms(1,2)]
    by (simp add: active_op_def sends_same split: exo_request_state.split)
  from returns_conj [OF this active_op_steps] show ?thesis
    by (rule returns_mono) (auto simp: evolves_def)
qed

lemma active_loop_sends:
  assumes "pdu_ready pdu" "i + n \<le> length (x_ops s)" "state_ok s"
  shows "returns (active_loop P now i n pdu s) (\<lambda>s'. evolves inq s s' \<and> sends outq n s s')"
  using assms
proof (induction n arbitrary: i pdu s)
  case (Suc n)
  have "i < length (x_ops s)" using Suc.prems(2) by simp
  from active_op_sends [OF Suc.prems(1) this Suc.prems(3), of now] obtain q s1 where
    s1: "active_op P now i pdu s = Some (q, s1)" "pdu_ready q" "evolves inq s s1" "sends outq 1 s s1"
    by (auto elim!: returnsE)
  have "Suc i + n \<le> length (x_ops s1)" using Suc.prems(2) evolves_length [OF s1(3)] by simp
  from Suc.IH [OF s1(2) this evolves_state_ok [OF s1(3) Suc.prems(3)]] show ?case
    using s1 evolves_trans [OF s1(3)] sends_trans [OF s1(4)] by (auto elim!: returns_mono)
qed (simp add: sends_same)

lemma local_pdu_ok: "pdu_ok (local_pdu P s)"
  by (simp add: local_pdu_def pdu_ok_def stack_law)

lemma process_active_ops_sends:
  assumes "count \<le> length (x_ops s)" "state_ok s"
  shows "returns (exo_process_active_ops P count s) (\<lambda>s'. evolves inq s s' \<and> sends outq count s s')"
proof -
  let ?s = "snd (now_of P s)"
  have e: "evolves inq s ?s"
    using frame_calls(1) [of s] by (simp add: evolves_def frame_def)
  have "pdu_ready (local_pdu P ?s)"
    using local_pdu_ok [of ?s] pdu_ok_wf_mem by (simp add: pdu_ready_def pdu_ok_def)
  moreover have "0 + count \<le> length (x_ops ?s)" using assms(1) by simp
  ultimately have "returns (active_loop P (fst (now_of P s)) 0 count (local_pdu P ?s) ?s)
      (\<lambda>s'. evolves inq ?s s' \<and> sends outq count ?s s')"
    using evolves_state_ok [OF e assms(2)] by (rule active_loop_sends)
  then show ?thesis
    unfolding exo_process_active_ops_def split_beta Let_def
    by (rule returns_mono) (use evolves_trans [OF e] net_of_calls(1) [of s] in \<open>auto simp: sends_def\<close>)
qed

lemma process_waiting_datagrams_received:
  assumes "state_ok s" "count \<le> length (x_ops s)" "\<forall>d \<in> set (inq (x_world s)). datagram_ok (x_ops s) d"
  shows "returns (exo_process_waiting_datagrams P count s) (received inq outq s)"
  unfolding exo_process_waiting_datagrams_def using local_pdu_ok assms by (rule recv_loop_received)


lemma received_sends: "received inq outq s s' \<Longrightarrow> sends outq 1 s s'"
proof -
  assume "received inq outq s s'"
  then consider "outq (x_world s') = outq (x_world s)"
    | mid tok where "length tok \<le> 8"
      "outq (x_world s') = outq (x_world s) @ [encode_msg (empty_msg CT_RST mid tok)]"
    by (auto simp: received_def)
  then show ?thesis
  proof cases
    case 2
    then show ?thesis
      unfolding sends_def
      by (intro exI [of _ "[empty_msg CT_RST mid tok]"])
        (simp add: empty_msg_def wf_msg_def encode_msg_def MINIMUM_DATAGRAM_SIZE_def)
  qed (rule sends_same)
qed

lemma need_activation_safe:
  assumes "x_ops s \<noteq> []" "state_ok s"
  shows "returns (need_activation P s) (\<lambda>s'. evolves (network inq outq) s s' \<and> calmer (x_ops s) (x_ops s'))"
proof -
  have "returns (need_activation P s) (frame (network inq outq) s)"
    using assms(1) frame_calls(1) [of s]
    by (simp add: need_activation_def split_beta Let_def)
  from returns_conj [OF returns_conj [OF this need_activation_steps] need_activation_calmer] show ?thesis
    by (rule returns_mono) (simp add: evolves_def)
qed

text \<open>A call of \<open>exo_operate\<close> returns, and keeps the state well-formed.\<close>

lemma operate_safe:
  assumes "state_ok s" "x_ops s \<noteq> []" "unat count \<le> length (x_ops s)"
    "\<forall>d \<in> set (inq (x_world s)). datagram_ok (x_ops s) d"
  shows "returns (exo_operate P count s) (\<lambda>(r, s').
     state_ok s' \<and> steps_from s s' \<and> sends outq (1 + unat count) s s')"
proof (cases "lib_device (x_lib s) = EXO_STATE_UNINITIALIZED")
  case True
  then show ?thesis using assms(1) by (simp add: exo_operate_def sends_same)
next
  case False
  obtain s1 where s1: "(if lib_device (x_lib s) = EXO_STATE_GOOD then Some s else need_activation P s) = Some s1"
    "evolves (network inq outq) s s1" "calmer (x_ops s) (x_ops s1)"
    using need_activation_safe [OF assms(2,1)]
    by (cases "lib_device (x_lib s) = EXO_STATE_GOOD") (auto elim: returnsE)
  have net: "inq (x_world s1) = inq (x_world s)" "outq (x_world s1) = outq (x_world s)"
    using s1(2) by (auto simp: evolves_def frame_def)
  have ok1: "state_ok s1" "unat count \<le> length (x_ops s1)"
    "\<forall>d \<in> set (inq (x_world s1)). datagram_ok (x_ops s1) d"
    using assms evolves_state_ok [OF s1(2)] evolves_length [OF s1(2)] datagram_ok_calmer [OF _ s1(3)] net(1)
    by auto
  obtain s2 where s2: "exo_process_waiting_datagrams P (unat count) s1 = Some s2" "received inq outq s1 s2"
    using process_waiting_datagrams_received [OF ok1] by (rule returnsE)
  then have e2: "evolves (\<lambda>_. ()) s1 s2" by (simp add: received_def)
  have ok2: "unat count \<le> length (x_ops s2)" "state_ok s2"
    using ok1 evolves_state_ok [OF e2] evolves_length [OF e2] by simp_all
  obtain s3 where s3: "exo_process_active_ops P (unat count) s2 = Some s3" "evolves inq s2 s3"
    "sends outq (unat count) s2 s3"
    using process_active_ops_sends [OF ok2] by (auto elim: returnsE)
  have "steps_from s s3"
    using s1(2) e2 s3(2) by (auto simp: evolves_def intro: all_steps_trans)
  moreover have "sends outq (1 + unat count) s s3"
    using sends_trans [OF received_sends [OF s2(2)] s3(3)] net(2) by (simp add: sends_def)
  ultimately show ?thesis
    using False s1(1) s2(1) s3(1) evolves_state_ok [OF s3(2) ok2(2)]
    by (simp add: exo_operate_def)
qed


section \<open>What exactly is sent\<close>

lemma send_new_exact:
  assumes "i < length (x_ops s)" "op_type op \<noteq> EXO_NULL"
    "op_builder op (x_heap s) (x_lib s) (fst (rand_of P s)) pdu = Some (e, q, next_mid (x_lib s))"
    "represents q m"
  shows "\<exists>t s'. send_new P i op pdu s = Some (q, s') \<and>
     x_heap s' = x_heap s \<and> x_lib s' = next_mid (x_lib s) \<and> inq (x_world s') = inq (x_world s) \<and>
     (if fst (exopal_udp_send P (encode_msg m) (x_world (snd (rand_of P s)))) = 0
      then outq (x_world s') = outq (x_world s) @ [encode_msg m] \<and>
           x_ops s' = (x_ops s)[i := (x_ops s ! i)\<lparr>op_state := EXO_REQUEST_PENDING, op_timeout := t + 4000000,
                       op_mid := m_mid m, op_token := le_bytes (m_token m)\<rparr>]
      else outq (x_world s') = outq (x_world s) \<and> x_ops s' = x_ops s)"
proof -
  let ?s = "(snd (rand_of P s))\<lparr>x_lib := next_mid (x_lib s)\<rparr>"
  have s: "x_heap (snd (rand_of P s)) = x_heap s" "x_lib (snd (rand_of P s)) = x_lib s"
    by (simp_all add: rand_of_def split: prod.splits)
  have b: "build_for P (op_builder op) pdu s = Some (q, ?s)"
    using assms(3) by (simp add: build_for_def split_beta Let_def s)
  obtain rc s2 where c: "send_pdu P q ?s = Some (rc, s2)" "x_ops s2 = x_ops s" "x_heap s2 = x_heap s"
    "x_lib s2 = next_mid (x_lib s)" "inq (x_world s2) = inq (x_world s)"
    "outq (x_world s2) = outq (x_world s) @ (if rc = 0 then [encode_msg m] else [])"
    "rc = fst (exopal_udp_send P (encode_msg m) (x_world (snd (rand_of P s))))"
    using send_pdu_represents [OF assms(4), of ?s] s net_of_calls(2) [of s] by (auto elim!: returnsE)
  let ?n = "now_of P s2"
  have n: "x_heap (snd ?n) = x_heap s2" "x_lib (snd ?n) = x_lib s2"
    by (simp_all add: now_of_def split: prod.splits)
  show ?thesis
    using assms(1,2) b c n net_of_calls(1) [of s2]
    by (intro exI [of _ "fst ?n"])
      (simp add: send_new_def getters [OF assms(4)] upd_op_def get_op_def split_beta Let_def)
qed

lemma retransmit_exact:
  assumes "i < length (x_ops s)" "op_tkl op = 0"
    "op_builder op (x_heap s) (x_lib s) (fst (rand_of P s)) pdu = Some (e, q, next_mid (x_lib s))"
    "represents q m"
  shows "\<exists>t q' s'. retransmit P i op pdu s = Some (q', s') \<and>
     x_heap s' = x_heap s \<and> x_lib s' = next_mid (x_lib s) \<and> inq (x_world s') = inq (x_world s) \<and>
     (if fst (exopal_udp_send P (encode_msg (m\<lparr>m_mid := op_mid op, m_token := []\<rparr>)) (x_world (snd (rand_of P s)))) = 0
      then outq (x_world s') = outq (x_world s) @ [encode_msg (m\<lparr>m_mid := op_mid op, m_token := []\<rparr>)] \<and>
           x_ops s' = (x_ops s)[i := (x_ops s ! i)\<lparr>op_retries := op_retries op + 1, op_timeout := t\<rparr>]
      else outq (x_world s') = outq (x_world s) \<and> x_ops s' = x_ops s)"
proof -
  let ?s = "(snd (rand_of P s))\<lparr>x_lib := next_mid (x_lib s)\<rparr>"
  have s: "x_heap (snd (rand_of P s)) = x_heap s" "x_lib (snd (rand_of P s)) = x_lib s"
    by (simp_all add: rand_of_def split: prod.splits)
  have b: "build_for P (op_builder op) pdu s = Some (q, ?s)"
    using assms(3) by (simp add: build_for_def split_beta Let_def s)
  obtain q1 where q1: "coap_set_mid q (op_mid op) = Some (CE_NONE, q1)" "represents q1 (m\<lparr>m_mid := op_mid op\<rparr>)"
    using set_mid_represents [OF assms(4)] by (rule deliversE)
  have "length (encode_msg (m\<lparr>m_mid := op_mid op, m_token := bytes_le 0 (op_token op)\<rparr>)) \<le> pdu_max q1"
    using represents_len [OF q1(2)] represents_min(3) [OF q1(2)] by (simp add: encode_msg_def)
  from set_token_represents [OF q1(2) le0, of "op_token op"] this obtain q2 where
    q2: "coap_set_token q1 (op_token op) 0 = Some (CE_NONE, q2)" "represents q2 (m\<lparr>m_mid := op_mid op, m_token := []\<rparr>)"
    by (auto elim: deliversE)
  obtain rc s2 where c: "send_pdu P q2 ?s = Some (rc, s2)" "x_ops s2 = x_ops s" "x_heap s2 = x_heap s"
    "x_lib s2 = next_mid (x_lib s)" "inq (x_world s2) = inq (x_world s)"
    "outq (x_world s2) = outq (x_world s) @
       (if rc = 0 then [encode_msg (m\<lparr>m_mid := op_mid op, m_token := []\<rparr>)] else [])"
    "rc = fst (exopal_udp_send P (encode_msg (m\<lparr>m_mid := op_mid op, m_token := []\<rparr>)) (x_world (snd (rand_of P s))))"
    using send_pdu_represents [OF q2(2), of ?s] s net_of_calls(2) [of s] by (auto elim!: returnsE)
  let ?n = "now_of P s2"
  let ?r = "rand_of P (snd ?n)"
  have n: "x_heap (snd ?r) = x_heap s2" "x_lib (snd ?r) = x_lib s2" "x_ops (snd ?r) = x_ops s2"
    "inq (x_world (snd ?r)) = inq (x_world s2)" "outq (x_world (snd ?r)) = outq (x_world s2)"
    using net_of_calls(1) [of s2] net_of_calls(2) [of "snd ?n"]
    by simp_all (simp_all add: now_of_def rand_of_def split: prod.splits)
  show ?thesis
    using assms(1,2) b q1(1) q2(1) c n
    by (intro exI [of _ "fst ?n + ucast (op_retries op + 1) * COAP_PROBING_RATE * 1000000 +
          fst ?r mod 1500000"] exI [of _ q2])
      (simp add: retransmit_def upd_op_def get_op_def split_beta Let_def)
qed

end

end
