(* ===== verification/Exo_Dispatch.thy ===== *)
theory Exo_Dispatch
  imports Exo_Send
begin

text \<open>
  Which operation a received message belongs to, and what it does to that operation: the
  functional behaviour of the receive loop's body on a packet that represents a message.
\<close>

section \<open>Dispatch\<close>

text \<open>The operation waits for this message.\<close>

definition waits_for :: "coap_msg \<Rightarrow> exo_op \<Rightarrow> bool" where
  "waits_for m op \<longleftrightarrow>
     (case m_type m of
        CT_CON \<Rightarrow> op_state op = EXO_REQUEST_SUBSCRIBED \<and> le_bytes (m_token m) = op_token op
      | CT_NON \<Rightarrow> op_state op = EXO_REQUEST_SUBSCRIBED \<and> le_bytes (m_token m) = op_token op
      | CT_ACK \<Rightarrow> op_state op = EXO_REQUEST_PENDING \<and> op_mid op = m_mid m \<and>
                   (drop_bit 5 (m_code m) = 2 \<longrightarrow> op_type op \<noteq> EXO_NULL)
      | CT_RST \<Rightarrow> op_state op \<in> {EXO_REQUEST_PENDING, EXO_REQUEST_SUBSCRIBED} \<and>
                   op_mid op = m_mid m \<and> op_token op = le_bytes (m_token m))"

lemma match_op_miss:
  assumes "represents pdu m" "i < length (x_ops s)" "\<not> waits_for m (x_ops s ! i)"
  shows "match_op P pdu i s = Some (False, s)"
  using assms(2,3)
  by (cases "m_type m")
    (auto simp: match_op_def getters [OF assms(1)] get_op_def waits_for_def handle_ack_success_def)

lemma match_op_hit:
  assumes "represents pdu m" "waits_for m (x_ops s ! i)"
  shows "if_returns (match_op P pdu i s) fst"
  using assms(2)
  by (cases "m_type m"; cases "op_type (x_ops s ! i)")
    (auto simp: match_op_def getters [OF assms(1)] waits_for_def handle_ack_success_def split_beta Let_def
      split: stored.split intro!: if_returnsI)

lemma match_ops_none:
  assumes "represents pdu m" "i + n \<le> length (x_ops s)" "\<forall>j. i \<le> j \<and> j < i + n \<longrightarrow> \<not> waits_for m (x_ops s ! j)"
  shows "match_ops P pdu i n s = Some (False, s)"
  using assms(2,3) by (induction n arbitrary: i) (auto simp: match_op_miss [OF assms(1)])

lemma match_ops_first:
  assumes "represents pdu m" "k < length (x_ops s)" "i \<le> k" "k < i + n" "waits_for m (x_ops s ! k)"
    "\<forall>j. i \<le> j \<and> j < k \<longrightarrow> \<not> waits_for m (x_ops s ! j)"
  shows "match_ops P pdu i n s = match_op P pdu k s"
  using assms(3,4,6)
proof (induction n arbitrary: i)
  case (Suc n)
  show ?case
  proof (cases "i = k")
    case True
    have "fst r" if "match_op P pdu k s = Some r" for r
      using if_returnsD [OF match_op_hit [OF assms(1,5)] that] .
    then show ?thesis
      using True by (cases "match_op P pdu k s") auto
  next
    case False
    then have "match_op P pdu i s = Some (False, s)"
      using Suc.prems assms(2) by (intro match_op_miss [OF assms(1)]) auto
    then show ?thesis using False Suc by simp
  qed
qed simp


section \<open>Replies\<close>

lemma waits_ack:
  assumes "m_type m = CT_ACK" "waits_for m op"
  shows "op_state op = EXO_REQUEST_PENDING" "op_mid op = m_mid m"
  using assms by (simp_all add: waits_for_def)

lemma match_op_ack:
  assumes "represents pdu m" "m_type m = CT_ACK" "i < length (x_ops s)" "waits_for m (x_ops s ! i)"
  shows "match_op P pdu i s =
     (if drop_bit 5 (m_code m) = 2 then handle_ack_success P pdu i s
      else Option.bind (handle_ack_failure P pdu i s) (\<lambda>s. Some (True, s)))"
  using assms(3) waits_ack [OF assms(2,4)]
  by (simp add: match_op_def getters [OF assms(1)] assms(2) get_op_def)

text \<open>The payload of a message, empty when it has none.\<close>

definition payload_of :: "coap_msg \<Rightarrow> bytes" where
  "payload_of m = (case m_payload m of None \<Rightarrow> [] | Some p \<Rightarrow> p)"

lemma ack_read:
  assumes "represents pdu m" "m_type m = CT_ACK" "drop_bit 5 (m_code m) = 2" "i < length (x_ops s)"
    and op: "op = x_ops s ! i" "op_type op = EXO_READ" "waits_for m op" "op_value op = Some a"
      "x_heap s a = Some blk" "0 < length blk" "op_value_max op \<le> length blk" "length blk < size_max div 2"
  shows "match_op P pdu i s = Some (True,
     if payload_of m = [] then s\<lparr>x_heap := (x_heap s)(a \<mapsto> stored_block [] blk)\<rparr>
     else if op_value_max op \<le> length (payload_of m)
       then s\<lparr>x_ops := (x_ops s)[i := op\<lparr>op_state := EXO_REQUEST_ERROR\<rparr>]\<rparr>
     else s\<lparr>x_heap := (x_heap s)(a \<mapsto> stored_block (payload_of m) blk),
            x_ops := (x_ops s)[i := op\<lparr>op_state := EXO_REQUEST_SUCCESS\<rparr>]\<rparr>)"
proof -
  obtain payload where pl: "coap_get_payload pdu = Some payload"
    using get_payload_represents(1) [OF assms(1)] by blast
  have st: "store_value pdu payload op (x_heap s) = Some
     (if payload_of m = [] then (StoredEmpty, (x_heap s)(a \<mapsto> stored_block [] blk))
      else if op_value_max op \<le> length (payload_of m) then (StoredTooBig, x_heap s)
      else (StoredValue, (x_heap s)(a \<mapsto> stored_block (payload_of m) blk)))"
    by (rule store_value_correct [of pdu m payload op a "x_heap s" blk, OF assms(1) pl op(4-8) payload_of_def])
  show ?thesis
    using match_op_ack [OF assms(1,2,4), of P] assms(3,4) op(1-3) st
    by (simp add: handle_ack_success_def get_op_def upd_op_def pl set_state_def)
qed

lemma ack_write:
  assumes "represents pdu m" "m_type m = CT_ACK" "drop_bit 5 (m_code m) = 2" "i < length (x_ops s)"
    "waits_for m (x_ops s ! i)" "op_type (x_ops s ! i) = EXO_WRITE"
  shows "match_op P pdu i s =
     Some (True, s\<lparr>x_ops := (x_ops s)[i := (x_ops s ! i)\<lparr>op_state := EXO_REQUEST_SUCCESS\<rparr>]\<rparr>)"
  using match_op_ack [OF assms(1,2,4,5), of P] assms(3,4,6)
  by (simp add: handle_ack_success_def get_op_def upd_op_def set_state_def)

text \<open>An activation is answered with the new CIK.\<close>

lemma ack_activate:
  assumes "represents pdu m" "m_type m = CT_ACK" "drop_bit 5 (m_code m) = 2" "i < length (x_ops s)"
    "waits_for m (x_ops s ! i)" "op_type (x_ops s ! i) = EXO_ACTIVATE"
    "m_payload m = Some cik" "length cik = CIK_LENGTH" "length (lib_cik (x_lib s)) = CIK_LENGTH + 1"
  shows "match_op P pdu i s = Some (True,
     s\<lparr>x_lib := (x_lib s)\<lparr>lib_cik := cik @ [0], lib_device := EXO_STATE_GOOD\<rparr>,
       x_world := snd (exopal_store_cik P (cik @ [0]) (x_world s)),
       x_ops := (x_ops s)[i := exo_op_init (x_ops s ! i)]\<rparr>)"
proof -
  obtain q where q: "coap_get_payload pdu = Some \<lparr>pl_len = CIK_LENGTH, pl_val = Buf q\<rparr>"
    "mem_read (pdu_buf pdu) q CIK_LENGTH = Some cik"
    using get_payload_represents [OF assms(1)] assms(7,8) by auto
  have "mem_write (lib_cik (x_lib s)) 0 cik = Some (cik @ [lib_cik (x_lib s) ! CIK_LENGTH])"
    using assms(8,9) by (simp add: mem_write_def take_Suc_conv_app_nth flip: Cons_nth_drop_Suc)
  moreover have "wr (cik @ [x]) CIK_LENGTH 0 = Some (cik @ [0])" for x
    using wr_append [of cik x "[]" 0] assms(8) by simp
  ultimately show ?thesis
    using match_op_ack [OF assms(1,2,4,5), of P] assms(3,4,6) q
    by (simp add: handle_ack_success_def get_op_def upd_op_def set_state_def split_beta Let_def)
qed


lemma expiry_frame:
  "x_heap (snd (expiry P age s)) = x_heap s" "x_lib (snd (expiry P age s)) = x_lib s"
  "expiry P age (s\<lparr>x_ops := ops\<rparr>) = (fst (expiry P age s), (snd (expiry P age s))\<lparr>x_ops := ops\<rparr>)"
  by (simp_all add: expiry_def now_of_def rand_of_def split_beta Let_def)

lemma ack_subscribe:
  fixes P :: "'w plat"
  assumes "represents pdu m" "m_type m = CT_ACK" "drop_bit 5 (m_code m) = 2" "i < length (x_ops s)"
    and op: "op = x_ops s ! i" "op_type op = EXO_SUBSCRIBE" "waits_for m op" "op_value op = Some a"
      "x_heap s a = Some blk" "0 < length blk" "op_value_max op \<le> length blk" "length blk < size_max div 2"
    and "observe_ok m" "payload_of m \<noteq> []" "length (payload_of m) < op_value_max op"
  defines "e \<equiv> expiry P (msg_max_age m) (s\<lparr>x_heap := (x_heap s)(a \<mapsto> stored_block (payload_of m) blk)\<rparr>)"
  shows "match_op P pdu i s = Some (True, (snd e)\<lparr>x_ops := (x_ops s)[i := op\<lparr>op_state := EXO_REQUEST_SUCCESS,
     op_obs_seq := obs_fold 0 (observe_bytes m) (op_obs_seq op), op_timeout := fst e\<rparr>]\<rparr>)"
proof -
  obtain payload where pl: "coap_get_payload pdu = Some payload"
    using get_payload_represents(1) [OF assms(1)] by blast
  have st: "store_value pdu payload op (x_heap s) =
      Some (StoredValue, (x_heap s)(a \<mapsto> stored_block (payload_of m) blk))"
    using store_value_correct [of pdu m payload op a "x_heap s" blk, OF assms(1) pl op(4-8) payload_of_def]
      assms(14,15) by simp
  obtain opt opt' where "coap_get_option_by_num pdu CON_OBSERVE 0 = Some opt"
    "\<And>seq. obs_seq_loop (pdu_buf pdu) opt 0 seq = Some (obs_fold 0 (observe_bytes m) seq)"
    "coap_get_option_by_num pdu CON_MAX_AGE 0 = Some opt'" "max_age pdu opt' = Some (msg_max_age m)"
    using observe_seq [OF assms(1,13)] max_age_correct [OF assms(1)] by blast
  then show ?thesis
    using match_op_ack [OF assms(1,2,4), of P] assms(3,4) op(1-3) st
    by (simp add: handle_ack_success_def get_op_def upd_op_def pl set_state_def split_beta Let_def
        expiry_frame e_def)
qed

text \<open>A notification of a subscribed value.\<close>

lemma notification:
  fixes P :: "'w plat"
  assumes "represents pdu m" "m_type m = CT_CON \<or> m_type m = CT_NON" "m_code m = cc_val CC_CONTENT"
    "i < length (x_ops s)"
    and op: "op = x_ops s ! i" "waits_for m op" "op_value op = Some a"
      "x_heap s a = Some blk" "0 < length blk" "op_value_max op \<le> length blk" "length blk < size_max div 2"
    and "observe_ok m" "payload_of m \<noteq> []" "length (payload_of m) < op_value_max op"
  defines "e \<equiv> expiry P (msg_max_age m) (s\<lparr>x_heap := (x_heap s)(a \<mapsto> stored_block (payload_of m) blk)\<rparr>)"
    and "seq \<equiv> obs_fold 0 (observe_bytes m) 0"
  shows "match_op P pdu i s = Some (True, (snd e)\<lparr>x_ops := (x_ops s)[i := op\<lparr>op_mid := m_mid m,
     op_state := if op_obs_seq op = seq then EXO_REQUEST_SUB_ACK else EXO_REQUEST_SUB_ACK_NEW,
     op_obs_seq := seq, op_timeout := fst e\<rparr>]\<rparr>)"
proof -
  obtain payload where pl: "coap_get_payload pdu = Some payload"
    using get_payload_represents(1) [OF assms(1)] by blast
  have st: "store_value pdu payload op (x_heap s) =
      Some (StoredValue, (x_heap s)(a \<mapsto> stored_block (payload_of m) blk))"
    using store_value_correct [of pdu m payload op a "x_heap s" blk, OF assms(1) pl op(3-7) payload_of_def]
      assms(13,14) by simp
  obtain opt opt' where opt: "coap_get_option_by_num pdu CON_OBSERVE 0 = Some opt"
    "\<And>seq. obs_seq_loop (pdu_buf pdu) opt 0 seq = Some (obs_fold 0 (observe_bytes m) seq)"
    "coap_get_option_by_num pdu CON_MAX_AGE 0 = Some opt'" "max_age pdu opt' = Some (msg_max_age m)"
    using observe_seq [OF assms(1,12)] max_age_correct [OF assms(1)] by blast
  have w: "op_state op = EXO_REQUEST_SUBSCRIBED" "le_bytes (m_token m) = op_token op"
    using assms(2) op(2) by (auto simp: waits_for_def)
  have "match_op P pdu i s = Option.bind (handle_notification P pdu i s) (\<lambda>s. Some (True, s))"
    using assms(2,4) op(1) w by (auto simp: match_op_def getters [OF assms(1)] get_op_def)
  moreover have up: "(if op_obs_seq op \<noteq> seq
        then op\<lparr>op_mid := m_mid m, op_state := EXO_REQUEST_SUB_ACK_NEW, op_obs_seq := seq\<rparr>
        else op\<lparr>op_mid := m_mid m, op_state := EXO_REQUEST_SUB_ACK\<rparr>) =
      op\<lparr>op_mid := m_mid m,
        op_state := if op_obs_seq op = seq then EXO_REQUEST_SUB_ACK else EXO_REQUEST_SUB_ACK_NEW,
        op_obs_seq := seq\<rparr>"
    by (cases "op_obs_seq op = seq") auto
  ultimately show ?thesis
    using assms(3,4) op(1) st opt
    by (simp add: handle_notification_def getters [OF assms(1)] get_op_def upd_op_def pl split_beta Let_def
        expiry_frame e_def seq_def up [unfolded op(1) seq_def] split del: if_split)
qed

text \<open>
  A refused request ends in the error state. The code 4.01 also has operation 0 activate the
  device again, unless it waits for something; 4.04 counts as a sign that the CIK is good.
\<close>

lemma ack_refused:
  assumes "represents pdu m" "m_type m = CT_ACK" "drop_bit 5 (m_code m) \<noteq> 2" "i < length (x_ops s)"
    "waits_for m (x_ops s ! i)"
  defines "s1 \<equiv> s\<lparr>x_ops := (x_ops s)[i := (x_ops s ! i)\<lparr>op_state := EXO_REQUEST_ERROR\<rparr>]\<rparr>"
  shows "match_op P pdu i s = Some (True,
     if m_code m = cc_val CC_UNAUTHORIZED then
       (if op_type (x_ops s ! 0) = EXO_NULL then s1\<lparr>x_ops := (x_ops s1)[0 := exo_activate (x_ops s1 ! 0)]\<rparr>
        else let (t, s2) = now_of P s1 in
          if op_timeout (x_ops s ! 0) < t then s2\<lparr>x_ops := (x_ops s1)[0 := exo_activate (x_ops s1 ! 0)]\<rparr> else s2)
     else if m_code m = cc_val CC_NOT_FOUND then s1\<lparr>x_lib := (x_lib s)\<lparr>lib_device := EXO_STATE_GOOD\<rparr>\<rparr>
     else s1)"
proof -
  have ne: "x_ops s \<noteq> []" using assms(4) by auto
  have u: "upd_op i (set_state EXO_REQUEST_ERROR) s = Some s1" "get_op 0 s1 = Some (x_ops s1 ! 0)"
    "upd_op 0 exo_activate s1 = Some (s1\<lparr>x_ops := (x_ops s1)[0 := exo_activate (x_ops s1 ! 0)]\<rparr>)"
    "upd_op 0 exo_activate (snd (now_of P s1)) =
       Some ((snd (now_of P s1))\<lparr>x_ops := (x_ops s1)[0 := exo_activate (x_ops s1 ! 0)]\<rparr>)"
    using ne assms(4) by (simp_all add: upd_op_def get_op_def set_state_def s1_def)
  have op0: "op_type (x_ops s1 ! 0) = op_type (x_ops s ! 0)" "op_timeout (x_ops s1 ! 0) = op_timeout (x_ops s ! 0)"
    "x_lib s1 = x_lib s"
    using assms(4) by (cases "i = 0"; simp add: s1_def)+
  show ?thesis
    using assms(3)
    by (simp add: match_op_ack [OF assms(1,2,4,5)] handle_ack_failure_def getters [OF assms(1)] u op0
        split_beta Let_def)
qed

lemma reset_received:
  assumes "represents pdu m" "m_type m = CT_RST" "i < length (x_ops s)" "waits_for m (x_ops s ! i)"
  shows "match_op P pdu i s =
     Some (True, s\<lparr>x_ops := (x_ops s)[i := (x_ops s ! i)\<lparr>op_state := EXO_REQUEST_ERROR\<rparr>]\<rparr>)"
  using assms(2-4)
  by (auto simp: match_op_def getters [OF assms(1)] get_op_def upd_op_def waits_for_def set_state_def)

end
