(* ===== verification/Exo_Request.thy ===== *)
theory Exo_Request
  imports Exo_Dispatch
begin

text \<open>
  The request an operation stands for, the builder call that makes it, and the passes that send it,
  repeat it and give up on it.
\<close>

section \<open>The request of an operation\<close>

text \<open>A NUL-terminated string of the application.\<close>

definition str_of :: "heap \<Rightarrow> cptr \<Rightarrow> bytes option" where
  "str_of h p = Option.bind (hload h p) cstr"

lemma str_at_of: "str_at h p s \<longleftrightarrow> str_of h p = Some s"
  by (simp add: str_at_def str_of_def)

definition op_request :: "heap \<Rightarrow> exo_lib \<Rightarrow> u64 \<Rightarrow> exo_op \<Rightarrow> coap_msg option" where
  "op_request h lib rnd op =
     (case op_type op of
        EXO_READ \<Rightarrow> do { a \<leftarrow> str_of h (op_alias op); Some (read_msg (lib_mid lib) rnd (lib_cik lib) a) }
      | EXO_SUBSCRIBE \<Rightarrow> do { a \<leftarrow> str_of h (op_alias op); Some (observe_msg (lib_mid lib) rnd (lib_cik lib) a) }
      | EXO_WRITE \<Rightarrow> do { a \<leftarrow> str_of h (op_alias op); v \<leftarrow> str_of h (op_value op);
                          Some (write_msg (lib_mid lib) rnd (lib_cik lib) a v) }
      | EXO_ACTIVATE \<Rightarrow> do { v \<leftarrow> str_of h (lib_vendor lib); m \<leftarrow> str_of h (lib_model lib);
                             sn \<leftarrow> str_of h (lib_serial lib); Some (activate_msg (lib_mid lib) rnd v m sn) }
      | EXO_NULL \<Rightarrow> None)"

text \<open>Every value of a message is shorter than its encoding.\<close>

lemma length_opts_value: "(n, v) \<in> set os \<Longrightarrow> length v \<le> length (opts_enc prev os)"
  by (induction prev os rule: opts_enc.induct) auto

lemma encode_bounds_values:
  assumes "length (encode_msg m) \<le> cap" "cap < 65536" "(n, v) \<in> set (m_opts m)"
  shows "length v < 65536"
  using assms length_opts_value [OF assms(3), of 0] by (simp add: encode_msg_def)

lemma request_values:
  "m_opts (read_msg mid rnd cik a) = alias_opts a cik"
  "m_opts (observe_msg mid rnd cik a) = (con_val CON_OBSERVE, [0]) # alias_opts a cik"
  "m_opts (write_msg mid rnd cik a v) = alias_opts a cik"
  "m_opts (activate_msg mid rnd ve mo sn) =
     map (\<lambda>s. (con_val CON_URI_PATH, s)) [str_bytes ''provision'', str_bytes ''activate'', ve, mo, sn]"
  by (simp_all add: read_msg_def observe_msg_def write_msg_def activate_msg_def with_payload_def request_def)

lemma alias_opts_value: "(con_val CON_URI_PATH, a) \<in> set (alias_opts a cik)"
  by (simp add: alias_opts_def)

lemma op_builder_correct:
  assumes "op_request h lib rnd op = Some m" "wf_mem pdu" "CIK_LENGTH \<le> length (lib_cik lib)"
    "length (encode_msg m) \<le> pdu_max pdu" "pdu_max pdu < 65536"
  shows "\<exists>q. op_builder op h lib rnd pdu = Some (EXO_OK, q, next_mid lib) \<and>
     represents q m \<and> pdu_max q = pdu_max pdu"
proof -
  note short = encode_bounds_values [OF assms(4,5)]
  show ?thesis
  proof (cases "op_type op")
    case EXO_READ
    then obtain a where a: "str_at h (op_alias op) a" "m = read_msg (lib_mid lib) rnd (lib_cik lib) a"
      using assms(1) by (auto simp: op_request_def str_at_of bind_eq_Some_conv)
    with short [of "con_val CON_URI_PATH" a] build_msg_read_correct [OF assms(2,3) a(1)] assms(4) EXO_READ show ?thesis
      by (simp add: op_builder_def request_values alias_opts_value del: con_val.simps)
  next
    case EXO_SUBSCRIBE
    then obtain a where a: "str_at h (op_alias op) a" "m = observe_msg (lib_mid lib) rnd (lib_cik lib) a"
      using assms(1) by (auto simp: op_request_def str_at_of bind_eq_Some_conv)
    with short [of "con_val CON_URI_PATH" a] build_msg_observe_correct [OF assms(2,3) a(1)] assms(4) EXO_SUBSCRIBE
    show ?thesis
      by (simp add: op_builder_def request_values alias_opts_value del: con_val.simps)
  next
    case EXO_WRITE
    then obtain a v where a: "str_at h (op_alias op) a" "str_at h (op_value op) v"
      "m = write_msg (lib_mid lib) rnd (lib_cik lib) a v"
      using assms(1) by (auto simp: op_request_def str_at_of bind_eq_Some_conv)
    with short [of "con_val CON_URI_PATH" a] build_msg_write_correct [OF assms(2,3) a(1) _ a(2)] assms(4) EXO_WRITE
    show ?thesis
      by (simp add: op_builder_def request_values alias_opts_value del: con_val.simps)
  next
    case EXO_ACTIVATE
    then obtain v mo sn where a: "str_at h (lib_vendor lib) v" "str_at h (lib_model lib) mo"
      "str_at h (lib_serial lib) sn" "m = activate_msg (lib_mid lib) rnd v mo sn"
      using assms(1) by (auto simp: op_request_def str_at_of bind_eq_Some_conv)
    then have "length v < 65536" "length mo < 65536" "length sn < 65536"
      using short by (auto simp: request_values)
    with build_msg_activate_correct [OF assms(2) a(1-3)] a(4) assms(4) EXO_ACTIVATE show ?thesis
      by (simp add: op_builder_def)
  qed (use assms(1) in \<open>simp add: op_request_def\<close>)
qed

lemma op_request_header:
  assumes "op_request h lib rnd op = Some m"
  shows "op_type op \<noteq> EXO_NULL" "m_type m = CT_CON" "m_mid m = lib_mid lib" "m_token m = bytes_le 2 rnd"
  using assms
  by (auto simp: op_request_def bind_eq_Some_conv read_msg_def observe_msg_def write_msg_def activate_msg_def
      with_payload_def request_def split: exo_request_type.splits)

text \<open>In a well-formed state every typed operation has a request.\<close>

lemma str_ok_of: "str_ok h p \<Longrightarrow> \<exists>s. str_of h p = Some s"
  by (auto simp: str_ok_def str_of_def cstr_def split: option.splits)

lemma op_request_exists:
  assumes "op_mem h op" "lib_ok h lib" "op_type op \<noteq> EXO_NULL"
  shows "\<exists>m. op_request h lib rnd op = Some m"
  using assms
  by (cases "op_type op") (auto simp: op_mem_def lib_ok_def op_request_def dest!: str_ok_of)


section \<open>A pass over one operation\<close>

lemma active_op_expired:
  assumes "i < length (x_ops s)" "op = x_ops s ! i" "op_state op = EXO_REQUEST_PENDING" "op_timeout op \<le> now"
    "op_type op \<in> {EXO_READ, EXO_WRITE, EXO_ACTIVATE}"
  shows "active_op P now i pdu s =
     (if op_retries op < COAP_MAX_RETRANSMIT then retransmit P i op pdu s
      else Some (pdu, s\<lparr>x_ops := (x_ops s)[i := op\<lparr>op_state := EXO_REQUEST_ERROR\<rparr>]\<rparr>))"
  using assms by (auto simp: active_op_def get_op_def check_timeout_def upd_op_def set_state_def)

context datagram_pal
begin

lemma new_request_exact:
  assumes "pdu_ready pdu" "i < length (x_ops s)" "op = x_ops s ! i" "op_state op = EXO_REQUEST_NEW"
    "CIK_LENGTH \<le> length (lib_cik (x_lib s))" "rnd = fst (rand_of P s)"
    "op_request (x_heap s) (x_lib s) rnd op = Some req" "length (encode_msg req) \<le> MINIMUM_DATAGRAM_SIZE"
  shows "\<exists>t q s'. active_op P now i pdu s = Some (q, s') \<and>
     x_heap s' = x_heap s \<and> x_lib s' = next_mid (x_lib s) \<and> inq (x_world s') = inq (x_world s) \<and>
     (if fst (exopal_udp_send P (encode_msg req) (x_world (snd (rand_of P s)))) = 0
      then outq (x_world s') = outq (x_world s) @ [encode_msg req] \<and>
           x_ops s' = (x_ops s)[i := op\<lparr>op_state := EXO_REQUEST_PENDING, op_timeout := t + 4000000,
                       op_mid := lib_mid (x_lib s), op_token := take_bit 16 rnd\<rparr>]
      else outq (x_world s') = outq (x_world s) \<and> x_ops s' = x_ops s)"
proof -
  have "length (encode_msg req) \<le> pdu_max pdu" "wf_mem pdu" "pdu_max pdu < 65536"
    using assms(1,8) by (simp_all add: pdu_ready_def MINIMUM_DATAGRAM_SIZE_def)
  from op_builder_correct [OF assms(7) this(2) assms(5) this(1,3)] obtain q where
    q: "op_builder op (x_heap s) (x_lib s) (fst (rand_of P s)) pdu = Some (EXO_OK, q, next_mid (x_lib s))"
      "represents q req"
    using assms(6) by blast
  have act: "active_op P now i pdu s = send_new P i op pdu s"
    using assms(2-4) by (simp add: active_op_def get_op_def)
  note hdr = op_request_header [OF assms(7)]
  have tok: "le_bytes (bytes_le 2 rnd) = take_bit 16 rnd" by (simp add: le_bytes_bytes_le)
  from send_new_exact [OF assms(2) hdr(1) q, folded act assms(3), unfolded hdr tok] show ?thesis by blast
qed

lemma oversize_write_exact:
  assumes "pdu_ready pdu" "i < length (x_ops s)" "op = x_ops s ! i" "op_state op = EXO_REQUEST_NEW"
    "op_type op = EXO_WRITE" "str_at (x_heap s) (op_alias op) a" "str_at (x_heap s) (op_value op) v"
    "CIK_LENGTH \<le> length (lib_cik (x_lib s))" "rnd = fst (rand_of P s)" "length v < size_max div 2"
    "req = request CC_POST (lib_mid (x_lib s)) rnd (alias_opts a (lib_cik (x_lib s)))"
    "length (encode_msg req) \<le> MINIMUM_DATAGRAM_SIZE"
    "MINIMUM_DATAGRAM_SIZE < length (encode_msg (with_payload req v))"
  shows "\<exists>t q s'. active_op P now i pdu s = Some (q, s') \<and>
     (if fst (exopal_udp_send P (encode_msg req) (x_world (snd (rand_of P s)))) = 0
      then outq (x_world s') = outq (x_world s) @ [encode_msg req] \<and>
           x_ops s' = (x_ops s)[i := op\<lparr>op_state := EXO_REQUEST_PENDING, op_timeout := t + 4000000,
                       op_mid := lib_mid (x_lib s), op_token := take_bit 16 rnd\<rparr>]
      else outq (x_world s') = outq (x_world s) \<and> x_ops s' = x_ops s)"
proof -
  have "m_opts req = alias_opts a (lib_cik (x_lib s))" by (simp add: assms(11) request_def)
  then have "length a < 65536"
    using encode_bounds_values [OF assms(12), of "con_val CON_URI_PATH" a] alias_opts_value
    by (simp add: MINIMUM_DATAGRAM_SIZE_def)
  moreover have "wf_mem pdu" "pdu_max pdu = MINIMUM_DATAGRAM_SIZE" using assms(1) by (simp_all add: pdu_ready_def)
  ultimately obtain q where q: "exo_build_msg_write (x_heap s) (x_lib s) (op_alias op) (op_value op) rnd pdu =
      Some (EXO_GENERAL_ERROR, q, next_mid (x_lib s))" "represents q req"
    using build_msg_write_oversize [OF _ assms(8,6) _ assms(7,10,11)] assms(12,13) by metis
  then have b: "op_builder op (x_heap s) (x_lib s) (fst (rand_of P s)) pdu =
      Some (EXO_GENERAL_ERROR, q, next_mid (x_lib s))" "op_type op \<noteq> EXO_NULL"
    using assms(5,9) by (simp_all add: op_builder_def)
  have act: "active_op P now i pdu s = send_new P i op pdu s"
    using assms(2-4) by (simp add: active_op_def get_op_def)
  have hdr: "m_mid req = lib_mid (x_lib s)" "le_bytes (m_token req) = take_bit 16 rnd"
    by (simp_all add: assms(11) request_def le_bytes_bytes_le)
  from send_new_exact [OF assms(2) b(2,1) q(2), folded act assms(3), unfolded hdr] show ?thesis by blast
qed

lemma expired_request_exact:
  assumes "pdu_ready pdu" "i < length (x_ops s)" "op = x_ops s ! i" "op_state op = EXO_REQUEST_PENDING"
    "op_timeout op \<le> now" "op_retries op < COAP_MAX_RETRANSMIT" "op_inv op"
    "op_type op \<in> {EXO_READ, EXO_WRITE, EXO_ACTIVATE}"
    "CIK_LENGTH \<le> length (lib_cik (x_lib s))" "rnd = fst (rand_of P s)"
    "op_request (x_heap s) (x_lib s) rnd op = Some req" "length (encode_msg req) \<le> MINIMUM_DATAGRAM_SIZE"
    "req' = req\<lparr>m_mid := op_mid op, m_token := []\<rparr>"
  shows "\<exists>t q s'. active_op P now i pdu s = Some (q, s') \<and>
     (if fst (exopal_udp_send P (encode_msg req') (x_world (snd (rand_of P s)))) = 0
      then outq (x_world s') = outq (x_world s) @ [encode_msg req'] \<and>
           x_ops s' = (x_ops s)[i := op\<lparr>op_retries := op_retries op + 1, op_timeout := t\<rparr>]
      else outq (x_world s') = outq (x_world s) \<and> x_ops s' = x_ops s)"
proof -
  have "length (encode_msg req) \<le> pdu_max pdu" "wf_mem pdu" "pdu_max pdu < 65536"
    using assms(1,12) by (simp_all add: pdu_ready_def MINIMUM_DATAGRAM_SIZE_def)
  from op_builder_correct [OF assms(11) this(2) assms(9) this(1,3)] obtain q where
    q: "op_builder op (x_heap s) (x_lib s) (fst (rand_of P s)) pdu = Some (EXO_OK, q, next_mid (x_lib s))"
      "represents q req"
    using assms(10) by blast
  have act: "active_op P now i pdu s = retransmit P i op pdu s"
    using active_op_expired [OF assms(2-5,8)] assms(6) by simp
  have "op_tkl op = 0" using assms(7) by (simp add: op_inv_def)
  from retransmit_exact [OF assms(2) this q, folded act assms(3,13)] show ?thesis by blast
qed

text \<open>On a platform that sends, a pass at or after the timeout repeats the request, whatever its size.\<close>

lemma late_pass_repeats:
  assumes "pdu_ready pdu" "i < length (x_ops s)" "op = x_ops s ! i" "state_ok s"
    "op_state op = EXO_REQUEST_PENDING" "op_timeout op \<le> now" "op_retries op < COAP_MAX_RETRANSMIT"
    "op_type op \<in> {EXO_READ, EXO_WRITE, EXO_ACTIVATE}" "\<And>bs w. fst (exopal_udp_send P bs w) = 0"
  obtains t q s' m where "active_op P now i pdu s = Some (q, s')" "pdu_ready q" "state_ok s'"
    "x_ops s' = (x_ops s)[i := op\<lparr>op_retries := op_retries op + 1, op_timeout := t\<rparr>]"
    "outq (x_world s') = outq (x_world s) @ [encode_msg m]"
proof -
  have ok: "op_mem (x_heap s) op" "lib_ok (x_heap s) (x_lib s)" "op_tkl op = 0" "op_type op \<noteq> EXO_NULL"
    using assms(2-4,8) by (auto simp: state_ok_def op_inv_def)
  have "wf_mem pdu" "pdu_max pdu = MINIMUM_DATAGRAM_SIZE" using assms(1) by (simp_all add: pdu_ready_def)
  then obtain e q m where q: "op_builder op (x_heap s) (x_lib s) (fst (rand_of P s)) pdu =
      Some (e, q, next_mid (x_lib s))" "represents q m"
    using op_builder_total [of pdu "x_heap s" op "x_lib s" "fst (rand_of P s)"] ok
    by (auto simp: MINIMUM_DATAGRAM_SIZE_def some_request_def elim!: returnsE)
  have act: "active_op P now i pdu s = retransmit P i op pdu s"
    using active_op_expired [OF assms(2,3,5,6,8)] assms(7) by simp
  from retransmit_exact [OF assms(2) ok(3) q] assms(9) obtain t q' s' where
    r: "active_op P now i pdu s = Some (q', s')"
      "outq (x_world s') = outq (x_world s) @ [encode_msg (m\<lparr>m_mid := op_mid op, m_token := []\<rparr>)]"
      "x_ops s' = (x_ops s)[i := op\<lparr>op_retries := op_retries op + 1, op_timeout := t\<rparr>]"
    unfolding act assms(3) by auto
  have "pdu_ready q'" "state_ok s'"
    using active_op_sends [OF assms(1,2,4), of now] r(1) evolves_state_ok [OF _ assms(4)]
    by auto
  with r that show thesis by blast
qed

end

end
