(* ===== verification/Exo_Frame.thy ===== *)
theory Exo_Frame
  imports Exo_Dispatch
begin

text \<open>
  What a call of \<open>exo_operate\<close> keeps whatever the network and the platform do: the sizes of the
  application's blocks, the strings in them, and with that the well-formedness of the state.
\<close>

section \<open>The pass over the operations and the memory\<close>

text \<open>Sending never writes to the application's memory, and counts at most one message id.\<close>

abbreviation sending :: "'w exo \<Rightarrow> 'p \<times> 'w exo \<Rightarrow> bool" where
  "sending s \<equiv> \<lambda>(_, s'). x_heap s' = x_heap s \<and> (x_lib s' = x_lib s \<or> x_lib s' = next_mid (x_lib s))"

lemma mem_of_calls [simp]:
  "x_heap (snd (now_of P s)) = x_heap s" "x_heap (snd (rand_of P s)) = x_heap s"
  "x_lib (snd (now_of P s)) = x_lib s" "x_lib (snd (rand_of P s)) = x_lib s"
  by (simp_all add: now_of_def rand_of_def split: prod.splits)

lemma send_pdu_mem: "if_returns (send_pdu P pdu s) (\<lambda>(rc, s'). x_heap s' = x_heap s \<and> x_lib s' = x_lib s)"
  by (auto simp: send_pdu_def split_beta Let_def intro!: if_returnsI)

lemma op_builder_lib:
  "op_builder op h lib r pdu = Some (e, q, lib') \<Longrightarrow> lib' = lib \<or> lib' = next_mid lib"
  by (auto simp: op_builder_def exo_build_msg_read_def exo_build_msg_write_def exo_build_msg_observe_def
      exo_build_msg_activate_def bind_eq_Some_conv split: exo_request_type.splits)

lemma build_for_mem: "if_returns (build_for P (op_builder op) pdu s) (sending s)"
  by (auto simp: build_for_def split_beta Let_def intro!: if_returnsI dest: op_builder_lib)

lemma if_returns_packets:
  "(\<And>x. Q x) \<Longrightarrow> if_returns (coap_set_mid p i) Q" "(\<And>x. Q x) \<Longrightarrow> if_returns (coap_set_token p t l) Q"
  "(\<And>x. R x) \<Longrightarrow> if_returns (exo_build_msg_ack i p) R" "(\<And>x. S x) \<Longrightarrow> if_returns (coap_get_mid p) S"
  "(\<And>x. T x) \<Longrightarrow> if_returns (coap_get_token p) T"
  by (simp_all add: if_returns_def)

lemmas mem_mono = if_returns_packets if_returns_mono [OF build_for_mem] if_returns_mono [OF send_pdu_mem]

lemma send_new_mem: "if_returns (send_new P i op pdu s) (sending s)"
  unfolding send_new_def by (auto simp: split_beta Let_def intro!: mem_mono)

lemma retransmit_mem: "if_returns (retransmit P i op pdu s) (sending s)"
  unfolding retransmit_def by (auto simp: split_beta Let_def intro!: mem_mono)

lemma send_ack_mem: "if_returns (send_ack P i op pdu s) (sending s)"
  unfolding send_ack_def by (auto simp: split_beta Let_def intro!: mem_mono)

lemma active_op_mem: "if_returns (active_op P now i pdu s) (sending s)"
  using send_new_mem retransmit_mem send_ack_mem
  by (auto simp: active_op_def check_timeout_def split: exo_request_state.split)

interpretation sent: pass_rel P "\<lambda>s s'. x_heap s' = x_heap s" for P
proof unfold_locales
  show "if_returns (active_op P now i pdu s) (\<lambda>(pdu', s'). x_heap s' = x_heap s)" for now i pdu s
    by (rule if_returns_mono [OF active_op_mem]) auto
qed simp_all

lemma heap_of_expiry [simp]: "x_heap (snd (expiry P age s)) = x_heap s"
  by (simp add: expiry_def split_beta Let_def)


section \<open>Received messages and the memory\<close>

abbreviation kept :: "'w exo \<Rightarrow> 'w exo \<Rightarrow> bool" where
  "kept \<equiv> frame (\<lambda>_. ())"

lemma store_value_kept:
  assumes "store_value pdu payload op h = Some (out, h')"
  shows "heap_kept h h'"
proof -
  have stored: "heap_kept h h2" if st: "hstore h p 0 bs = Some h1" "hstore h1 p n [0] = Some h2" for p bs n h1 h2
  proof -
    obtain a blk blk1 blk2 where b: "h a = Some blk" "mem_write blk 0 bs = Some blk1" "h1 = h(a \<mapsto> blk1)"
      "mem_write blk1 n [0] = Some blk2" "h2 = h1(a \<mapsto> blk2)"
      using st by (auto simp: hstore_def bind_eq_Some_conv)
    moreover have "length blk2 = length blk" "0 \<in> set blk2"
      using b(2,4) by (auto simp: mem_write_def split: if_splits)
    ultimately show ?thesis by (simp add: heap_kept_update)
  qed
  have empty: "heap_kept h h1" if "hstore h p 0 [0] = Some h1" for p h1
    using that by (auto simp: hstore_def bind_eq_Some_conv mem_write_def split: if_splits intro!: heap_kept_update)
  show ?thesis
    using assms empty stored
    by (auto simp: store_value_def bind_eq_Some_conv split: if_splits)
qed

lemma kept_simps [simp]:
  "kept s (snd (now_of P s'))= kept s s'" "kept s (snd (rand_of P s')) = kept s s'"
  "kept s (snd (expiry P age s')) = kept s s'" "kept s (s'\<lparr>x_ops := ops\<rparr>) = kept s s'"
  "kept s (s'\<lparr>x_world := w\<rparr>) = kept s s'"
  by (simp_all add: frame_def now_of_def rand_of_def expiry_def split: prod.splits)

lemma store_value_frame:
  "store_value pdu payload op (x_heap s) = Some (out, h) \<Longrightarrow> kept s (s\<lparr>x_heap := h\<rparr>)"
  by (simp add: frame_def store_value_kept)

lemma if_returns_any: "(\<And>x. Q x) \<Longrightarrow> if_returns r Q"
  by (simp add: if_returns_def)

lemma handle_notification_kept: "if_returns (handle_notification P pdu i s) (kept s)"
  by (auto simp: handle_notification_def Let_def set_state_def split_beta split: stored.split
      intro!: if_returnsI store_value_frame)

lemma kept_cik:
  assumes "mem_write (lib_cik (x_lib s)) 0 bs = Some cik" "wr cik CIK_LENGTH 0 = Some cik'"
  shows "kept s (s\<lparr>x_ops := ops, x_lib := (x_lib s)\<lparr>lib_cik := cik', lib_device := dev\<rparr>\<rparr>)"
  using assms by (auto simp: frame_def dest!: mem_write_length wr_length)

lemma kept_device: "kept s (s\<lparr>x_ops := ops, x_lib := (x_lib s)\<lparr>lib_device := dev\<rparr>\<rparr>)"
  by (simp add: frame_def)

lemma handle_ack_success_kept: "if_returns (handle_ack_success P pdu i s) (\<lambda>(hit, s'). kept s s')"
  by (auto simp: handle_ack_success_def Let_def set_state_def split_beta
      split: stored.split exo_request_type.split intro!: if_returnsI store_value_frame kept_cik)

lemma handle_ack_failure_kept: "if_returns (handle_ack_failure P pdu i s) (kept s)"
  by (auto simp: handle_ack_failure_def Let_def set_state_def split_beta intro!: if_returnsI kept_device)

lemma match_op_kept: "if_returns (match_op P pdu i s) (\<lambda>(hit, s'). kept s s')"
  using handle_notification_kept [of P pdu i s] handle_ack_failure_kept [of P pdu i s]
    handle_ack_success_kept [of P pdu i s]
  by (auto simp: match_op_def set_state_def split_beta intro!: if_returnsI dest: if_returnsD)

lemma reply_rst_kept: "if_returns (reply_rst P pdu s) (kept s)"
  by (auto simp: reply_rst_def send_pdu_def split_beta Let_def frame_def intro!: if_returnsI)

lemma active_op_kept: "if_returns (active_op P now i pdu s) (\<lambda>(pdu', s'). kept s s')"
  by (rule if_returns_mono [OF active_op_mem]) (auto simp: frame_def next_mid_def)

lemma need_activation_kept: "if_returns (need_activation P s) (kept s)"
  by (auto simp: need_activation_def split_beta Let_def)

interpretation memory: engine_rel P kept for P
proof unfold_locales
  show "kept s s2" if "kept s s1" "kept s1 s2" for s s1 s2 :: "'a exo"
    using that by (rule frame_trans)
qed (simp_all add: match_op_kept reply_rst_kept active_op_kept need_activation_kept)

text \<open>The state stays well-formed in every call that returns.\<close>

lemma operate_state_ok:
  assumes "exo_operate P count s = Some (r, s')" "state_ok s"
  shows "state_ok s'"
  using state_ok_frame [OF assms(2) memory.operate_rel [OF assms(1)] operate_steps [OF assms(1)]] .

end
