(* ===== verification/Exo_Round.thy ===== *)
theory Exo_Round
  imports Exo_Request Exo_Frame
begin

text \<open>
  A whole call of \<open>exo_operate\<close> with answers waiting: each reaches the operation that waits for
  it, and the pass that follows leaves the results alone.
\<close>

section \<open>Answers to reads\<close>

text \<open>
  \<open>(k, m, p)\<close>: the message \<open>m\<close> with the payload \<open>p\<close> is the successful answer to the pending read \<open>k\<close> and to no other operation, and
  the payload fits.
\<close>

definition answers :: "nat \<Rightarrow> 'w exo \<Rightarrow> nat \<times> coap_msg \<times> bytes \<Rightarrow> bool" where
  "answers count s = (\<lambda>(k, m, p).
     k < count \<and> k \<noteq> 0 \<and> wf_msg m \<and> length (encode_msg m) \<le> MINIMUM_DATAGRAM_SIZE \<and> m_type m = CT_ACK \<and>
     drop_bit 5 (m_code m) = 2 \<and> m_payload m = Some p \<and> p \<noteq> [] \<and>
     op_type (x_ops s ! k) = EXO_READ \<and> length p < op_value_max (x_ops s ! k) \<and>
     (\<forall>i < count. waits_for m (x_ops s ! i) \<longleftrightarrow> i = k))"

text \<open>The operation and its buffer after the answer.\<close>

definition delivered :: "'w exo \<Rightarrow> 'w exo \<Rightarrow> nat \<times> coap_msg \<times> bytes \<Rightarrow> bool" where
  "delivered s s' = (\<lambda>(k, m, p).
     x_ops s' ! k = (x_ops s ! k)\<lparr>op_state := EXO_REQUEST_SUCCESS\<rparr> \<and>
     (\<exists>a blk. op_value (x_ops s ! k) = Some a \<and> x_heap s a = Some blk \<and> x_heap s' a = Some (stored_block p blk)))"

abbreviation buffers :: "exo_op list \<Rightarrow> (nat \<times> coap_msg \<times> bytes) list \<Rightarrow> cptr list" where
  "buffers ops as \<equiv> map (\<lambda>x. op_value (ops ! fst x)) as"

text \<open>All answers are delivered, and nothing else is touched.\<close>

definition all_delivered :: "'w exo \<Rightarrow> 'w exo \<Rightarrow> (nat \<times> coap_msg \<times> bytes) list \<Rightarrow> bool" where
  "all_delivered s s' as \<longleftrightarrow> (\<forall>x \<in> set as. delivered s s' x) \<and>
     (\<forall>i. i \<notin> fst ` set as \<longrightarrow> x_ops s' ! i = x_ops s ! i) \<and>
     (\<forall>a. Some a \<notin> set (buffers (x_ops s) as) \<longrightarrow> x_heap s' a = x_heap s a)"

lemma answers_buffer:
  assumes "answers count s (k, m, p)" "state_ok s" "count \<le> length (x_ops s)"
  obtains a blk where "op_value (x_ops s ! k) = Some a" "x_heap s a = Some blk" "0 < length blk"
    "op_value_max (x_ops s ! k) \<le> length blk" "length blk < size_max div 2"
proof -
  have "k < length (x_ops s)" "op_type (x_ops s ! k) = EXO_READ" using assms(1,3) by (auto simp: answers_def)
  moreover from this have "op_mem (x_heap s) (x_ops s ! k)" using assms(2) by (auto simp: state_ok_def)
  ultimately have "buffer_ok (x_heap s) (x_ops s ! k)" by (simp add: op_mem_def)
  then show thesis using that by (auto simp: buffer_ok_def hload_def bind_eq_Some_conv split: option.splits)
qed

text \<open>What the handler of one answer does.\<close>

lemma answer_handled:
  assumes "represents pdu m" "answers count s (k, m, p)" "count \<le> length (x_ops s)"
    "op_value (x_ops s ! k) = Some a" "x_heap s a = Some blk" "0 < length blk"
    "op_value_max (x_ops s ! k) \<le> length blk" "length blk < size_max div 2"
  shows "match_ops P pdu 0 count (s\<lparr>x_world := w\<rparr>) = Some (True, s\<lparr>x_world := w,
     x_heap := (x_heap s)(a \<mapsto> stored_block p blk), x_ops := (x_ops s)[k := (x_ops s ! k)\<lparr>op_state := EXO_REQUEST_SUCCESS\<rparr>]\<rparr>)"
proof -
  have m: "k < count" "m_type m = CT_ACK" "drop_bit 5 (m_code m) = 2" "payload_of m = p" "p \<noteq> []"
    "op_type (x_ops s ! k) = EXO_READ" "length p < op_value_max (x_ops s ! k)"
    "waits_for m (x_ops s ! k)" "\<forall>i < k. \<not> waits_for m (x_ops s ! i)"
    using assms(2) by (auto simp: answers_def payload_of_def)
  have "match_ops P pdu 0 count (s\<lparr>x_world := w\<rparr>) = match_op P pdu k (s\<lparr>x_world := w\<rparr>)"
    using m assms(3) by (intro match_ops_first [OF assms(1)]) auto
  then show ?thesis
    using ack_read [OF assms(1) m(2,3), of k "s\<lparr>x_world := w\<rparr>" "x_ops s ! k" a blk P] m assms(3-) by simp
qed

lemma answer_step:
  assumes "answers count s (k, m, p)" "count \<le> length (x_ops s)" "x_heap s a = Some blk" "length p < length blk"
  shows "evolves (\<lambda>_. ()) s (s\<lparr>x_world := w, x_heap := (x_heap s)(a \<mapsto> stored_block p blk),
     x_ops := (x_ops s)[k := (x_ops s ! k)\<lparr>op_state := EXO_REQUEST_SUCCESS\<rparr>]\<rparr>)"
proof -
  have k: "k < length (x_ops s)" "op_type (x_ops s ! k) = EXO_READ" "op_state (x_ops s ! k) = EXO_REQUEST_PENDING"
    using assms(1,2) waits_ack(1) by (auto simp: answers_def)
  have "heap_kept (x_heap s) ((x_heap s)(a \<mapsto> stored_block p blk))"
    using assms(3,4) by (intro heap_kept_update) (auto simp: stored_block_def)
  moreover have "all_steps (x_ops s) ((x_ops s)[k := (x_ops s ! k)\<lparr>op_state := EXO_REQUEST_SUCCESS\<rparr>])"
    using k by (intro all_steps_update answered) simp_all
  ultimately show ?thesis by (simp add: evolves_def frame_def)
qed

text \<open>The other answers are still waited for.\<close>

lemma answers_later:
  assumes "answers count s (k', m', p')" "k' \<noteq> k" "count \<le> length (x_ops s)" "op_state op = EXO_REQUEST_SUCCESS"
    "x_ops s' = (x_ops s)[k := op]"
  shows "answers count s' (k', m', p')"
proof -
  have "\<not> waits_for m' op" using assms(1,4) by (auto simp: answers_def waits_for_def)
  moreover have "\<forall>i < count. waits_for m' (x_ops s ! i) \<longleftrightarrow> i = k'" using assms(1) by (simp add: answers_def)
  ultimately have "waits_for m' (x_ops s' ! i) \<longleftrightarrow> i = k'" if "i < count" for i
    using that assms(2,3,5) by (cases "i = k") auto
  with assms show ?thesis by (auto simp: answers_def)
qed

lemma delivered_later:
  assumes "delivered s1 s' y" "x_ops s1 ! fst y = x_ops s ! fst y"
    "\<And>b. op_value (x_ops s ! fst y) = Some b \<Longrightarrow> x_heap s1 b = x_heap s b"
  shows "delivered s s' y"
  using assms by (cases y) (force simp: delivered_def)

lemma buffers_update: "k \<notin> fst ` set as \<Longrightarrow> buffers (ops[k := op]) as = buffers ops as"
  by (induction as) auto

lemma all_delivered_Cons:
  assumes "all_delivered s1 s' as" "x_ops s1 = (x_ops s)[k := (x_ops s ! k)\<lparr>op_state := EXO_REQUEST_SUCCESS\<rparr>]"
    "x_heap s1 = (x_heap s)(a \<mapsto> stored_block p blk)" "k < length (x_ops s)" "k \<notin> fst ` set as"
    "op_value (x_ops s ! k) = Some a" "x_heap s a = Some blk" "Some a \<notin> set (buffers (x_ops s) as)"
  shows "all_delivered s s' ((k, m, p) # as)"
proof -
  have bufs: "buffers (x_ops s1) as = buffers (x_ops s) as" using assms(2,5) by (simp add: buffers_update)
  have s': "\<forall>x \<in> set as. delivered s1 s' x" "\<forall>i. i \<notin> fst ` set as \<longrightarrow> x_ops s' ! i = x_ops s1 ! i"
    "\<forall>a. Some a \<notin> set (buffers (x_ops s) as) \<longrightarrow> x_heap s' a = x_heap s1 a"
    using assms(1) bufs unfolding all_delivered_def by auto
  have "delivered s s' (k, m, p)" using s'(2,3) assms(2-8) by (auto simp: delivered_def)
  moreover have "delivered s s' y" if y: "y \<in> set as" for y
  proof (rule delivered_later)
    show "delivered s1 s' y" using s'(1) y by blast
    have "fst y \<noteq> k" "op_value (x_ops s ! fst y) \<noteq> Some a" using assms(5,8) y by (auto simp: image_iff)
    then show "x_ops s1 ! fst y = x_ops s ! fst y" "\<And>b. op_value (x_ops s ! fst y) = Some b \<Longrightarrow> x_heap s1 b = x_heap s b"
      using assms(2,3) by auto
  qed
  ultimately show ?thesis using s'(2,3) assms(2,3,6) by (auto simp: all_delivered_def)
qed

context datagram_pal
begin

text \<open>A datagram that is a message one of the operations waits for: it is handled, and the loop goes on.\<close>

lemma message_next:
  assumes "pdu_ok pdu" "inq (x_world s) = encode_msg m # ds" "wf_msg m" "length (encode_msg m) \<le> MINIMUM_DATAGRAM_SIZE"
  obtains w v where "inq w = ds" "outq w = outq (x_world s)" "pdu_ok v" "represents v m" "pdu_addr v = pdu_addr pdu"
    "recv_loop P count pdu s = Option.bind (match_ops P v 0 count (s\<lparr>x_world := w\<rparr>)) (\<lambda>(hit, s).
       if hit then recv_loop P count v s else reply_rst P v s)"
proof -
  from assms(1,2) obtain w v where w: "inq w = ds" "outq w = outq (x_world s)" and v: "pdu_ok v" "pdu_addr v = pdu_addr pdu"
    "pdu_buf v = take MINIMUM_DATAGRAM_SIZE (encode_msg m) @ drop (length (encode_msg m)) (pdu_buf pdu)"
    "pdu_len v = length (take MINIMUM_DATAGRAM_SIZE (encode_msg m))"
    and loop: "recv_loop P count pdu s =
       Option.bind (coap_validate_pkt v) (\<lambda>(err, pdu).
         if err \<noteq> CE_NONE then recv_loop P count pdu (s\<lparr>x_world := w\<rparr>)
         else Option.bind (match_ops P pdu 0 count (s\<lparr>x_world := w\<rparr>)) (\<lambda>(hit, s).
                if hit then recv_loop P count pdu s else reply_rst P pdu s))"
    by (rule recv_loop_next [where count = count])
  have rep: "represents v m"
    using v assms(3,4) by (intro representsI [OF pdu_ok_wf_mem [OF v(1)] assms(3), where rest = "drop (length (encode_msg m)) (pdu_buf pdu)"])
      (auto simp: pdu_ok_def)
  then have "represents (v\<lparr>pdu_opt_ptr := NULL\<rparr>) m" by (simp add: represents_def wf_mem_def)
  with rep that [of w "v\<lparr>pdu_opt_ptr := NULL\<rparr>"] w v(1,2) show thesis
    by (simp add: loop validate_represents pdu_ok_def)
qed

lemma message_handled:
  assumes "pdu_ok pdu" "inq (x_world s) = encode_msg m # ds" "wf_msg m" "length (encode_msg m) \<le> MINIMUM_DATAGRAM_SIZE"
    "\<And>v w. represents v m \<Longrightarrow> match_ops P v 0 count (s\<lparr>x_world := w\<rparr>) = Some (True, f w)"
  obtains w v where "inq w = ds" "outq w = outq (x_world s)" "pdu_ok v" "recv_loop P count pdu s = recv_loop P count v (f w)"
  by (rule message_next [OF assms(1-4), of count]) (use assms(5) that in simp)

lemma answer_received:
  assumes "pdu_ok pdu" "inq (x_world s) = encode_msg m # ds" "answers count s (k, m, p)" "count \<le> length (x_ops s)"
    "op_value (x_ops s ! k) = Some a" "x_heap s a = Some blk" "0 < length blk"
    "op_value_max (x_ops s ! k) \<le> length blk" "length blk < size_max div 2"
  obtains w v where "inq w = ds" "pdu_ok v" "recv_loop P count pdu s = recv_loop P count v (s\<lparr>x_world := w,
     x_heap := (x_heap s)(a \<mapsto> stored_block p blk), x_ops := (x_ops s)[k := (x_ops s ! k)\<lparr>op_state := EXO_REQUEST_SUCCESS\<rparr>]\<rparr>)"
proof -
  have "wf_msg m" "length (encode_msg m) \<le> MINIMUM_DATAGRAM_SIZE"
    using assms(3) by (simp_all add: answers_def)
  from assms(1,2) this answer_handled [OF _ assms(3-9)] show thesis
    by (rule message_handled) (assumption | rule that)+
qed

lemma answers_received:
  assumes "pdu_ok pdu" "inq (x_world s) = map (\<lambda>(k, m, p). encode_msg m) as" "\<forall>x \<in> set as. answers count s x"
    "distinct (map fst as)" "distinct (buffers (x_ops s) as)" "count \<le> length (x_ops s)" "state_ok s"
  shows "returns (recv_loop P count pdu s) (\<lambda>s'. evolves (\<lambda>_. ()) s s' \<and> all_delivered s s' as)"
  using assms
proof (induction as arbitrary: pdu s)
  case Nil
  have "inq (x_world s) = []" using Nil.prems(2) by simp
  with Nil.prems(1) obtain w where "recv_loop P count pdu s = Some (s\<lparr>x_world := w\<rparr>)"
    by (rule recv_loop_empty)
  then show ?case by (simp add: evolves_def frame_def all_delivered_def)
next
  case (Cons x as)
  obtain k m p where x: "x = (k, m, p)" by (metis prod_cases3)
  have ans: "answers count s (k, m, p)" and rest: "\<forall>x \<in> set as. answers count s x"
    using Cons.prems(3) x by auto
  obtain a blk where buf: "op_value (x_ops s ! k) = Some a" "x_heap s a = Some blk" "0 < length blk"
    "op_value_max (x_ops s ! k) \<le> length blk" "length blk < size_max div 2"
    using ans Cons.prems(7,6) by (rule answers_buffer)
  have plen: "length p < length blk" using ans buf(4) by (simp add: answers_def)
  let ?op = "(x_ops s ! k)\<lparr>op_state := EXO_REQUEST_SUCCESS\<rparr>"
  have "inq (x_world s) = encode_msg m # map (\<lambda>(k, m, p). encode_msg m) as" using Cons.prems(2) x by simp
  from Cons.prems(1) this ans Cons.prems(6) buf obtain w v where
    w: "inq w = map (\<lambda>(k, m, p). encode_msg m) as" and v: "pdu_ok v" and
    run: "recv_loop P count pdu s = recv_loop P count v (s\<lparr>x_world := w, x_heap := (x_heap s)(a \<mapsto> stored_block p blk),
      x_ops := (x_ops s)[k := ?op]\<rparr>)"
    by (rule answer_received)
  let ?s1 = "s\<lparr>x_world := w, x_heap := (x_heap s)(a \<mapsto> stored_block p blk), x_ops := (x_ops s)[k := ?op]\<rparr>"
  have ev: "evolves (\<lambda>_. ()) s ?s1" by (rule answer_step [OF ans Cons.prems(6) buf(2) plen])
  have k: "k \<notin> fst ` set as" "Some a \<notin> set (buffers (x_ops s) as)" "k < length (x_ops s)"
    using Cons.prems(4,5,6) x buf(1) ans by (auto simp: answers_def)
  have "answers count ?s1 y" if y: "y \<in> set as" for y
  proof (cases y)
    case (fields k' m' p')
    then have "answers count s (k', m', p')" "k' \<noteq> k" using y rest k(1) by force+
    from answers_later [OF this Cons.prems(6), of ?op ?s1] fields show ?thesis by simp
  qed
  then have later: "\<forall>y \<in> set as. answers count ?s1 y" by blast
  have "returns (recv_loop P count v ?s1) (\<lambda>s'. evolves (\<lambda>_. ()) ?s1 s' \<and> all_delivered ?s1 s' as)"
  proof (rule Cons.IH [OF _ _ later])
    show "distinct (buffers (x_ops ?s1) as)" using Cons.prems(5) k(1) by (simp add: buffers_update)
    show "state_ok ?s1" by (rule evolves_state_ok [OF ev Cons.prems(7)])
  qed (use v w Cons.prems(4,6) in \<open>simp_all add: pdu_ok_def\<close>)
  then show ?case
    unfolding run x using evolves_trans [OF ev] all_delivered_Cons [of ?s1 _ as s k a p blk m] k buf(1,2)
    by (auto elim!: returns_mono)
qed

text \<open>The pass that follows leaves alone what the datagrams established.\<close>

lemma operate_after_datagrams:
  assumes "lib_device (x_lib s) = EXO_STATE_GOOD" "unat count \<le> length (x_ops s)" "state_ok s"
    "returns (exo_process_waiting_datagrams P (unat count) s) (\<lambda>s1. evolves (\<lambda>_. ()) s s1 \<and> R s1)"
  obtains r s1 s' where "exo_operate P count s = Some (r, s')" "R s1" "x_heap s' = x_heap s1"
    "\<And>k. k \<noteq> 0 \<Longrightarrow> k < length (x_ops s) \<Longrightarrow> at_rest (x_ops s1 ! k) \<Longrightarrow> x_ops s' ! k = x_ops s1 ! k"
proof -
  obtain s1 where s1: "exo_process_waiting_datagrams P (unat count) s = Some s1" "evolves (\<lambda>_. ()) s s1" "R s1"
    using assms(4) by (rule returnsE) blast
  have len: "length (x_ops s1) = length (x_ops s)" using s1(2) by (rule evolves_length)
  obtain s2 where s2: "exo_process_active_ops P (unat count) s1 = Some s2" "evolves inq s1 s2"
    using process_active_ops_sends [of "unat count" s1] evolves_state_ok [OF s1(2) assms(3)] assms(2) len
    by (auto elim!: returnsE)
  show thesis
  proof (rule that)
    show "exo_operate P count s = Some (ops_state (unat count) (x_ops s2), s2)"
      using assms(1) s1(1) s2(1) by (simp add: exo_operate_def)
    show "R s1" by (rule s1(3))
    show "x_heap s2 = x_heap s1" using if_returnsD [OF sent.process_active_ops_rel s2(1)] .
    show "x_ops s2 ! k = x_ops s1 ! k" if "k \<noteq> 0" "k < length (x_ops s)" "at_rest (x_ops s1 ! k)" for k
      using op_steps_at_rest [of k "x_ops s1 ! k" "x_ops s2 ! k"] s2(2) that len by (auto simp: evolves_def all_steps_def)
  qed
qed

lemma answers_delivered:
  assumes "state_ok s" "lib_device (x_lib s) = EXO_STATE_GOOD" "unat count \<le> length (x_ops s)"
    "inq (x_world s) = map (\<lambda>(k, m, p). encode_msg m) as" "\<forall>x \<in> set as. answers (unat count) s x"
    "distinct (map fst as)" "distinct (buffers (x_ops s) as)"
  shows "\<exists>r s'. exo_operate P count s = Some (r, s') \<and> (\<forall>x \<in> set as. delivered s s' x) \<and>
     (\<forall>a. Some a \<notin> set (buffers (x_ops s) as) \<longrightarrow> x_heap s' a = x_heap s a)"
proof -
  have "returns (exo_process_waiting_datagrams P (unat count) s) (\<lambda>s1. evolves (\<lambda>_. ()) s s1 \<and> all_delivered s s1 as)"
    unfolding exo_process_waiting_datagrams_def by (rule answers_received [OF local_pdu_ok assms(4-7,3,1)])
  then obtain r s1 s' where s': "exo_operate P count s = Some (r, s')" "all_delivered s s1 as" "x_heap s' = x_heap s1"
    "\<And>k. k \<noteq> 0 \<Longrightarrow> k < length (x_ops s) \<Longrightarrow> at_rest (x_ops s1 ! k) \<Longrightarrow> x_ops s' ! k = x_ops s1 ! k"
    by (rule operate_after_datagrams [OF assms(2,3,1)]) blast
  have "delivered s s' x" if x: "x \<in> set as" for x
  proof -
    obtain k m p where kmp: "x = (k, m, p)" by (metis prod_cases3)
    have d: "delivered s s1 (k, m, p)" "answers (unat count) s (k, m, p)"
      using s'(2) assms(5) x kmp by (auto simp: all_delivered_def)
    then have "x_ops s' ! k = x_ops s1 ! k"
      using assms(3) by (intro s'(4)) (auto simp: delivered_def answers_def at_rest_def)
    with d(1) show ?thesis unfolding kmp by (auto simp: delivered_def s'(3))
  qed
  with s' show ?thesis by (auto simp: all_delivered_def)
qed

end

end
