(* ===== verification/Exo_Value.thy ===== *)
theory Exo_Value
  imports Exo_Request Exo_Frame
begin

text \<open>
  A value the library reports is a C string: whenever a read or a subscription has succeeded, or a
  notification waits to be acknowledged, the application's buffer holds a terminated string.
\<close>

definition value_ok :: "heap \<Rightarrow> exo_op \<Rightarrow> bool" where
  "value_ok h op \<longleftrightarrow>
     (op_type op \<in> {EXO_READ, EXO_SUBSCRIBE} \<and>
      op_state op \<in> {EXO_REQUEST_SUCCESS, EXO_REQUEST_SUB_ACK, EXO_REQUEST_SUB_ACK_NEW} \<longrightarrow>
      (\<exists>v. str_of h (op_value op) = Some v))"

definition values_ok :: "heap \<Rightarrow> exo_op list \<Rightarrow> bool" where
  "values_ok h ops \<longleftrightarrow> (\<forall>op \<in> set ops. value_ok h op)"

lemma str_of_iff: "(\<exists>v. str_of h p = Some v) \<longleftrightarrow> (\<exists>blk. hload h p = Some blk \<and> 0 \<in> set blk)"
  by (auto simp: str_of_def cstr_def bind_eq_Some_conv)

lemma value_ok_kept: "heap_kept h h' \<Longrightarrow> value_ok h op \<Longrightarrow> value_ok h' op"
  unfolding value_ok_def str_of_iff by (blast dest: heap_kept_load)

lemma value_ok_simps [simp]:
  "value_ok h (op\<lparr>op_timeout := t\<rparr>) = value_ok h op" "value_ok h (op\<lparr>op_mid := m\<rparr>) = value_ok h op"
  "value_ok h (op\<lparr>op_obs_seq := q\<rparr>) = value_ok h op" "value_ok h (op\<lparr>op_token := k\<rparr>) = value_ok h op"
  "value_ok h (op\<lparr>op_retries := r\<rparr>) = value_ok h op" "value_ok h (exo_activate op)" "value_ok h (exo_op_init op)"
  "value_ok h (op\<lparr>op_state := EXO_REQUEST_ERROR\<rparr>)" "value_ok h (op\<lparr>op_state := EXO_REQUEST_NEW\<rparr>)"
  "value_ok h (op\<lparr>op_state := EXO_REQUEST_PENDING\<rparr>)" "value_ok h (op\<lparr>op_state := EXO_REQUEST_SUBSCRIBED\<rparr>)"
  "op_type op \<notin> {EXO_READ, EXO_SUBSCRIBE} \<Longrightarrow> value_ok h op"
  by (simp_all add: value_ok_def op_calls)

lemma values_ok_nth: "values_ok h ops \<Longrightarrow> i < length ops \<Longrightarrow> value_ok h (ops ! i)"
  by (simp add: values_ok_def)

lemma values_ok_update:
  assumes "values_ok h ops" "value_ok h op'"
  shows "values_ok h (ops[i := op'])"
  using assms set_update_subset_insert [of ops i op'] by (auto simp: values_ok_def)

lemma values_ok_kept: "values_ok h ops \<Longrightarrow> heap_kept h h' \<Longrightarrow> values_ok h' ops"
  by (auto simp: values_ok_def intro: value_ok_kept)

lemma values_ok_store:
  "values_ok h ops \<Longrightarrow> heap_kept h h' \<Longrightarrow> value_ok h' op' \<Longrightarrow> values_ok h' (ops[i := op'])"
  by (rule values_ok_update [OF values_ok_kept])

lemma store_value_terminated:
  assumes "store_value pdu payload op h = Some (StoredValue, h')"
  shows "\<exists>v. str_of h' (op_value op) = Some v"
  using assms
  by (auto simp: str_of_iff store_value_def hstore_def hload_def bind_eq_Some_conv mem_write_def
      split: if_splits)

lemma value_ok_stored:
  "store_value pdu payload op h = Some (StoredValue, h') \<Longrightarrow> op_value op' = op_value op \<Longrightarrow> value_ok h' op'"
  by (simp add: value_ok_def store_value_terminated)

abbreviation told :: "'w exo \<Rightarrow> 'w exo \<Rightarrow> bool" where
  "told s s' \<equiv> values_ok (x_heap s) (x_ops s) \<longrightarrow> values_ok (x_heap s') (x_ops s')"

lemma values_stored:
  assumes "store_value pdu payload op h = Some (out, h')" "values_ok h ops"
  shows "values_ok h' ops" "value_ok h' op' \<Longrightarrow> values_ok h' (ops[i := op'])"
  using values_ok_kept [OF assms(2) store_value_kept [OF assms(1)]] by (simp_all add: values_ok_update)

lemma values_stored_new:
  assumes "store_value pdu payload op h = Some (StoredValue, h')" "values_ok h ops" "op_value op' = op_value op"
  shows "values_ok h' (ops[i := op'])"
  using values_stored(2) [OF assms(1,2) value_ok_stored [OF assms(1,3)]] .

lemma handle_notification_told: "if_returns (handle_notification P pdu i s) (told s)"
  by (auto simp: handle_notification_def Let_def set_state_def split_beta split: stored.split
      intro!: if_returnsI intro: values_stored values_ok_update values_stored_new)

lemma handle_ack_success_told: "if_returns (handle_ack_success P pdu i s) (\<lambda>(hit, s'). told s s')"
  by (auto simp: handle_ack_success_def Let_def set_state_def split_beta
      split: stored.split exo_request_type.split
      intro!: if_returnsI intro: values_stored values_ok_update values_stored_new)

lemma handle_ack_failure_told: "if_returns (handle_ack_failure P pdu i s) (told s)"
  by (auto simp: handle_ack_failure_def Let_def set_state_def split_beta intro!: if_returnsI values_ok_update)

lemma match_op_told: "if_returns (match_op P pdu i s) (\<lambda>(hit, s'). told s s')"
  using handle_notification_told [of P pdu i s] handle_ack_failure_told [of P pdu i s]
    handle_ack_success_told [of P pdu i s]
  by (auto simp: match_op_def set_state_def split_beta intro!: if_returnsI values_ok_update dest: if_returnsD)

text \<open>The pass over the operations does not touch the memory.\<close>

lemma send_new_told:
  assumes "op = x_ops s ! i"
  shows "if_returns (send_new P i op pdu s) (\<lambda>(pdu', s'). values_ok h (x_ops s) \<longrightarrow> values_ok h (x_ops s'))"
  unfolding send_new_def
  by (auto simp: split_beta Let_def intro!: if_returns_build_for if_returns_send_pdu if_returns_packets values_ok_update)

lemma retransmit_told:
  assumes "op = x_ops s ! i"
  shows "if_returns (retransmit P i op pdu s) (\<lambda>(pdu', s'). values_ok h (x_ops s) \<longrightarrow> values_ok h (x_ops s'))"
  unfolding retransmit_def
  by (auto simp: split_beta Let_def intro!: if_returns_build_for if_returns_send_pdu if_returns_packets
      values_ok_update values_ok_nth)

lemma send_ack_told:
  assumes "op = x_ops s ! i" "op_state op \<in> {EXO_REQUEST_SUB_ACK, EXO_REQUEST_SUB_ACK_NEW}" "i < length (x_ops s)"
  shows "if_returns (send_ack P i op pdu s) (\<lambda>(pdu', s'). values_ok h (x_ops s) \<longrightarrow> values_ok h (x_ops s'))"
proof -
  have "value_ok h (op\<lparr>op_state := EXO_REQUEST_SUCCESS\<rparr>)" if "values_ok h (x_ops s)"
    using that assms by (auto simp: values_ok_def value_ok_def)
  then show ?thesis
    unfolding send_ack_def using assms(1)
    by (auto simp: split_beta set_state_def intro!: if_returns_send_pdu if_returns_packets values_ok_update)
qed

lemma active_op_told: "if_returns (active_op P now i pdu s) (\<lambda>(pdu', s'). told s s')"
proof -
  have "if_returns (active_op P now i pdu s) (\<lambda>(pdu', s'). values_ok (x_heap s) (x_ops s) \<longrightarrow> values_ok (x_heap s) (x_ops s'))"
    using send_new_told [of "x_ops s ! i" s i P pdu "x_heap s"] retransmit_told [of "x_ops s ! i" s i P pdu "x_heap s"]
      send_ack_told [of "x_ops s ! i" s i P pdu "x_heap s"]
    by (simp add: active_op_def check_timeout_def set_state_def values_ok_update split: exo_request_state.split)
  then show ?thesis
    using active_op_mem [of P now i pdu s] by (auto simp: if_returns_def)
qed

lemma need_activation_told: "if_returns (need_activation P s) (told s)"
  by (auto simp: need_activation_def split_beta Let_def intro: values_ok_update)

lemma reply_rst_told: "if_returns (reply_rst P pdu s) (told s)"
  by (auto simp: reply_rst_def send_pdu_def split_beta Let_def intro!: if_returnsI)

interpretation told: engine_rel P told for P
  by unfold_locales (auto intro: match_op_told reply_rst_told active_op_told need_activation_told)

lemma operate_values_ok:
  assumes "exo_operate P count s = Some (r, s')" "values_ok (x_heap s) (x_ops s)"
  shows "values_ok (x_heap s') (x_ops s')"
  using told.operate_rel [OF assms(1)] assms(2) by simp

end
