(* ===== verification/Exo_Example.thy ===== *)
theory Exo_Example
  imports Exo_Round Exo_Value
begin

text \<open>
  The states the witnesses of the Exosite properties run on: a device with a few operations on a scripted
  POSIX system.
\<close>

section \<open>Example states\<close>

definition blank_op :: exo_op where
  "blank_op = \<lparr>op_type = EXO_NULL, op_state = EXO_REQUEST_NULL, op_alias = None, op_value = None,
     op_value_max = 0, op_mid = 0, op_obs_seq = 0, op_tkl = 0, op_token = 0, op_timeout = 0, op_retries = 0\<rparr>"

text \<open>Blocks 1 to 5: the alias \<^verbatim>\<open>temp\<close>, a buffer, and the names of vendor, model and serial number.\<close>

definition ex_heap :: heap where
  "ex_heap = [1 \<mapsto> c_literal ''temp'', 2 \<mapsto> replicate 8 65, 3 \<mapsto> c_literal ''acme'',
     4 \<mapsto> c_literal ''m1'', 5 \<mapsto> c_literal ''001'']"

definition ex_cik :: bytes where
  "ex_cik = replicate 40 97 @ [0]"

definition ex_lib :: exo_lib where
  "ex_lib = \<lparr>lib_cik = ex_cik, lib_vendor = Some 3, lib_model = Some 4, lib_serial = Some 5,
     lib_mid = 0x1000, lib_device = EXO_STATE_GOOD\<rparr>"

definition ex_state :: "exo_op list \<Rightarrow> bytes list \<Rightarrow> net pal_state exo" where
  "ex_state ops ins = \<lparr>x_lib = ex_lib, x_heap = ex_heap, x_ops = ops,
     x_world = \<lparr>exosock = 3, sys = \<lparr>net_in = ins, net_out = [], net_clock = 5000000, net_rand = 77,
       net_file = None\<rparr>\<rparr>\<rparr>"

abbreviation ex_pal :: "net pal_state plat" where
  "ex_pal \<equiv> posix_pal script_os"

abbreviation ex_inq :: "net pal_state \<Rightarrow> bytes list" where
  "ex_inq s \<equiv> net_in (sys s)"

abbreviation ex_outq :: "net pal_state \<Rightarrow> bytes list" where
  "ex_outq s \<equiv> net_out (sys s)"

text \<open>A read that was sent under message id 0x0FFF, a new read, a subscription and an activation.\<close>

definition ex_new_read :: exo_op where
  "ex_new_read = exo_read (Some 1) (Some 2) 8 blank_op"

definition ex_pending :: "exo_request_type \<Rightarrow> exo_op" where
  "ex_pending t = ex_new_read\<lparr>op_type := t, op_state := EXO_REQUEST_PENDING, op_mid := 0x0FFF, op_token := 0x0201,
     op_timeout := 9000000\<rparr>"

text \<open>Another pending read, into block 3.\<close>

definition ex_second_read :: exo_op where
  "ex_second_read = (ex_pending EXO_READ)\<lparr>op_value := Some 3, op_value_max := 5, op_mid := 5\<rparr>"

definition ex_subscribed :: exo_op where
  "ex_subscribed = ex_new_read\<lparr>op_type := EXO_SUBSCRIBE, op_state := EXO_REQUEST_SUBSCRIBED, op_token := 0x0201,
     op_obs_seq := 3, op_timeout := 9000000\<rparr>"

definition ex_reply :: "coap_type \<Rightarrow> u8 \<Rightarrow> bytes option \<Rightarrow> coap_msg" where
  "ex_reply t code pl = \<lparr>m_type = t, m_code = code, m_mid = 0x0FFF, m_token = [1, 2],
     m_opts = [(con_val CON_OBSERVE, [4]), (con_val CON_MAX_AGE, [60])], m_payload = pl\<rparr>"

definition pdu_of :: "coap_msg \<Rightarrow> coap_pdu" where
  "pdu_of m = \<lparr>pdu_buf = encode_msg m @ replicate (576 - length (encode_msg m)) 0, pdu_addr = 4096,
     pdu_len = length (encode_msg m), pdu_max = 576, pdu_opt_ptr = NULL\<rparr>"

definition ex_buf :: coap_pdu where
  "ex_buf = \<lparr>pdu_buf = replicate 576 0, pdu_addr = 4096, pdu_len = 0, pdu_max = 576, pdu_opt_ptr = NULL\<rparr>"

text \<open>A new write of the string in block 5, and a heap in which that string is too long for a datagram.\<close>

definition ex_new_write :: exo_op where
  "ex_new_write = exo_write (Some 1) (Some 5) blank_op"

definition ex_big_heap :: heap where
  "ex_big_heap = ex_heap(5 \<mapsto> replicate 600 65 @ [0])"

text \<open>A notification without Observe option, and the world before \<open>exo_init\<close>.\<close>

definition no_observe_msg :: coap_msg where
  "no_observe_msg = \<lparr>m_type = CT_CON, m_code = cc_val CC_CONTENT, m_mid = 7, m_token = [1, 2],
     m_opts = [(con_val CON_ETAG, [9])], m_payload = Some [50]\<rparr>"

definition boot_world :: "bytes option \<Rightarrow> nat \<Rightarrow> net pal_state" where
  "boot_world file r = \<lparr>exosock = 3, sys = \<lparr>net_in = [], net_out = [], net_clock = 5000000, net_rand = r,
     net_file = file\<rparr>\<rparr>"

lemma ex_buf_mem: "wf_mem ex_buf" "pdu_max ex_buf = 576"
  by (simp_all add: ex_buf_def wf_mem_def size_max_def)

lemma pdu_of_represents:
  assumes "wf_msg m" "length (encode_msg m) \<le> 576"
  shows "represents (pdu_of m) m"
  using assms
  by (intro representsI [where rest = "replicate (576 - length (encode_msg m)) 0"])
    (simp_all add: pdu_of_def wf_mem_def size_max_def)

lemma ex_reply_represents: "length pl \<le> 500 \<Longrightarrow> represents (pdu_of (ex_reply t c (Some pl))) (ex_reply t c (Some pl))"
  by (rule pdu_of_represents) (simp_all add: ex_reply_def wf_msg_def encode_msg_def length_ext_bytes)

lemma ex_state_ok:
  "state_ok (ex_state [blank_op, ex_pending EXO_READ, ex_new_read] ins)"
  "state_ok (ex_state [blank_op, ex_pending EXO_READ, ex_subscribed] ins)"
  by (simp add: state_ok_def ex_state_def; code_simp)+

lemma ex_simps [simp]:
  "m_type (ex_reply t c pl) = t" "m_code (ex_reply t c pl) = c" "m_payload (ex_reply t c pl) = pl"
  "m_mid (ex_reply t c pl) = 0x0FFF" "op_type (ex_pending r) = r" "x_ops (ex_state ops ins) = ops"
  "x_lib (ex_state ops ins) = ex_lib" "x_heap (ex_state ops ins) = ex_heap"
  "(ex_state ops ins)\<lparr>x_ops := ops'\<rparr> = ex_state ops' ins" "length (lib_cik ex_lib) = 41"
  "r \<noteq> EXO_NULL \<Longrightarrow> waits_for (ex_reply CT_ACK c pl) (ex_pending r)"
  "waits_for (ex_reply CT_RST c pl) (ex_pending r)"
  by (simp_all add: ex_reply_def ex_state_def waits_for_def ex_pending_def ex_new_read_def ex_lib_def ex_cik_def)

lemma ex_returns:
  assumes "\<forall>op \<in> set ops. op_inv op \<and> op_mem ex_heap op" "ops \<noteq> []" "unat n \<le> length ops"
  shows "\<exists>r s'. exo_operate ex_pal n (ex_state ops []) = Some (r, s')"
proof -
  have "lib_ok ex_heap ex_lib" by code_simp
  then have "state_ok (ex_state ops [])" using assms(1) by (simp add: state_ok_def ex_state_def)
  from script.operate_safe [OF this, of n] show ?thesis
    using assms(2,3) by (auto simp: ex_state_def elim!: returnsE)
qed

lemma ex_buffer: "ex_heap 2 = Some (replicate 8 65)" "str_at ex_heap (Some 1) (str_bytes ''temp'')"
  by code_simp+

lemma ex_rand: "fst (rand_of ex_pal (ex_state ops ins)) = 77"
  by (simp add: rand_of_def posix_pal_def script_os_def ex_state_def)

lemma ex_send: "fst (exopal_udp_send ex_pal bs w) = 0"
  by (simp add: posix_pal_def posix_udp_send_def script_os_def)

lemma ex_request:
  "read_msg (lib_mid ex_lib) 77 (lib_cik ex_lib) str = read_msg 0x1000 77 ex_cik str"
  "length (encode_msg (read_msg 0x1000 77 ex_cik (str_bytes ''temp''))) \<le> MINIMUM_DATAGRAM_SIZE"
  "CIK_LENGTH \<le> length (lib_cik ex_lib)" "lib_mid ex_lib = 0x1000"
  by (simp add: ex_lib_def, code_simp, code_simp, code_simp)

lemma ex_buf_ready: "pdu_ready ex_buf"
  by (simp add: pdu_ready_def ex_buf_mem MINIMUM_DATAGRAM_SIZE_def)

lemma ex_ops [simp]:
  "op_alias ex_new_read = Some 1" "op_state ex_new_read = EXO_REQUEST_NEW" "op_type ex_new_read = EXO_READ"
  "op_alias (ex_pending r) = Some 1" "op_state (ex_pending r) = EXO_REQUEST_PENDING"
  "op_timeout (ex_pending r) = 9000000" "op_retries (ex_pending r) = 0" "op_mid (ex_pending r) = 0x0FFF"
  "ex_outq (x_world (ex_state ops ins)) = []"
  by (simp_all add: ex_new_read_def ex_pending_def ex_state_def exo_read_def blank_op_def)

lemma boot_calls:
  "exopal_init ex_pal w = (0, w)"
  "libc_rand ex_pal (libc_srand ex_pal (boot_world file r)) = (5, boot_world file 6)"
  "exopal_retrieve_cik ex_pal ex_cik (boot_world (Some (replicate 40 98)) r) =
     (0, replicate 40 98 @ [0], boot_world (Some (replicate 40 98)) r)"
  "exopal_udp_sock ex_pal (boot_world file r) = (0, boot_world file r)"
  by (simp_all add: posix_pal_def posix_init_def posix_retrieve_cik_def posix_udp_sock_def script_os_def
      boot_world_def ex_cik_def Let_def)

lemma ex_write [simp]:
  "op_alias ex_new_write = Some 1" "op_value ex_new_write = Some 5" "op_state ex_new_write = EXO_REQUEST_NEW"
  "op_type ex_new_write = EXO_WRITE"
  by (simp_all add: ex_new_write_def exo_write_def)

lemma ex_write_request:
  "op_request ex_heap ex_lib 77 ex_new_write = Some (write_msg 0x1000 77 ex_cik (str_bytes ''temp'') (str_bytes ''001''))"
  "length (encode_msg (write_msg 0x1000 77 ex_cik (str_bytes ''temp'') (str_bytes ''001''))) \<le> MINIMUM_DATAGRAM_SIZE"
  by code_simp+

lemma ex_big_strings:
  "str_at ex_big_heap (Some 1) (str_bytes ''temp'')" "str_at ex_big_heap (Some 5) (replicate 600 65)"
  using ex_buffer(2) by (simp_all add: ex_big_heap_def str_at_def hload_def)

end
