(* ===== verification/Exo_Properties.thy ===== *)
theory Exo_Properties
  imports Exo_Example
begin

text \<open>
  The properties of the Exosite library (\<^verbatim>\<open>exosite.c\<close>): the engine as a whole and what it does with received messages.
\<close>

section \<open>The engine\<close>

text \<open>
  C1. A call of \<open>exo_operate\<close> returns. Take any platform that keeps the datagram contract, an array of
  operations whose strings and buffers are really there, \<open>count\<close> of them at most as many as the array
  has, and a queue of datagrams each of which, cut to 576 bytes, is turned down by its first byte or its length, or is a well-formed
  CoAP message; a message that a subscription reads, because it is the successful acknowledgement of its pending request or a 2.05
  message with the token it is subscribed with, has to carry a readable Observe option (C39 shows why). Then the call
  comes back without leaving any memory object, the state is well-formed again, every operation took steps
  of the state machine only, and at most \<open>1 + count\<close> datagrams were sent, each a well-formed CoAP
  message of at most 576 bytes.
\<close>

theorem exo_operate_safe:
  assumes "datagram_pal P inq outq" "state_ok s" "x_ops s \<noteq> []" "unat count \<le> length (x_ops s)"
    "\<forall>d \<in> set (inq (x_world s)). datagram_ok (x_ops s) d"
  shows "\<exists>r s' ms. exo_operate P count s = Some (r, s') \<and> state_ok s' \<and> all_steps (x_ops s) (x_ops s') \<and>
     length ms \<le> 1 + unat count \<and> outq (x_world s') = outq (x_world s) @ map encode_msg ms \<and>
     (\<forall>m \<in> set ms. wf_msg m \<and> length (encode_msg m) \<le> MINIMUM_DATAGRAM_SIZE)"
  using datagram_pal.operate_safe [OF assms] by (auto simp: returns_def sends_def)

theorem exo_operate_safe_witness:
  "\<exists>r s' ms. exo_operate ex_pal 3 (ex_state [blank_op, ex_pending EXO_READ, ex_subscribed]
       [[1, 2], encode_msg ((ex_reply CT_ACK 69 (Some [50, 49]))\<lparr>m_opts := []\<rparr>)]) = Some (r, s') \<and> state_ok s' \<and>
     length ms \<le> 4 \<and> ex_outq (x_world s') = map encode_msg ms"
proof -
  let ?ops = "[blank_op, ex_pending EXO_READ, ex_subscribed]" and ?m = "(ex_reply CT_ACK 69 (Some [50, 49]))\<lparr>m_opts := []\<rparr>"
  have "datagram_ok ?ops [1, 2]"
    by (simp add: datagram_ok_def rejected_def MINIMUM_DATAGRAM_SIZE_def)
  moreover have "take MINIMUM_DATAGRAM_SIZE (encode_msg ?m) = encode_msg ?m" "wf_msg ?m" "fit_for ?ops ?m"
    by code_simp+
  then have "datagram_ok ?ops (encode_msg ?m)"
    by (auto simp: datagram_ok_def Let_def)
  ultimately show ?thesis
    using exo_operate_safe [OF script.datagram_pal_axioms ex_state_ok(2) [of "[[1, 2], encode_msg ?m]"], of 3]
    by (fastforce simp: ex_state_def)
qed

text \<open>
  C3. The life of an operation: whatever the platform, the memory and the network do, a call of
  \<open>exo_operate\<close> that returns takes each operation through steps of the state machine \<open>op_step\<close> only, and
  never changes the number of operations.
\<close>

theorem operate_follows_protocol:
  assumes "exo_operate P count s = Some (r, s')"
  shows "length (x_ops s') = length (x_ops s) \<and>
     (\<forall>i < length (x_ops s). (op_step i)\<^sup>*\<^sup>* (x_ops s ! i) (x_ops s' ! i))"
  using operate_steps [OF assms] by (simp add: all_steps_def)

theorem operate_follows_protocol_witness:
  "(case exo_operate ex_pal 2 (ex_state [blank_op, ex_new_read] []) of
      Some (r, s') \<Rightarrow> length (x_ops s') = 2 \<and> (op_step 1)\<^sup>*\<^sup>* ex_new_read (x_ops s' ! 1)
    | None \<Rightarrow> False)"
proof -
  let ?s = "ex_state [blank_op, ex_new_read] []"
  have "\<exists>r s'. exo_operate ex_pal 2 ?s = Some (r, s')"
    by (rule ex_returns) code_simp+
  then obtain r s' where r: "exo_operate ex_pal 2 ?s = Some (r, s')" by blast
  with operate_follows_protocol [OF r] show ?thesis
    by (simp add: ex_state_def) (metis One_nat_def lessI nth_Cons_0 nth_Cons_Suc)
qed

text \<open>
  C13. What a call of \<open>exo_operate\<close> that returns keeps, whatever the platform does: the strings and buffers of the library and of
  all operations are still there, with the lengths they had; every value that a successful read or subscription
  reports is a NUL-terminated string; every operation has at most COAP_MAX_RETRANSMIT retransmissions, a token
  length of 0, a state of a subscription only if it is one, and a state other than EXO_REQUEST_NULL only if it has a type.
\<close>

theorem operate_keeps_invariant:
  assumes "exo_operate P count s = Some (r, s')" "state_ok s" "values_ok (x_heap s) (x_ops s)"
  shows "state_ok s' \<and>
     (\<forall>op \<in> set (x_ops s'). op_type op \<in> {EXO_READ, EXO_SUBSCRIBE} \<and> exo_is_op_success op \<longrightarrow>
        (\<exists>v. str_of (x_heap s') (op_value op) = Some v)) \<and>
     (\<forall>op \<in> set (x_ops s'). op_retries op \<le> COAP_MAX_RETRANSMIT \<and> op_tkl op = 0 \<and>
        (subscription_state (op_state op) \<longrightarrow> op_type op = EXO_SUBSCRIBE) \<and>
        (op_type op = EXO_NULL \<longrightarrow> op_state op = EXO_REQUEST_NULL))"
  using operate_state_ok [OF assms(1,2)] operate_values_ok [OF assms(1,3)]
  by (auto simp: state_ok_def op_inv_def values_ok_def value_ok_def exo_is_op_success_def)

theorem operate_keeps_invariant_witness:
  "(case exo_operate ex_pal 3 (ex_state [blank_op, ex_pending EXO_READ, ex_new_read] []) of
      Some (r, s') \<Rightarrow> state_ok s' \<and> (\<forall>op \<in> set (x_ops s'). op_retries op \<le> COAP_MAX_RETRANSMIT)
    | None \<Rightarrow> False)"
proof -
  let ?s = "ex_state [blank_op, ex_pending EXO_READ, ex_new_read] []"
  have "\<exists>r s'. exo_operate ex_pal 3 ?s = Some (r, s')"
    by (rule ex_returns) code_simp+
  then obtain r s' where r: "exo_operate ex_pal 3 ?s = Some (r, s')" by blast
  have "values_ok (x_heap ?s) (x_ops ?s)"
    by (simp add: values_ok_def value_ok_def blank_op_def)
  from operate_keeps_invariant [OF r ex_state_ok(1) this] r show ?thesis by simp
qed

text \<open>
  C16. A finished operation is left alone: an operation other than the first that succeeded, failed or
  is free comes out of \<open>exo_operate\<close> exactly as it was, so the application can read its result
  at any time before it calls \<open>exo_op_done\<close>.
\<close>

theorem finished_op_stable:
  assumes "exo_operate P count s = Some (r, s')" "i \<noteq> 0" "i < length (x_ops s)"
    "exo_is_op_finished (x_ops s ! i) \<or> op_state (x_ops s ! i) = EXO_REQUEST_NULL"
  shows "x_ops s' ! i = x_ops s ! i"
proof (rule op_steps_at_rest)
  show "op_steps i (x_ops s ! i) (x_ops s' ! i)"
    using operate_steps [OF assms(1)] assms(3) by (simp add: all_steps_def)
  show "at_rest (x_ops s ! i)"
    using assms(4) by (auto simp: at_rest_def exo_is_op_finished_def)
qed (rule assms(2))

theorem finished_op_stable_witness:
  "(case exo_operate ex_pal 2 (ex_state [blank_op, ex_new_read\<lparr>op_state := EXO_REQUEST_SUCCESS\<rparr>] []) of
      Some (r, s') \<Rightarrow> x_ops s' ! 1 = ex_new_read\<lparr>op_state := EXO_REQUEST_SUCCESS\<rparr>
    | None \<Rightarrow> False)"
proof -
  let ?s = "ex_state [blank_op, ex_new_read\<lparr>op_state := EXO_REQUEST_SUCCESS\<rparr>] []"
  have "\<exists>r s'. exo_operate ex_pal 2 ?s = Some (r, s')"
    by (rule ex_returns) code_simp+
  then obtain r s' where r: "exo_operate ex_pal 2 ?s = Some (r, s')" by blast
  with finished_op_stable [OF r, of 1] show ?thesis
    by (simp add: ex_state_def exo_is_op_finished_def)
qed


section \<open>Received messages\<close>

text \<open>
  C4. Dispatch of a received message: the loop over the operations hands the message to the first
  operation that waits for it (by token for a confirmable or non-confirmable message, by message id for an
  acknowledgement, by both for a reset), and leaves the whole state alone when none does.
\<close>

theorem received_dispatch:
  assumes "represents pdu m" "count \<le> length (x_ops s)"
  shows "((\<forall>i < count. \<not> waits_for m (x_ops s ! i)) \<longrightarrow> match_ops P pdu 0 count s = Some (False, s)) \<and>
     (\<forall>k < count. waits_for m (x_ops s ! k) \<and> (\<forall>i < k. \<not> waits_for m (x_ops s ! i)) \<longrightarrow>
        match_ops P pdu 0 count s = match_op P pdu k s)"
  using match_ops_none [OF assms(1), of 0 count s P] match_ops_first [OF assms(1), of _ s 0 count P] assms(2)
  by auto

theorem received_dispatch_witness:
  "match_ops ex_pal (pdu_of (ex_reply CT_ACK 69 (Some [50]))) 0 3
       (ex_state [blank_op, ex_new_read, ex_pending EXO_READ] []) =
     match_op ex_pal (pdu_of (ex_reply CT_ACK 69 (Some [50]))) 2
       (ex_state [blank_op, ex_new_read, ex_pending EXO_READ] [])"
proof -
  let ?s = "ex_state [blank_op, ex_new_read, ex_pending EXO_READ] []" and ?m = "ex_reply CT_ACK 69 (Some [50])"
  have "waits_for ?m (x_ops ?s ! 2)" "\<forall>i < 2. \<not> waits_for ?m (x_ops ?s ! i)" "3 \<le> length (x_ops ?s)"
    by code_simp+
  then show ?thesis
    using received_dispatch [OF ex_reply_represents [of "[50]" CT_ACK 69], of 3 ?s ex_pal] by simp
qed

text \<open>
  C6. The answer to a read: a successful acknowledgement with a payload that fits is copied to the
  application's buffer with a terminating NUL, the rest of the buffer stays, and the read succeeds. A
  payload as long as the buffer or longer fails the read and writes nothing. An acknowledgement without
  payload stores the empty string and leaves the read pending.
\<close>

theorem read_reply:
  assumes "represents pdu m" "m_type m = CT_ACK" "drop_bit 5 (m_code m) = 2" "i < length (x_ops s)"
    "op = x_ops s ! i" "op_type op = EXO_READ" "waits_for m op" "op_value op = Some a"
    "x_heap s a = Some blk" "0 < length blk" "op_value_max op \<le> length blk" "length blk < size_max div 2"
  shows "match_op P pdu i s = Some (True,
     if payload_of m = [] then s\<lparr>x_heap := (x_heap s)(a \<mapsto> stored_block [] blk)\<rparr>
     else if op_value_max op \<le> length (payload_of m)
       then s\<lparr>x_ops := (x_ops s)[i := op\<lparr>op_state := EXO_REQUEST_ERROR\<rparr>]\<rparr>
     else s\<lparr>x_heap := (x_heap s)(a \<mapsto> stored_block (payload_of m) blk),
            x_ops := (x_ops s)[i := op\<lparr>op_state := EXO_REQUEST_SUCCESS\<rparr>]\<rparr>)"
  using assms by (rule ack_read)

theorem read_reply_witness:
  "match_op ex_pal (pdu_of (ex_reply CT_ACK 69 (Some [50, 49]))) 1 (ex_state [blank_op, ex_pending EXO_READ] []) =
     Some (True, (ex_state [blank_op, (ex_pending EXO_READ)\<lparr>op_state := EXO_REQUEST_SUCCESS\<rparr>] [])
       \<lparr>x_heap := ex_heap(2 \<mapsto> [50, 49, 0, 65, 65, 65, 65, 65])\<rparr>)"
proof -
  let ?s = "ex_state [blank_op, ex_pending EXO_READ] []" and ?m = "ex_reply CT_ACK 69 (Some [50, 49])"
  have op: "ex_pending EXO_READ = x_ops ?s ! 1" "x_heap ?s 2 = Some (replicate 8 65)"
    by (simp_all add: ex_state_def ex_buffer)
  have m: "m_type ?m = CT_ACK" "drop_bit 5 (m_code ?m) = 2" "1 < length (x_ops ?s)"
    "op_type (ex_pending EXO_READ) = EXO_READ" "waits_for ?m (ex_pending EXO_READ)"
    "op_value (ex_pending EXO_READ) = Some 2" "0 < length (replicate 8 (65 :: u8))"
    "op_value_max (ex_pending EXO_READ) \<le> length (replicate 8 (65 :: u8))"
    "length (replicate 8 (65 :: u8)) < size_max div 2"
    "payload_of ?m = [50, 49]" "\<not> op_value_max (ex_pending EXO_READ) \<le> length (payload_of ?m)"
    "stored_block (payload_of ?m) (replicate 8 65) = [50, 49, 0, 65, 65, 65, 65, 65]"
    by code_simp+
  have "represents (pdu_of ?m) ?m" by (rule ex_reply_represents) simp
  from read_reply [OF this m(1-3) op(1) m(4-6) op(2) m(7-9), of ex_pal] show ?thesis
    using m(10-12) by (simp add: ex_state_def)
qed

text \<open>
  C10. Reads, end to end: a device in EXO_STATE_GOOD has datagrams waiting that are the successful answers to pending reads, in any order,
  each awaited by one operation and with a payload that fits its buffer, and the buffers are different. Then one call of \<open>exo_operate\<close>
  returns with every one of these reads successful and its payload, terminated by a NUL, in its buffer; nothing else in
  the application's memory changes.
\<close>

theorem reads_delivered_by_operate:
  assumes "datagram_pal P inq outq" "state_ok s" "lib_device (x_lib s) = EXO_STATE_GOOD" "unat count \<le> length (x_ops s)"
    "inq (x_world s) = map (\<lambda>(k, m, p). encode_msg m) as" "\<forall>x \<in> set as. answers (unat count) s x"
    "distinct (map fst as)" "distinct (map (\<lambda>x. op_value (x_ops s ! fst x)) as)"
  shows "\<exists>r s'. exo_operate P count s = Some (r, s') \<and>
     (\<forall>(k, m, p) \<in> set as. x_ops s' ! k = (x_ops s ! k)\<lparr>op_state := EXO_REQUEST_SUCCESS\<rparr> \<and>
        (\<exists>a blk. op_value (x_ops s ! k) = Some a \<and> x_heap s a = Some blk \<and>
           x_heap s' a = Some (p @ [0] @ drop (length p + 1) blk))) \<and>
     (\<forall>a. Some a \<notin> set (map (\<lambda>x. op_value (x_ops s ! fst x)) as) \<longrightarrow> x_heap s' a = x_heap s a)"
  using datagram_pal.answers_delivered [OF assms] by (simp add: delivered_def stored_block_def split_beta)

theorem reads_delivered_by_operate_witness:
  "\<exists>r s'. exo_operate ex_pal 3 (ex_state [blank_op, ex_pending EXO_READ, ex_second_read]
       [encode_msg (ex_reply CT_ACK 69 (Some [50, 49])\<lparr>m_mid := 5\<rparr>), encode_msg (ex_reply CT_ACK 69 (Some [51]))]) = Some (r, s') \<and>
     op_state (x_ops s' ! 1) = EXO_REQUEST_SUCCESS \<and> op_state (x_ops s' ! 2) = EXO_REQUEST_SUCCESS \<and>
     x_heap s' 2 = Some ([51, 0] @ replicate 6 65) \<and> x_heap s' 3 = Some [50, 49, 0, 101, 0]"
proof -
  let ?m1 = "ex_reply CT_ACK 69 (Some [50, 49])\<lparr>m_mid := 5\<rparr>" and ?m2 = "ex_reply CT_ACK 69 (Some [51])"
  let ?as = "[(2, ?m1, [50, 49]), (1, ?m2, [51])]" and ?s = "ex_state [blank_op, ex_pending EXO_READ, ex_second_read]
    [encode_msg ?m1, encode_msg ?m2]"
  have h: "lib_device ex_lib = EXO_STATE_GOOD" "ex_inq (x_world ?s) = map (\<lambda>(k, m, p). encode_msg m) ?as"
    "unat (3 :: u8) = 3" "x_heap ?s 2 = Some (replicate 8 65)" "x_heap ?s 3 = Some (c_literal ''acme'')"
    "op_value (ex_pending EXO_READ) = Some 2" "op_value ex_second_read = Some 3"
    "[50, 49] @ [0] @ drop (length [50, 49 :: u8] + 1) (c_literal ''acme'') = [50, 49, 0, 101, 0]"
    by code_simp+
  have "state_ok ?s" by (simp add: state_ok_def ex_state_def; code_simp)
  moreover have "\<forall>x \<in> set ?as. answers 3 ?s x" by code_simp
  ultimately show ?thesis
    using reads_delivered_by_operate [OF script.datagram_pal_axioms, of ?s 3 ?as] h by auto
qed

text \<open>
  C15. A refused request: an acknowledgement of another class fails the operation. With the code 4.01
  the first operation is taken for a new activation if it is free or its timeout has passed; with
  4.04 the device counts as activated.
\<close>

theorem refused_reply:
  assumes "represents pdu m" "m_type m = CT_ACK" "drop_bit 5 (m_code m) \<noteq> 2" "i < length (x_ops s)"
    "waits_for m (x_ops s ! i)"
    "s1 = s\<lparr>x_ops := (x_ops s)[i := (x_ops s ! i)\<lparr>op_state := EXO_REQUEST_ERROR\<rparr>]\<rparr>"
  shows "match_op P pdu i s = Some (True,
     if m_code m = cc_val CC_UNAUTHORIZED then
       (if op_type (x_ops s ! 0) = EXO_NULL then s1\<lparr>x_ops := (x_ops s1)[0 := exo_activate (x_ops s1 ! 0)]\<rparr>
        else let (t, s2) = now_of P s1 in
          if op_timeout (x_ops s ! 0) < t then s2\<lparr>x_ops := (x_ops s1)[0 := exo_activate (x_ops s1 ! 0)]\<rparr> else s2)
     else if m_code m = cc_val CC_NOT_FOUND then s1\<lparr>x_lib := (x_lib s)\<lparr>lib_device := EXO_STATE_GOOD\<rparr>\<rparr>
     else s1)"
  unfolding assms(6) by (rule ack_refused [OF assms(1-5)])

theorem refused_reply_witness:
  "\<exists>s'. match_op ex_pal (pdu_of (ex_reply CT_ACK 129 (Some [49]))) 1 (ex_state [blank_op, ex_pending EXO_READ] []) =
       Some (True, s') \<and>
     x_ops s' = [exo_activate blank_op, (ex_pending EXO_READ)\<lparr>op_state := EXO_REQUEST_ERROR\<rparr>]"
  using refused_reply [OF ex_reply_represents [of "[49]" CT_ACK 129], of 1
      "ex_state [blank_op, ex_pending EXO_READ] []" _ ex_pal, OF _ _ _ _ _ refl]
  by (simp add: blank_op_def)

text \<open>
  C25. A notification: a message with the token of a subscribed operation, the code 2.05, a readable
  Observe option and a payload that fits is stored in the application's buffer; the operation takes its
  message id, a timeout of the Max-Age the message gives (or 120 seconds) plus up to 1.5 seconds,
  and becomes EXO_REQUEST_SUB_ACK_NEW if the sequence number differs from the last one, and
  EXO_REQUEST_SUB_ACK otherwise.
\<close>

theorem notification_reply:
  assumes "represents pdu m" "m_type m = CT_CON \<or> m_type m = CT_NON" "m_code m = cc_val CC_CONTENT"
    "i < length (x_ops s)" "op = x_ops s ! i" "waits_for m op" "op_value op = Some a"
    "x_heap s a = Some blk" "0 < length blk" "op_value_max op \<le> length blk" "length blk < size_max div 2"
    "observe_ok m" "payload_of m \<noteq> []" "length (payload_of m) < op_value_max op"
    "(t, s1) = expiry P (msg_max_age m) (s\<lparr>x_heap := (x_heap s)(a \<mapsto> stored_block (payload_of m) blk)\<rparr>)"
    "seq = obs_fold 0 (observe_bytes m) 0"
  shows "match_op P pdu i s = Some (True, s1\<lparr>x_ops := (x_ops s)[i := op\<lparr>op_mid := m_mid m,
     op_state := if op_obs_seq op = seq then EXO_REQUEST_SUB_ACK else EXO_REQUEST_SUB_ACK_NEW,
     op_obs_seq := seq, op_timeout := t\<rparr>]\<rparr>)"
  using notification [OF assms(1-14), of P] unfolding assms(15) [symmetric] assms(16) by simp

theorem notification_reply_witness:
  "\<exists>s'. match_op ex_pal (pdu_of (ex_reply CT_CON 69 (Some [50, 49]))) 1 (ex_state [blank_op, ex_subscribed] []) =
       Some (True, s') \<and> op_state (x_ops s' ! 1) = EXO_REQUEST_SUB_ACK_NEW \<and> op_obs_seq (x_ops s' ! 1) = 4"
proof -
  let ?s = "ex_state [blank_op, ex_subscribed] []" and ?m = "ex_reply CT_CON 69 (Some [50, 49])"
  let ?e = "expiry ex_pal (msg_max_age ?m) (?s\<lparr>x_heap := (x_heap ?s)(2 \<mapsto> stored_block (payload_of ?m) (replicate 8 65))\<rparr>)"
  have op: "ex_subscribed = x_ops ?s ! 1" "x_heap ?s 2 = Some (replicate 8 65)" "1 < length (x_ops ?s)"
    by (simp_all add: ex_state_def ex_buffer)
  have m: "m_type ?m = CT_CON \<or> m_type ?m = CT_NON" "m_code ?m = cc_val CC_CONTENT"
    "waits_for ?m ex_subscribed" "op_value ex_subscribed = Some 2" "0 < length (replicate 8 (65 :: u8))"
    "op_value_max ex_subscribed \<le> length (replicate 8 (65 :: u8))"
    "length (replicate 8 (65 :: u8)) < size_max div 2" "observe_ok ?m" "payload_of ?m \<noteq> []"
    "length (payload_of ?m) < op_value_max ex_subscribed"
    "obs_fold 0 (observe_bytes ?m) 0 = 4" "op_obs_seq ex_subscribed = 3"
    by code_simp+
  have "represents (pdu_of ?m) ?m" by (rule ex_reply_represents) simp
  from notification_reply [OF this m(1,2) op(3,1) m(3,4) op(2) m(5-10), of "fst ?e" "snd ?e" ex_pal,
      OF prod.collapse refl] show ?thesis
    using m(11,12) op(3) by simp
qed

text \<open>
  C26. The answer to a subscription: a successful acknowledgement with a readable Observe option and a
  payload that fits is stored, the subscription succeeds, and its timeout is set by Max-Age. The
  sequence number is merged into the old one: the bits that were set before the request stay set.
\<close>

theorem subscription_reply:
  assumes "represents pdu m" "m_type m = CT_ACK" "drop_bit 5 (m_code m) = 2" "i < length (x_ops s)"
    "op = x_ops s ! i" "op_type op = EXO_SUBSCRIBE" "waits_for m op" "op_value op = Some a"
    "x_heap s a = Some blk" "0 < length blk" "op_value_max op \<le> length blk" "length blk < size_max div 2"
    "observe_ok m" "payload_of m \<noteq> []" "length (payload_of m) < op_value_max op"
    "(t, s1) = expiry P (msg_max_age m) (s\<lparr>x_heap := (x_heap s)(a \<mapsto> stored_block (payload_of m) blk)\<rparr>)"
  shows "match_op P pdu i s = Some (True, s1\<lparr>x_ops := (x_ops s)[i := op\<lparr>op_state := EXO_REQUEST_SUCCESS,
     op_obs_seq := obs_fold 0 (observe_bytes m) (op_obs_seq op), op_timeout := t\<rparr>]\<rparr>)"
  using ack_subscribe [OF assms(1-15), of P] unfolding assms(16) [symmetric] by simp

theorem subscription_reply_witness:
  "\<exists>s'. match_op ex_pal (pdu_of (ex_reply CT_ACK 69 (Some [50, 49]))) 1 (ex_state [blank_op, ex_pending EXO_SUBSCRIBE] []) =
       Some (True, s') \<and> op_state (x_ops s' ! 1) = EXO_REQUEST_SUCCESS"
proof -
  let ?op = "ex_pending EXO_SUBSCRIBE" and ?m = "ex_reply CT_ACK 69 (Some [50, 49])"
  let ?s = "ex_state [blank_op, ?op] []"
  let ?e = "expiry ex_pal (msg_max_age ?m) (?s\<lparr>x_heap := (x_heap ?s)(2 \<mapsto> stored_block (payload_of ?m) (replicate 8 65))\<rparr>)"
  have op: "?op = x_ops ?s ! 1" "x_heap ?s 2 = Some (replicate 8 65)" "1 < length (x_ops ?s)"
    by (simp_all add: ex_buffer)
  have m: "m_type ?m = CT_ACK" "drop_bit 5 (m_code ?m) = 2" "op_type ?op = EXO_SUBSCRIBE"
    "waits_for ?m ?op" "op_value ?op = Some 2" "0 < length (replicate 8 (65 :: u8))"
    "op_value_max ?op \<le> length (replicate 8 (65 :: u8))"
    "length (replicate 8 (65 :: u8)) < size_max div 2" "observe_ok ?m" "payload_of ?m \<noteq> []"
    "length (payload_of ?m) < op_value_max ?op"
    by code_simp+
  have "represents (pdu_of ?m) ?m" by (rule ex_reply_represents) simp
  from subscription_reply [OF this m(1,2) op(3,1) m(3-5) op(2) m(6-11), of "fst ?e" "snd ?e" ex_pal,
      OF prod.collapse] show ?thesis
    using op(3) by simp
qed

text \<open>
  C17. A confirmable message no operation waits for: the operations, the heap and the library
  stay as they are, and what is sent is at most a reset with the message's id and token.
\<close>

theorem unknown_confirmable_reset:
  assumes "datagram_pal P inq outq" "represents pdu m" "12 \<le> pdu_max pdu" "m_type m = CT_CON"
    "count \<le> length (x_ops s)" "\<forall>i < count. \<not> waits_for m (x_ops s ! i)"
  shows "match_ops P pdu 0 count s = Some (False, s) \<and>
     (\<exists>s'. reply_rst P pdu s = Some s' \<and> x_lib s' = x_lib s \<and> x_heap s' = x_heap s \<and> x_ops s' = x_ops s \<and>
        (outq (x_world s') = outq (x_world s) \<or>
         outq (x_world s') = outq (x_world s) @ [encode_msg (empty_msg CT_RST (m_mid m) (m_token m))]))"
proof
  show "match_ops P pdu 0 count s = Some (False, s)"
    using assms(5,6) by (intro match_ops_none [OF assms(2)]) auto
  show "\<exists>s'. reply_rst P pdu s = Some s' \<and> x_lib s' = x_lib s \<and> x_heap s' = x_heap s \<and> x_ops s' = x_ops s \<and>
        (outq (x_world s') = outq (x_world s) \<or>
         outq (x_world s') = outq (x_world s) @ [encode_msg (empty_msg CT_RST (m_mid m) (m_token m))])"
    using datagram_pal.reply_rst_correct [OF assms(1-3), of s] assms(4) by (auto elim!: returnsE)
qed

theorem unknown_confirmable_reset_witness:
  "match_ops ex_pal (pdu_of (ex_reply CT_CON 69 (Some [49]))) 0 2 (ex_state [blank_op, ex_new_read] []) =
     Some (False, ex_state [blank_op, ex_new_read] []) \<and>
   (\<exists>s'. reply_rst ex_pal (pdu_of (ex_reply CT_CON 69 (Some [49]))) (ex_state [blank_op, ex_new_read] []) = Some s' \<and>
      (ex_outq (x_world s') = [] \<or> ex_outq (x_world s') = [encode_msg (empty_msg CT_RST 0x0FFF [1, 2])]))"
proof -
  let ?m = "ex_reply CT_CON 69 (Some [49])" and ?s = "ex_state [blank_op, ex_new_read] []"
  have "\<forall>i < 2. \<not> waits_for ?m (x_ops ?s ! i)" "2 \<le> length (x_ops ?s)"
    "m_token ?m = [1, 2]" "ex_outq (x_world ?s) = []"
    by code_simp+
  moreover have "represents (pdu_of ?m) ?m" by (rule ex_reply_represents) simp
  moreover have "12 \<le> pdu_max (pdu_of ?m)" by (simp add: pdu_of_def)
  ultimately show ?thesis
    using unknown_confirmable_reset [OF script.datagram_pal_axioms, of "pdu_of ?m" ?m 2 ?s] by auto
qed

text \<open>
  The sequence number of an Observe option of three bytes is not their big-endian value: each
  turn of the loop shifts by 8 times the index of the byte, so the first byte ends up in bits 24 to 31
  and the second in bits 16 to 23.
\<close>

lemma observe_three_bytes:
  assumes "opt_val opt = Buf q" "opt_len opt = 3" "mem_read buf q 3 = Some [a, b, c]"
  shows "obs_seq_loop buf opt 0 0 =
     Some (push_bit 16 (push_bit 8 (ucast a) OR ucast b) OR ucast c)"
  using obs_seq_loop_found [of opt q buf "[a, b, c]" 0 0] assms by simp

end
