(* ===== verification/Exo_Request_Properties.thy ===== *)
theory Exo_Request_Properties
  imports Exo_Example
begin

text \<open>
  The properties of the requests the library builds, sends and repeats, and of \<open>exo_init\<close>.
\<close>

section \<open>Requests\<close>

text \<open>
  C11. Every request is built as it should be: for a CIK of at least 40 bytes and strings that are really there,
  if the request of the operation fits the packet, the builder that \<open>exo_process_active_ops\<close> calls for its
  type succeeds, takes the next message id, and the packet holds exactly that request: a confirmable GET of
  \<^verbatim>\<open>1a/<alias>\<close> with the CIK as query for a read, the same with Observe for a subscription, a POST with the
  value as payload for a write, a POST of \<^verbatim>\<open>provision/activate/<vendor>/<model>/<serial>\<close> for an activation.
\<close>

theorem request_built:
  assumes "op_request h lib rnd op = Some m" "wf_mem pdu" "CIK_LENGTH \<le> length (lib_cik lib)"
    "length (encode_msg m) \<le> pdu_max pdu" "pdu_max pdu < 65536"
  shows "\<exists>q. op_builder op h lib rnd pdu = Some (EXO_OK, q, next_mid lib) \<and> represents q m \<and> pdu_max q = pdu_max pdu"
  using assms by (rule op_builder_correct)

theorem request_built_witness:
  "(\<exists>q. op_builder ex_new_write ex_heap ex_lib 77 ex_buf = Some (EXO_OK, q, next_mid ex_lib) \<and>
      represents q (write_msg 0x1000 77 ex_cik (str_bytes ''temp'') (str_bytes ''001''))) \<and>
   (\<exists>q. op_builder (exo_activate blank_op) ex_heap ex_lib 77 ex_buf = Some (EXO_OK, q, next_mid ex_lib) \<and>
      represents q (activate_msg 0x1000 77 (str_bytes ''acme'') (str_bytes ''m1'') (str_bytes ''001'')))"
proof -
  have act: "op_request ex_heap ex_lib 77 (exo_activate blank_op) =
      Some (activate_msg 0x1000 77 (str_bytes ''acme'') (str_bytes ''m1'') (str_bytes ''001''))"
    "length (encode_msg (activate_msg 0x1000 77 (str_bytes ''acme'') (str_bytes ''m1'') (str_bytes ''001''))) \<le> 576"
    by code_simp+
  show ?thesis
    using request_built [OF ex_write_request(1) ex_buf_mem(1)] request_built [OF act(1) ex_buf_mem(1)]
      act(2) ex_write_request(2) ex_request(3) ex_buf_mem(2) by (auto simp: MINIMUM_DATAGRAM_SIZE_def)
qed

text \<open>
  C9. A new request is sent: in a pass over the operations, a new operation whose request fits 576 bytes is
  built, and if the platform accepts it, exactly that request went out and the operation is pending,
  with a timeout of four seconds and with the message id and the token of the request, by which the
  answer will be recognised. If the platform refuses it the operation stays new.
\<close>

theorem new_request_sent:
  assumes "datagram_pal P inq outq" "pdu_ready pdu" "i < length (x_ops s)" "op = x_ops s ! i"
    "op_state op = EXO_REQUEST_NEW" "CIK_LENGTH \<le> length (lib_cik (x_lib s))" "rnd = fst (rand_of P s)"
    "op_request (x_heap s) (x_lib s) rnd op = Some req" "length (encode_msg req) \<le> MINIMUM_DATAGRAM_SIZE"
  shows "\<exists>t q s'. active_op P now i pdu s = Some (q, s') \<and>
     x_heap s' = x_heap s \<and> x_lib s' = next_mid (x_lib s) \<and> inq (x_world s') = inq (x_world s) \<and>
     (if fst (exopal_udp_send P (encode_msg req) (x_world (snd (rand_of P s)))) = 0
      then outq (x_world s') = outq (x_world s) @ [encode_msg req] \<and>
           x_ops s' = (x_ops s)[i := op\<lparr>op_state := EXO_REQUEST_PENDING, op_timeout := t + 4000000,
                       op_mid := lib_mid (x_lib s), op_token := take_bit 16 rnd\<rparr>]
      else outq (x_world s') = outq (x_world s) \<and> x_ops s' = x_ops s)"
  using datagram_pal.new_request_exact [OF assms] .

theorem new_request_sent_witness:
  "\<exists>t q s'. active_op ex_pal 0 1 ex_buf (ex_state [blank_op, ex_new_write] []) = Some (q, s') \<and>
     ex_outq (x_world s') = [encode_msg (write_msg 0x1000 77 ex_cik (str_bytes ''temp'') (str_bytes ''001''))] \<and>
     x_ops s' = [blank_op, ex_new_write\<lparr>op_state := EXO_REQUEST_PENDING, op_timeout := t + 4000000,
       op_mid := 0x1000, op_token := 77\<rparr>]"
  using new_request_sent [OF script.datagram_pal_axioms ex_buf_ready, of 1 "ex_state [blank_op, ex_new_write] []"
      ex_new_write 77 "write_msg 0x1000 77 ex_cik (str_bytes ''temp'') (str_bytes ''001'')" 0]
    ex_request(3,4) ex_write_request
  by (fastforce simp: ex_rand ex_send take_bit_eq_mod)

text \<open>
  C19. A request that timed out is repeated: it is built again and gets the old message id, but no token,
  because the token length of the operation is always 0: the message sent differs from the original
  in the token it was meant to repeat. The operation counts the retransmission if it was sent.
\<close>

theorem request_repeated:
  assumes "datagram_pal P inq outq" "pdu_ready pdu" "i < length (x_ops s)" "op = x_ops s ! i"
    "op_state op = EXO_REQUEST_PENDING" "op_timeout op \<le> now" "op_retries op < COAP_MAX_RETRANSMIT" "op_inv op"
    "op_type op \<in> {EXO_READ, EXO_WRITE, EXO_ACTIVATE}"
    "CIK_LENGTH \<le> length (lib_cik (x_lib s))" "rnd = fst (rand_of P s)"
    "op_request (x_heap s) (x_lib s) rnd op = Some req" "length (encode_msg req) \<le> MINIMUM_DATAGRAM_SIZE"
    "req' = req\<lparr>m_mid := op_mid op, m_token := []\<rparr>"
  shows "\<exists>t q s'. active_op P now i pdu s = Some (q, s') \<and>
     (if fst (exopal_udp_send P (encode_msg req') (x_world (snd (rand_of P s)))) = 0
      then outq (x_world s') = outq (x_world s) @ [encode_msg req'] \<and>
           x_ops s' = (x_ops s)[i := op\<lparr>op_retries := op_retries op + 1, op_timeout := t\<rparr>]
      else outq (x_world s') = outq (x_world s) \<and> x_ops s' = x_ops s)"
  using datagram_pal.expired_request_exact [OF assms] .

theorem request_repeated_witness:
  "\<exists>t q s'. active_op ex_pal 9000000 1 ex_buf (ex_state [blank_op, ex_pending EXO_READ] []) = Some (q, s') \<and>
     ex_outq (x_world s') =
       [encode_msg ((read_msg 0x1000 77 ex_cik (str_bytes ''temp''))\<lparr>m_mid := 0x0FFF, m_token := []\<rparr>)] \<and>
     x_ops s' = [blank_op, (ex_pending EXO_READ)\<lparr>op_retries := 1, op_timeout := t\<rparr>]"
proof -
  have "op_inv (ex_pending EXO_READ)" "0 < COAP_MAX_RETRANSMIT"
    "op_request ex_heap ex_lib 77 (ex_pending EXO_READ) = Some (read_msg 0x1000 77 ex_cik (str_bytes ''temp''))"
    by code_simp+
  then show ?thesis
    using request_repeated [OF script.datagram_pal_axioms ex_buf_ready, of 1 "ex_state [blank_op, ex_pending EXO_READ] []"
        "ex_pending EXO_READ" 9000000 77 "read_msg 0x1000 77 ex_cik (str_bytes ''temp'')"]
      ex_request(2-4)
    by (simp add: ex_rand ex_send)
qed

text \<open>
  C38. A write whose value does not fit the datagram is sent without it: the builder reports the error, its caller
  does not look, and what goes out is the request with path and CIK but no payload. The write
  is pending like any other.
\<close>

theorem oversize_write_sent:
  assumes "datagram_pal P inq outq" "pdu_ready pdu" "i < length (x_ops s)" "op = x_ops s ! i"
    "op_state op = EXO_REQUEST_NEW" "op_type op = EXO_WRITE"
    "str_at (x_heap s) (op_alias op) a" "str_at (x_heap s) (op_value op) v"
    "CIK_LENGTH \<le> length (lib_cik (x_lib s))" "rnd = fst (rand_of P s)" "length v < size_max div 2"
    "req = request CC_POST (lib_mid (x_lib s)) rnd (alias_opts a (lib_cik (x_lib s)))"
    "length (encode_msg req) \<le> MINIMUM_DATAGRAM_SIZE"
    "MINIMUM_DATAGRAM_SIZE < length (encode_msg (with_payload req v))"
  shows "\<exists>t q s'. active_op P now i pdu s = Some (q, s') \<and>
     (if fst (exopal_udp_send P (encode_msg req) (x_world (snd (rand_of P s)))) = 0
      then outq (x_world s') = outq (x_world s) @ [encode_msg req] \<and>
           x_ops s' = (x_ops s)[i := op\<lparr>op_state := EXO_REQUEST_PENDING, op_timeout := t + 4000000,
                       op_mid := lib_mid (x_lib s), op_token := take_bit 16 rnd\<rparr>]
      else outq (x_world s') = outq (x_world s) \<and> x_ops s' = x_ops s)"
  using datagram_pal.oversize_write_exact [OF assms] .

theorem oversize_write_sent_witness:
  "\<exists>t q s'. active_op ex_pal 0 1 ex_buf ((ex_state [blank_op, ex_new_write] [])\<lparr>x_heap := ex_big_heap\<rparr>) = Some (q, s') \<and>
     ex_outq (x_world s') = [encode_msg (request CC_POST 0x1000 77 (alias_opts (str_bytes ''temp'') ex_cik))] \<and>
     op_state (x_ops s' ! 1) = EXO_REQUEST_PENDING"
proof -
  let ?s = "(ex_state [blank_op, ex_new_write] [])\<lparr>x_heap := ex_big_heap\<rparr>"
  let ?req = "request CC_POST 0x1000 77 (alias_opts (str_bytes ''temp'') ex_cik)"
  have "fst (rand_of ex_pal ?s) = 77" by (simp add: rand_of_def posix_pal_def script_os_def ex_state_def)
  moreover have "length (encode_msg ?req) \<le> MINIMUM_DATAGRAM_SIZE" by code_simp
  moreover have "MINIMUM_DATAGRAM_SIZE < length (encode_msg (with_payload ?req (replicate 600 65)))"
    by (simp add: encode_msg_def with_payload_def MINIMUM_DATAGRAM_SIZE_def)
  ultimately show ?thesis
    using oversize_write_sent [OF script.datagram_pal_axioms ex_buf_ready, of 1 ?s ex_new_write "str_bytes ''temp''"
        "replicate 600 65" 77 ?req 0] ex_big_strings ex_request(3,4)
    by (fastforce simp: ex_send ex_lib_def size_max_def)
qed


section \<open>Initialisation and platforms\<close>

text \<open>
  C33. \<open>exo_init\<close> on a platform whose \<open>exopal_retrieve_cik\<close> fills the array it is given: it returns
  EXO_OK exactly when the platform initialised, the CIK could be looked up (found, or absent with code 1)
  and the socket was opened; then the device is EXO_STATE_INITIALIZED, its strings are the
  arguments, the message ids start at the low 16 bits of a random number, and the CIK is the one
  retrieved, terminated by a NUL. Otherwise it returns EXO_FATAL_ERROR_PAL and the device is
  EXO_STATE_UNINITIALIZED. The operations and the heap are not touched.
\<close>

theorem exo_init_result:
  assumes "exopal_init P (x_world s) = (rc1, w1)" "libc_rand P (libc_srand P w1) = (n, w2)"
    "exopal_retrieve_cik P (lib_cik (x_lib s)) w2 = (rc2, cik, w3)" "length cik = CIK_LENGTH + 1"
    "exopal_udp_sock P w3 = (rc3, w4)"
  shows "\<exists>s'. exo_init P vendor model serial s =
       Some (if rc1 = 0 \<and> rc2 \<le> 1 \<and> rc3 = 0 then EXO_OK else EXO_FATAL_ERROR_PAL, s') \<and>
     x_ops s' = x_ops s \<and> x_heap s' = x_heap s \<and>
     (if rc1 = 0 \<and> rc2 \<le> 1 \<and> rc3 = 0
      then x_lib s' = \<lparr>lib_cik = take CIK_LENGTH cik @ [0], lib_vendor = vendor, lib_model = model,
             lib_serial = serial, lib_mid = of_nat n, lib_device = EXO_STATE_INITIALIZED\<rparr>
      else lib_device (x_lib s') = EXO_STATE_UNINITIALIZED)"
proof -
  have cik: "cik[40 := 0] = take CIK_LENGTH cik @ [0]" "40 < length cik"
    using assms(4) by (simp_all add: list_eq_iff_nth_eq nth_list_update nth_append CIK_LENGTH_def)
  have "ucast (of_nat n :: u64) = (of_nat n :: u16)"
    by (rule bit_word_eqI) (auto simp: bit_simps)
  then show ?thesis
    using assms cik
    by (auto simp: exo_init_def rand_of_def Let_def wr_def)
qed

theorem exo_init_result_witness:
  "\<exists>s'. exo_init ex_pal (Some 3) (Some 4) (Some 5)
       ((ex_state [blank_op] [])\<lparr>x_world := boot_world (Some (replicate 40 98)) 0\<rparr>) = Some (EXO_OK, s') \<and>
     x_lib s' = \<lparr>lib_cik = replicate 40 98 @ [0], lib_vendor = Some 3, lib_model = Some 4,
       lib_serial = Some 5, lib_mid = 5, lib_device = EXO_STATE_INITIALIZED\<rparr>"
proof -
  let ?s = "(ex_state [blank_op] [])\<lparr>x_world := boot_world (Some (replicate 40 98)) 0\<rparr>"
  have "exopal_retrieve_cik ex_pal (lib_cik (x_lib ?s)) (boot_world (Some (replicate 40 98)) 6) =
      (0, replicate 40 98 @ [0], boot_world (Some (replicate 40 98)) 6)"
    by (simp add: boot_calls ex_lib_def)
  moreover have "libc_rand ex_pal (libc_srand ex_pal (x_world ?s)) = (5, boot_world (Some (replicate 40 98)) 6)"
    by (simp add: boot_calls)
  ultimately show ?thesis
    using exo_init_result [OF boot_calls(1), of ?s 5 _ 0 _ _ 0 _ "Some 3" "Some 4" "Some 5"] boot_calls(4)
    by (fastforce simp: CIK_LENGTH_def)
qed

text \<open>
  A new device cannot start on POSIX: when the file with the CIK does not exist yet,
  \<open>exopal_retrieve_cik\<close> reports the fatal code 2 instead of 1 (no CIK has been saved), so \<open>exo_init\<close>
  returns EXO_FATAL_ERROR_PAL and leaves the device uninitialised, on every POSIX system.
\<close>

lemma first_start_fails:
  assumes "\<And>w. fst (sys_fopen os ''cik'' ''r'' w) = False"
  shows "\<exists>s'. exo_init (posix_pal os) vendor model serial s = Some (EXO_FATAL_ERROR_PAL, s') \<and>
     lib_device (x_lib s') = EXO_STATE_UNINITIALIZED"
proof -
  have "fst (exopal_retrieve_cik (posix_pal os) cik w) = 2" for cik w
    using assms [of "sys w"] by (simp add: posix_pal_def posix_retrieve_cik_def Let_def split_beta)
  moreover have "fst (exopal_init (posix_pal os) w) = 0" for w
    by (simp add: posix_pal_def posix_init_def)
  moreover have "(2 :: u8) > 1" by simp
  ultimately show ?thesis
    by (simp add: exo_init_def split_beta Let_def rand_of_def)
qed

end
