(* ===== verification/Format.thy ===== *)
theory Format
  imports Prelude
begin

text \<open>
  The conversions of \<open>printf\<close> the example programs use, as byte strings: decimal and hexadecimal
  numbers with a minimal number of digits, and strings with a precision.
\<close>

section \<open>Numbers\<close>

text \<open>\<^verbatim>\<open>%i\<close>, \<^verbatim>\<open>%zi\<close> and \<^verbatim>\<open>%llu\<close> of a number that is not negative.\<close>

fun dec_digits :: "nat \<Rightarrow> bytes" where
  "dec_digits n = (if n < 10 then [of_nat (48 + n)] else dec_digits (n div 10) @ [of_nat (48 + n mod 10)])"

text \<open>\<^verbatim>\<open>%x\<close> and \<^verbatim>\<open>%X\<close>; the first argument is the code of the digit ten.\<close>

definition hex_digit :: "u8 \<Rightarrow> nat \<Rightarrow> u8" where
  "hex_digit ten d = (if d < 10 then of_nat (48 + d) else ten + of_nat (d - 10))"

fun hex_digits :: "u8 \<Rightarrow> nat \<Rightarrow> bytes" where
  "hex_digits ten n = (if n < 16 then [hex_digit ten n] else hex_digits ten (n div 16) @ [hex_digit ten (n mod 16)])"

declare dec_digits.simps [simp del] hex_digits.simps [simp del]

text \<open>A minimal number of digits.\<close>

definition zeros :: "nat \<Rightarrow> bytes \<Rightarrow> bytes" where
  "zeros k ds = replicate (k - length ds) 48 @ ds"

text \<open>
  \<open>printf("%.*s", (int)n, buf + p)\<close>: at most \<open>n\<close> bytes, up to a NUL; a negative precision counts as none. The bytes that
  are looked at must be there.
\<close>

definition put_str :: "bytes \<Rightarrow> nat \<Rightarrow> nat \<Rightarrow> bytes option" where
  "put_str buf p n =
     (let n = n mod 4294967296; bs = (if n < 2147483648 then take n (drop p buf) else drop p buf) in
      if 0 \<in> set bs \<or> n < 2147483648 \<and> length bs = n then Some (takeWhile (\<lambda>b. b \<noteq> 0) bs) else None)"

lemma put_str_ok:
  assumes "n < 2147483648" "mem_read buf p n = Some bs"
  shows "put_str buf p n = Some (takeWhile (\<lambda>b. b \<noteq> 0) bs)"
  using assms by (simp add: put_str_def mem_read_def split: if_splits)


section \<open>Reading numbers back\<close>

definition undec :: "bytes \<Rightarrow> nat" where
  "undec ds = foldl (\<lambda>n d. 10 * n + (unat d - 48)) 0 ds"

lemma unat_digit: "k < 10 \<Longrightarrow> unat (of_nat (48 + k) :: u8) = 48 + k"
  by (simp add: unat_of_nat del: of_nat_add)

lemma dec_digits_roundtrip: "undec (dec_digits n) = n"
proof (induction n rule: dec_digits.induct)
  case (1 n)
  show ?case
  proof (cases "n < 10")
    case True
    then show ?thesis by (subst dec_digits.simps) (simp add: undec_def unat_digit del: of_nat_add)
  next
    case False
    have "unat (of_nat (48 + n mod 10) :: u8) - 48 = n mod 10" using unat_digit [of "n mod 10"] by simp
    with 1 [OF False] False show ?thesis by (subst dec_digits.simps) (simp add: undec_def del: of_nat_add)
  qed
qed

lemma dec_digits_range: "d \<in> set (dec_digits n) \<Longrightarrow> 48 \<le> d \<and> d \<le> 57"
proof (induction n rule: dec_digits.induct)
  case (1 n)
  have digit: "48 \<le> (of_nat (48 + k) :: u8) \<and> (of_nat (48 + k) :: u8) \<le> 57" if "k < 10" for k
    using unat_digit [OF that] that by (simp add: word_le_nat_alt del: of_nat_add)
  show ?case
  proof (cases "n < 10")
    case True
    then show ?thesis using 1(2) digit [of n] by (subst (asm) dec_digits.simps) (simp del: of_nat_add)
  next
    case False
    then show ?thesis using 1 digit [of "n mod 10"] by (subst (asm) (2) dec_digits.simps) (auto simp del: of_nat_add)
  qed
qed

lemma dec_digits_length: "0 < k \<Longrightarrow> n < 10 ^ k \<Longrightarrow> length (dec_digits n) \<le> k"
proof (induction n arbitrary: k rule: dec_digits.induct)
  case (1 n)
  show ?case
  proof (cases "n < 10")
    case True
    then show ?thesis using 1(2) by (subst dec_digits.simps) simp
  next
    case False
    then obtain j where k: "k = Suc j" "0 < j" using 1(2,3) by (cases k; cases "k - 1") auto
    then have "n div 10 < 10 ^ j" using 1(3) by (simp add: div_less_iff_less_mult mult.commute)
    from 1(1) [OF False k(2) this] False k show ?thesis by (subst dec_digits.simps) simp
  qed
qed

end
