(* ===== verification/Exo_App.thy ===== *)
theory Exo_App
  imports Exo_Round Exo_Value Format
begin

text \<open>
  The example program \<^verbatim>\<open>examples/subscribe.c\<close>: an application that subscribes to a dataport, writes its
  uptime every hundred turns, and calls \<open>exo_operate\<close> until it is idle in each turn.
\<close>

section \<open>The program's objects\<close>

text \<open>\<open>snprintf(buf, sz, "%llu", n)\<close>: at most \<open>sz - 1\<close> digits and a NUL.\<close>

definition snprintf_llu :: "heap \<Rightarrow> cptr \<Rightarrow> nat \<Rightarrow> u64 \<Rightarrow> heap option" where
  "snprintf_llu h p sz n = hstore h p 0 (take (sz - 1) (dec_digits (unat n)) @ [0])"

text \<open>The addresses of its strings and arrays in the heap.\<close>

abbreviation VENDOR :: cptr where "VENDOR \<equiv> Some 1"
abbreviation MODEL :: cptr where "MODEL \<equiv> Some 2"
abbreviation SERIAL :: cptr where "SERIAL \<equiv> Some 3"
abbreviation lit_command :: cptr where "lit_command \<equiv> Some 4"
abbreviation lit_uptime :: cptr where "lit_uptime \<equiv> Some 5"
abbreviation lit_errorcount :: cptr where "lit_errorcount \<equiv> Some 6"
abbreviation read_str :: cptr where "read_str \<equiv> Some 7"
abbreviation loop_str :: cptr where "loop_str \<equiv> Some 8"
abbreviation error_str :: cptr where "error_str \<equiv> Some 9"

text \<open>The arguments are what the three uninitialised arrays hold.\<close>

definition app_heap :: "bytes \<Rightarrow> bytes \<Rightarrow> bytes \<Rightarrow> heap" where
  "app_heap b1 b2 b3 =
     [1 \<mapsto> c_literal ''patrick'', 2 \<mapsto> c_literal ''generic_test'', 3 \<mapsto> c_literal ''001'',
      4 \<mapsto> c_literal ''command'', 5 \<mapsto> c_literal ''uptime'', 6 \<mapsto> c_literal ''errorcount'',
      7 \<mapsto> b1, 8 \<mapsto> b2, 9 \<mapsto> b3]"

text \<open>A function the program defines and never calls: what it would print.\<close>

definition command_handler :: "heap \<Rightarrow> cptr \<Rightarrow> bytes option" where
  "command_handler h value = do { v \<leftarrow> str_of h value; Some (str_bytes ''Got Command: '' @ v @ [10]) }"

record 'w app =
  app_exo :: "'w exo"
  app_loopcount :: u64
  app_errorcount :: u64
  app_out :: bytes

definition op_count :: u8 where
  "op_count = 4"


section \<open>Start\<close>

text \<open>
  The beginning of \<open>main\<close>: the result of \<open>exo_init\<close> is dropped, the four operations are initialised and
  the second one becomes the subscription. \<open>lib\<close>, \<open>ops\<close> and \<open>w\<close> are the library's static variables, the
  uninitialised array and the world at that time.
\<close>

definition app_start ::
  "'w plat \<Rightarrow> bytes \<Rightarrow> bytes \<Rightarrow> bytes \<Rightarrow> exo_lib \<Rightarrow> exo_op list \<Rightarrow> 'w \<Rightarrow> 'w app option" where
  "app_start P b1 b2 b3 lib ops w =
     do {
       (_, s) \<leftarrow> exo_init P VENDOR MODEL SERIAL \<lparr>x_lib = lib, x_heap = app_heap b1 b2 b3, x_ops = ops, x_world = w\<rparr>;
       s \<leftarrow> upd_op 0 exo_op_init s;
       s \<leftarrow> upd_op 1 exo_op_init s;
       s \<leftarrow> upd_op 2 exo_op_init s;
       s \<leftarrow> upd_op 3 exo_op_init s;
       s \<leftarrow> upd_op 1 (exo_subscribe lit_command read_str 32) s;
       Some \<lparr>app_exo = s, app_loopcount = 0, app_errorcount = 0, app_out = []\<rparr> }"


section \<open>A turn of the loop\<close>

text \<open>\<open>while (exo_operate(ops, op_count) != EXO_IDLE);\<close> \<open>None\<close> when it never is.\<close>

partial_function (option) until_idle :: "'w plat \<Rightarrow> u8 \<Rightarrow> 'w exo \<Rightarrow> 'w exo option" where
  "until_idle P count s =
     Option.bind (exo_operate P count s) (\<lambda>(r, s).
       if r \<noteq> EXO_IDLE then until_idle P count s else Some s)"

declare until_idle.simps [code]

definition app_print :: "bytes \<Rightarrow> 'w app \<Rightarrow> 'w app" where
  "app_print line a = a\<lparr>app_out := app_out a @ line\<rparr>"

text \<open>\<open>printf("<tag> '%s' = `%s`\n", op.alias, op.value)\<close>\<close>

definition print_op :: "string \<Rightarrow> exo_op \<Rightarrow> 'w app \<Rightarrow> 'w app option" where
  "print_op tag op a =
     do {
       alias \<leftarrow> str_of (x_heap (app_exo a)) (op_alias op);
       value \<leftarrow> str_of (x_heap (app_exo a)) (op_value op);
       Some (app_print (str_bytes tag @ [32, 39] @ alias @ [39, 32, 61, 32, 96] @ value @ [96, 10]) a) }"

text \<open>The branch for an operation that failed; \<open>errorcount\<close> is printed and written, but never counted up.\<close>

definition report_error :: "exo_op \<Rightarrow> 'w app \<Rightarrow> 'w app option" where
  "report_error op a =
     do {
       alias \<leftarrow> str_of (x_heap (app_exo a)) (op_alias op);
       let a = app_print (str_bytes ''[ERROR] on '' @ [39] @ alias @ [39, 10]) a;
       let a = app_print (str_bytes ''        error count is now '' @ dec_digits (unat (app_errorcount a)) @ [10]) a;
       h \<leftarrow> snprintf_llu (x_heap (app_exo a)) error_str 15 (app_errorcount a);
       s \<leftarrow> upd_op 3 (exo_write lit_errorcount error_str) ((app_exo a)\<lparr>x_heap := h\<rparr>);
       Some (a\<lparr>app_exo := s\<rparr>) }"

definition check_op :: "nat \<Rightarrow> 'w app \<Rightarrow> 'w app option" where
  "check_op i a =
     do {
       op \<leftarrow> get_op i (app_exo a);
       if exo_is_op_finished op then do {
         a \<leftarrow> (if exo_is_op_success op then
                 (if exo_is_op_read op \<or> exo_is_op_subscribe op then print_op ''[SUCCESS] got'' op a
                  else if exo_is_op_write op then print_op ''[SUCCESS] set'' op a
                  else Some (app_print (str_bytes
                    ''[WARNING] something succeeded, but I don'' @ [39] @ str_bytes ''t know what'' @ [10]) a))
               else report_error op a);
         s \<leftarrow> upd_op i exo_op_done (app_exo a);
         Some (a\<lparr>app_exo := s\<rparr>) }
       else Some a }"

text \<open>\<open>for (int i = 1; i < op_count; i++)\<close>, from \<open>i\<close> with \<open>n\<close> to go.\<close>

fun check_ops :: "nat \<Rightarrow> nat \<Rightarrow> 'w app \<Rightarrow> 'w app option" where
  "check_ops i 0 a = Some a"
| "check_ops i (Suc n) a = Option.bind (check_op i a) (check_ops (Suc i) n)"

definition write_uptime :: "'w app \<Rightarrow> 'w app option" where
  "write_uptime a =
     (if app_loopcount a mod 100 = 0 then do {
        h \<leftarrow> snprintf_llu (x_heap (app_exo a)) loop_str 15 (app_loopcount a);
        s \<leftarrow> upd_op 2 (exo_write lit_uptime loop_str) ((app_exo a)\<lparr>x_heap := h\<rparr>);
        Some (a\<lparr>app_exo := s\<rparr>) }
      else Some a)"

text \<open>One turn of \<open>while(1)\<close>; \<open>sleep\<close> is what \<open>nanosleep\<close> does to the world.\<close>

definition app_turn :: "'w plat \<Rightarrow> ('w \<Rightarrow> 'w) \<Rightarrow> 'w app \<Rightarrow> 'w app option" where
  "app_turn P sleep a =
     do {
       a \<leftarrow> write_uptime a;
       s \<leftarrow> until_idle P op_count (app_exo a);
       a \<leftarrow> check_ops 1 3 (a\<lparr>app_exo := s\<rparr>);
       let s = app_exo a;
       Some (a\<lparr>app_exo := s\<lparr>x_world := sleep (x_world s)\<rparr>, app_loopcount := app_loopcount a + 1\<rparr>) }"

text \<open>The states \<open>main\<close> is in between two turns.\<close>

inductive app_reaches :: "'w plat \<Rightarrow> ('w \<Rightarrow> 'w) \<Rightarrow> 'w app \<Rightarrow> 'w app \<Rightarrow> bool" for P sleep a where
  started: "app_reaches P sleep a a"
| turned: "app_reaches P sleep a b \<Longrightarrow> app_turn P sleep b = Some c \<Longrightarrow> app_reaches P sleep a c"


section \<open>What the program keeps\<close>

text \<open>The program's blocks: three strings it reads and three arrays it writes.\<close>

definition app_mem :: "heap \<Rightarrow> bool" where
  "app_mem h \<longleftrightarrow>
     str_ok h lit_command \<and> str_ok h lit_uptime \<and> str_ok h lit_errorcount \<and>
     map_option length (h 7) = Some 32 \<and> map_option length (h 8) = Some 16 \<and> map_option length (h 9) = Some 16"

text \<open>What each operation of the array is for.\<close>

definition app_ops :: "exo_op list \<Rightarrow> bool" where
  "app_ops ops \<longleftrightarrow> length ops = 4 \<and>
     op_type (ops ! 1) = EXO_SUBSCRIBE \<and> op_alias (ops ! 1) = lit_command \<and> op_value (ops ! 1) = read_str \<and>
     op_value_max (ops ! 1) = 32 \<and>
     (op_type (ops ! 2) = EXO_NULL \<or>
      op_type (ops ! 2) = EXO_WRITE \<and> op_alias (ops ! 2) = lit_uptime \<and> op_value (ops ! 2) = loop_str) \<and>
     (op_type (ops ! 3) = EXO_NULL \<or>
      op_type (ops ! 3) = EXO_WRITE \<and> op_alias (ops ! 3) = lit_errorcount \<and> op_value (ops ! 3) = error_str)"

definition app_inv :: "'w app \<Rightarrow> bool" where
  "app_inv a \<longleftrightarrow> (let s = app_exo a in
     state_ok s \<and> values_ok (x_heap s) (x_ops s) \<and> app_mem (x_heap s) \<and> app_ops (x_ops s) \<and> app_errorcount a = 0)"

text \<open>The part of it that concerns the library's state.\<close>

abbreviation exo_inv :: "'w exo \<Rightarrow> bool" where
  "exo_inv s \<equiv> state_ok s \<and> values_ok (x_heap s) (x_ops s) \<and> app_mem (x_heap s) \<and> app_ops (x_ops s)"

lemma app_inv_iff: "app_inv a \<longleftrightarrow> exo_inv (app_exo a) \<and> app_errorcount a = 0"
  by (simp add: app_inv_def Let_def)

lemma heap_kept_length: "heap_kept h h' \<Longrightarrow> map_option length (h a) = Some n \<Longrightarrow> map_option length (h' a) = Some n"
  by (auto simp: heap_kept_def)

lemma app_mem_kept: "heap_kept h h' \<Longrightarrow> app_mem h \<Longrightarrow> app_mem h'"
  using heap_kept_length [of h h' 7 32] heap_kept_length [of h h' 8 16] heap_kept_length [of h h' 9 16]
  by (simp add: app_mem_def str_ok_kept)

lemma app_ops_steps:
  assumes "all_steps ops ops'" "app_ops ops"
  shows "app_ops ops'"
proof -
  have "op_type (ops' ! i) = op_type (ops ! i) \<and> op_alias (ops' ! i) = op_alias (ops ! i) \<and>
      op_value (ops' ! i) = op_value (ops ! i) \<and> op_value_max (ops' ! i) = op_value_max (ops ! i)"
    if "i \<in> {1, 2, 3}" for i
    using that assms by (intro op_steps_purpose [of i]) (auto simp: all_steps_def app_ops_def)
  with assms show ?thesis by (simp add: app_ops_def all_steps_def)
qed

lemma operate_exo_inv:
  assumes "exo_operate P count s = Some (r, s')" "exo_inv s"
  shows "exo_inv s'"
  using assms operate_state_ok [OF assms(1)] operate_values_ok [OF assms(1)]
    app_mem_kept [of "x_heap s" "x_heap s'"] memory.operate_rel [OF assms(1)] app_ops_steps [OF operate_steps [OF assms(1)]]
  by (auto simp: frame_def)


section \<open>The loop around exo_operate\<close>

text \<open>What holds when it ends; the last call was idle.\<close>

lemma until_idle_result:
  assumes "until_idle P count s = Some s'" "Q s" "\<And>r s1 s2. exo_operate P count s1 = Some (r, s2) \<Longrightarrow> Q s1 \<Longrightarrow> Q s2"
  shows "Q s' \<and> (\<exists>s1. Q s1 \<and> exo_operate P count s1 = Some (EXO_IDLE, s'))"
proof -
  let ?I = "\<lambda>a s'. fst a = (P, count) \<longrightarrow> Q (snd a) \<longrightarrow> Q s' \<and> (\<exists>s1. Q s1 \<and> exo_operate P count s1 = Some (EXO_IDLE, s'))"
  have "?I ((P, count), s) s'"
  proof (rule until_idle.raw_induct [where Pa = ?I, OF _ assms(1)], unfold fst_conv snd_conv, intro impI, goal_cases)
    case (1 loop P' count' s s')
    obtain r s1 where r: "exo_operate P count s = Some (r, s1)"
      "(if r \<noteq> EXO_IDLE then loop P count s1 else Some s1) = Some s'"
      using 1(2,3) by (auto simp: bind_eq_Some_conv)
    have "Q s1" using assms(3) [OF r(1) 1(4)] .
    with r 1(1,4) show ?case by (auto split: if_splits)
  qed
  then show ?thesis using assms(2) by simp
qed

lemma until_idle_idle:
  assumes "exo_operate P count s = Some (EXO_IDLE, s')" "op \<in> set (take (unat count) (x_ops s'))"
  shows "op_state op \<notin> {EXO_REQUEST_NEW, EXO_REQUEST_PENDING}"
  using assms
  by (auto simp: exo_operate_def ops_state_def bind_eq_Some_conv split: if_splits)

text \<open>\<open>n\<close> calls one after the other, and what they return.\<close>

fun operate_calls :: "'w plat \<Rightarrow> u8 \<Rightarrow> nat \<Rightarrow> 'w exo \<Rightarrow> (exo_state list \<times> 'w exo) option" where
  "operate_calls P count 0 s = Some ([], s)"
| "operate_calls P count (Suc n) s =
     do { (r, s) \<leftarrow> exo_operate P count s; (rs, s) \<leftarrow> operate_calls P count n s; Some (r # rs, s) }"

text \<open>When every call returns, and none is idle, the loop runs for ever; it does not stop at an error.\<close>

lemma never_idle:
  assumes "Q s" "\<And>s. Q s \<Longrightarrow> \<exists>r s'. exo_operate P count s = Some (r, s') \<and> r \<noteq> EXO_IDLE \<and> Q s'"
  shows "\<exists>rs s'. operate_calls P count n s = Some (rs, s') \<and> length rs = n \<and> EXO_IDLE \<notin> set rs \<and> Q s'"
    and "until_idle P count s = None"
proof -
  show "\<exists>rs s'. operate_calls P count n s = Some (rs, s') \<and> length rs = n \<and> EXO_IDLE \<notin> set rs \<and> Q s'"
    using assms(1)
  proof (induction n arbitrary: s)
    case (Suc n)
    obtain r s1 where r: "exo_operate P count s = Some (r, s1)" "r \<noteq> EXO_IDLE" "Q s1"
      using assms(2) [OF Suc.prems] by blast
    with Suc.IH [OF r(3)] show ?case by auto
  qed simp
  show "until_idle P count s = None"
  proof (rule ccontr)
    assume "until_idle P count s \<noteq> None"
    then obtain s' where s': "until_idle P count s = Some s'" by blast
    have "Q s2" if "exo_operate P count s1 = Some (r, s2)" "Q s1" for r s1 s2
      using assms(2) [OF that(2)] that(1) by auto
    from until_idle_result [where Q = Q, OF s' assms(1)] this obtain s1 where
      "Q s1" "exo_operate P count s1 = Some (EXO_IDLE, s')" by blast
    with assms(2) show False by fastforce
  qed
qed

text \<open>With an uninitialised library every call returns EXO_ERROR and does nothing.\<close>

lemma calls_uninitialized:
  assumes "lib_device (x_lib s) = EXO_STATE_UNINITIALIZED"
  shows "operate_calls P count n s = Some (replicate n EXO_ERROR, s)" "until_idle P count s = None"
proof -
  show "operate_calls P count n s = Some (replicate n EXO_ERROR, s)"
    using assms by (induction n) (simp_all add: exo_operate_def)
  show "until_idle P count s = None"
    by (rule never_idle(2) [where Q = "\<lambda>s. lib_device (x_lib s) = EXO_STATE_UNINITIALIZED"])
      (simp_all add: assms exo_operate_def)
qed


section \<open>A turn is safe\<close>

lemma snprintf_llu_safe:
  assumes "h a = Some blk" "length blk = 16"
  shows "\<exists>h'. snprintf_llu h (Some a) 15 n = Some h' \<and> heap_kept h h' \<and>
     str_of h' (Some a) = Some (take 14 (dec_digits (unat n)))"
proof -
  let ?d = "take 14 (dec_digits (unat n))"
  let ?blk = "?d @ [0] @ drop (length ?d + 1) blk"
  have "length (?d @ [0]) \<le> length blk" using assms(2) by simp
  then have "snprintf_llu h (Some a) 15 n = Some (h(a \<mapsto> ?blk))"
    unfolding snprintf_llu_def using assms(1) by (simp add: hstore_Some)
  moreover have "heap_kept h (h(a \<mapsto> ?blk))"
    using assms by (intro heap_kept_update) auto
  moreover have "takeWhile (\<lambda>b. b \<noteq> 0) ?blk = ?d"
    using dec_digits_range [of 0 "unat n"] by (subst takeWhile_append2) (auto dest!: in_set_takeD)
  then have "str_of (h(a \<mapsto> ?blk)) (Some a) = Some ?d"
    by (simp add: str_of_def hload_def cstr_def)
  ultimately show ?thesis by blast
qed

lemma exo_inv_update:
  assumes "exo_inv s" "heap_kept (x_heap s) h" "op_inv op'" "op_mem h op'" "value_ok h op'" "app_ops ((x_ops s)[i := op'])"
  shows "exo_inv (s\<lparr>x_heap := h, x_ops := (x_ops s)[i := op']\<rparr>)"
proof -
  have "op_inv op \<and> op_mem h op" if "op \<in> set ((x_ops s)[i := op'])" for op
    using that assms(1-4) set_update_subset_insert [of "x_ops s" i op'] op_mem_kept [OF assms(2)]
    by (auto simp: state_ok_def)
  with assms show ?thesis
    by (auto simp: state_ok_def lib_ok_kept values_ok_store app_mem_kept)
qed

lemma str_ok_block: "str_of h (Some a) = Some v \<Longrightarrow> map_option length (h a) = Some 16 \<Longrightarrow> str_ok h (Some a)"
  by (auto simp: str_of_def str_ok_def hload_def cstr_def size_max_def split: if_splits)

text \<open>Queuing a write of a number the program has just printed into one of its arrays.\<close>

lemma queue_number:
  assumes "exo_inv s" "i = 2 \<and> alias = lit_uptime \<and> buf = 8 \<or> i = 3 \<and> alias = lit_errorcount \<and> buf = 9"
  obtains h s' where "snprintf_llu (x_heap s) (Some buf) 15 n = Some h"
    "upd_op i (exo_write alias (Some buf)) (s\<lparr>x_heap := h\<rparr>) = Some s'" "exo_inv s'"
    "x_ops s' = (x_ops s)[i := exo_write alias (Some buf) (x_ops s ! i)]"
    "str_of (x_heap s') (Some buf) = Some (take 14 (dec_digits (unat n)))"
proof -
  obtain blk where "x_heap s buf = Some blk" "length blk = 16"
    using assms by (auto simp: app_mem_def)
  with snprintf_llu_safe [of "x_heap s" buf blk n] obtain h where h: "snprintf_llu (x_heap s) (Some buf) 15 n = Some h"
    "heap_kept (x_heap s) h" "str_of h (Some buf) = Some (take 14 (dec_digits (unat n)))" by blast
  have mem: "app_mem h" using assms(1) h(2) app_mem_kept by blast
  let ?op = "exo_write alias (Some buf) (x_ops s ! i)"
  have len: "length (x_ops s) = 4" "i < 4" using assms by (auto simp: app_ops_def)
  have "str_ok h alias" "str_ok h (Some buf)"
    using assms(2) mem str_ok_block [OF h(3)] by (auto simp: app_mem_def)
  then have "op_mem h ?op" by (simp add: op_mem_def exo_write_def)
  moreover have "op_inv ?op" using assms(1) len by (intro op_inv_calls) (auto simp: state_ok_def)
  moreover have "value_ok h ?op" by (simp add: exo_write_def value_ok_def)
  moreover have "app_ops ((x_ops s)[i := ?op])"
    using assms by (auto simp: app_ops_def exo_write_def)
  ultimately have "exo_inv (s\<lparr>x_heap := h, x_ops := (x_ops s)[i := ?op]\<rparr>)"
    using exo_inv_update [OF assms(1) h(2)] by blast
  then show thesis
    using that [of h] h len by (simp add: upd_op_def get_op_def)
qed

lemma write_uptime_safe:
  assumes "app_inv a"
  shows "returns (write_uptime a) (\<lambda>b. app_inv b \<and> app_loopcount b = app_loopcount a)"
proof -
  have e: "exo_inv (app_exo a)" using assms by (simp add: app_inv_iff)
  from queue_number [OF e, of 2 lit_uptime 8 "app_loopcount a"] obtain h s' where
    "snprintf_llu (x_heap (app_exo a)) loop_str 15 (app_loopcount a) = Some h"
    "upd_op 2 (exo_write lit_uptime loop_str) ((app_exo a)\<lparr>x_heap := h\<rparr>) = Some s'" "exo_inv s'"
    by blast
  with assms show ?thesis by (simp add: write_uptime_def app_inv_iff)
qed

text \<open>The result of a finished operation can be printed, and is taken back.\<close>

lemma finished_strings:
  assumes "exo_inv s" "i \<in> {1, 2, 3}" "op = x_ops s ! i" "exo_is_op_finished op"
  shows "\<exists>v. str_of (x_heap s) (op_alias op) = Some v"
    and "exo_is_op_success op \<Longrightarrow> \<exists>v. str_of (x_heap s) (op_value op) = Some v"
    and "i = 1 \<Longrightarrow> op_type op = EXO_SUBSCRIBE" "i \<noteq> 1 \<Longrightarrow> op_type op = EXO_WRITE"
proof -
  have i: "i < length (x_ops s)" using assms(1,2) by (auto simp: app_ops_def)
  then have inv: "op_inv op" "op_mem (x_heap s) op" "value_ok (x_heap s) op"
    using assms(1,3) by (auto simp: state_ok_def values_ok_def)
  then have "op_type op \<noteq> EXO_NULL"
    using assms(4) by (auto simp: op_inv_def exo_is_op_finished_def)
  then show t: "i = 1 \<Longrightarrow> op_type op = EXO_SUBSCRIBE" "i \<noteq> 1 \<Longrightarrow> op_type op = EXO_WRITE"
    using assms(1-3) by (auto simp: app_ops_def)
  show "\<exists>v. str_of (x_heap s) (op_alias op) = Some v"
    using t inv(2) by (cases "i = 1") (auto simp: op_mem_def dest: str_ok_of)
  show "\<exists>v. str_of (x_heap s) (op_value op) = Some v" if "exo_is_op_success op"
    using t inv(2,3) that
    by (cases "i = 1") (auto simp: op_mem_def value_ok_def exo_is_op_success_def dest: str_ok_of)
qed

lemma done_inv:
  assumes "exo_inv s" "i \<in> {1, 2, 3}"
  shows "returns (upd_op i exo_op_done s) (\<lambda>s'. exo_inv s' \<and> x_ops s' = (x_ops s)[i := exo_op_done (x_ops s ! i)])"
proof -
  have i: "i < length (x_ops s)" using assms by (auto simp: app_ops_def)
  let ?op = "x_ops s ! i"
  have inv: "op_inv ?op" "op_mem (x_heap s) ?op" using assms(1) i by (auto simp: state_ok_def)
  have "op_mem (x_heap s) (exo_op_done ?op)" "value_ok (x_heap s) (exo_op_done ?op)"
    using inv(2) by (simp_all add: exo_op_done_def)
  moreover have "app_ops ((x_ops s)[i := exo_op_done ?op])"
    using assms by (auto simp: app_ops_def exo_op_done_def exo_is_op_subscribe_def exo_op_init_def)
  ultimately have "exo_inv (s\<lparr>x_heap := x_heap s, x_ops := (x_ops s)[i := exo_op_done ?op]\<rparr>)"
    using exo_inv_update [OF assms(1), of "x_heap s" "exo_op_done ?op" i] op_inv_done [OF inv(1)] by simp
  then show ?thesis using i by simp
qed

lemma print_op_safe:
  assumes "\<exists>v. str_of (x_heap (app_exo a)) (op_alias op) = Some v" "\<exists>v. str_of (x_heap (app_exo a)) (op_value op) = Some v"
  shows "returns (print_op tag op a) (\<lambda>b. \<exists>out. b = a\<lparr>app_out := out\<rparr>)"
  using assms by (auto simp: print_op_def app_print_def)

lemma report_error_safe:
  assumes "app_inv a" "\<exists>v. str_of (x_heap (app_exo a)) (op_alias op) = Some v"
  shows "returns (report_error op a) (\<lambda>b. app_inv b \<and> app_loopcount b = app_loopcount a \<and>
     x_ops (app_exo b) = (x_ops (app_exo a))[3 := exo_write lit_errorcount error_str (x_ops (app_exo a) ! 3)] \<and>
     str_of (x_heap (app_exo b)) error_str = Some (str_bytes ''0''))"
proof -
  have e: "exo_inv (app_exo a)" "app_errorcount a = 0" using assms(1) by (simp_all add: app_inv_iff)
  from queue_number [OF e(1), of 3 lit_errorcount 9 0] obtain h s' where s':
    "snprintf_llu (x_heap (app_exo a)) error_str 15 0 = Some h"
    "upd_op 3 (exo_write lit_errorcount error_str) ((app_exo a)\<lparr>x_heap := h\<rparr>) = Some s'" "exo_inv s'"
    "x_ops s' = (x_ops (app_exo a))[3 := exo_write lit_errorcount error_str (x_ops (app_exo a) ! 3)]"
    "str_of (x_heap s') error_str = Some (take 14 (dec_digits (unat (0 :: u64))))"
    by blast
  have "take 14 (dec_digits (unat (0 :: u64))) = str_bytes ''0''"
    by (subst dec_digits.simps) (simp add: str_bytes_def)
  with s' e assms(2) show ?thesis
    by (auto simp: report_error_def app_print_def app_inv_iff)
qed

lemma check_op_safe:
  assumes "app_inv a" "i \<in> {1, 2, 3}"
  shows "returns (check_op i a) (\<lambda>b. app_inv b \<and> app_loopcount b = app_loopcount a)"
proof -
  let ?op = "x_ops (app_exo a) ! i"
  have e: "exo_inv (app_exo a)" using assms(1) by (simp add: app_inv_iff)
  have i: "i < length (x_ops (app_exo a))" using e assms(2) by (auto simp: app_ops_def)
  show ?thesis
  proof (cases "exo_is_op_finished ?op")
    case True
    note fin = finished_strings [OF e assms(2) refl True]
    have tail: "returns (upd_op i exo_op_done (app_exo b)) (\<lambda>s. app_inv (b\<lparr>app_exo := s\<rparr>))" if "app_inv b" for b
      using done_inv [of "app_exo b" i] assms(2) that by (auto simp: app_inv_iff elim!: returns_mono)
    have same: "app_inv (a\<lparr>app_out := out\<rparr>)" for out using assms(1) by (simp add: app_inv_iff)
    show ?thesis
    proof (cases "exo_is_op_success ?op")
      case success: True
      obtain out where "\<And>tag. print_op tag ?op a = Some (a\<lparr>app_out := out tag\<rparr>)"
        using print_op_safe [OF fin(1) fin(2) [OF success]] unfolding returns_def by metis
      then have "\<exists>out. check_op i a = Option.bind (Some (a\<lparr>app_out := out\<rparr>))
          (\<lambda>b. Option.bind (upd_op i exo_op_done (app_exo b)) (\<lambda>s. Some (b\<lparr>app_exo := s\<rparr>)))"
        using fin(3,4) True success i
        by (cases "i = 1")
          (auto simp: check_op_def get_op_def exo_is_op_read_def exo_is_op_subscribe_def exo_is_op_write_def)
      then show ?thesis using tail [OF same] by auto
    next
      case False
      obtain b where "report_error ?op a = Some b" "app_inv b" "app_loopcount b = app_loopcount a"
        using report_error_safe [OF assms(1) fin(1)] by (auto elim: returnsE)
      then show ?thesis using tail True False i by (simp add: check_op_def get_op_def)
    qed
  qed (use assms i in \<open>simp add: check_op_def\<close>)
qed

text \<open>A failed operation: the error count is queued as operation 3, unless it was operation 3 that failed.\<close>

lemma check_op_error:
  assumes "app_inv a" "i \<in> {1, 2, 3}" "op = x_ops (app_exo a) ! i" "exo_is_op_finished op" "\<not> exo_is_op_success op"
  shows "returns (check_op i a) (\<lambda>b. app_inv b \<and> str_of (x_heap (app_exo b)) error_str = Some (str_bytes ''0'') \<and>
     x_ops (app_exo b) ! 3 =
       (if i = 3 then exo_op_init (exo_write lit_errorcount error_str op)
        else exo_write lit_errorcount error_str (x_ops (app_exo a) ! 3)))"
proof -
  have e: "exo_inv (app_exo a)" using assms(1) by (simp add: app_inv_iff)
  have len: "length (x_ops (app_exo a)) = 4" using e by (simp add: app_ops_def)
  obtain b where b: "report_error op a = Some b" "app_inv b"
    "x_ops (app_exo b) = (x_ops (app_exo a))[3 := exo_write lit_errorcount error_str (x_ops (app_exo a) ! 3)]"
    "str_of (x_heap (app_exo b)) error_str = Some (str_bytes ''0'')"
    using report_error_safe [OF assms(1) finished_strings(1) [OF e assms(2-4)]] by (auto elim: returnsE)
  have "returns (upd_op i exo_op_done (app_exo b)) (\<lambda>s'. exo_inv s' \<and> x_heap s' = x_heap (app_exo b) \<and>
      x_ops s' = (x_ops (app_exo b))[i := exo_op_done (x_ops (app_exo b) ! i)])"
    using done_inv [of "app_exo b" i] b(2) assms(2) len b(3)
    by (auto simp: app_inv_iff upd_op_def get_op_def)
  moreover have "exo_op_done (exo_write al v o1) = exo_op_init (exo_write al v o1)" for al v o1
    by (simp add: exo_op_done_def exo_is_op_subscribe_def exo_write_def)
  ultimately show ?thesis
    using b assms(2-5) len
    by (auto simp: check_op_def get_op_def app_inv_iff elim!: returns_mono)
qed

lemma check_ops_safe:
  assumes "app_inv a" "1 \<le> i" "i + n \<le> 4"
  shows "returns (check_ops i n a) (\<lambda>b. app_inv b \<and> app_loopcount b = app_loopcount a)"
  using assms
proof (induction n arbitrary: i a)
  case (Suc n)
  have i: "i \<in> {1, 2, 3}" "1 \<le> Suc i" "Suc i + n \<le> 4" using Suc.prems(2,3) by auto
  obtain b where "check_op i a = Some b" "app_inv b" "app_loopcount b = app_loopcount a"
    using check_op_safe [OF Suc.prems(1) i(1)] by (auto elim: returnsE)
  with Suc.IH [OF _ i(2,3), of b] show ?case by simp
qed simp

text \<open>A turn ends, and keeps the invariant, as soon as the loop around \<open>exo_operate\<close> ends.\<close>

lemma app_turn_safe:
  assumes "app_inv a"
  shows "\<exists>b. write_uptime a = Some b \<and> app_inv b \<and>
     (if until_idle P op_count (app_exo b) = None then app_turn P sleep a = None
      else returns (app_turn P sleep a) (\<lambda>c. app_inv c \<and> app_loopcount c = app_loopcount a + 1))"
proof -
  obtain b where b: "write_uptime a = Some b" "app_inv b" "app_loopcount b = app_loopcount a"
    using write_uptime_safe [OF assms] by (auto elim: returnsE)
  have "returns (app_turn P sleep a) (\<lambda>c. app_inv c \<and> app_loopcount c = app_loopcount a + 1)"
    if s: "until_idle P op_count (app_exo b) = Some s" for s
  proof -
    have "exo_inv (app_exo b)" using b(2) by (simp add: app_inv_iff)
    from until_idle_result [where Q = exo_inv, OF s this] operate_exo_inv have "exo_inv s" by blast
    then have "app_inv (b\<lparr>app_exo := s\<rparr>)" using b(2) by (simp add: app_inv_iff)
    then have c: "returns (check_ops 1 3 (b\<lparr>app_exo := s\<rparr>)) (\<lambda>c. app_inv c \<and> app_loopcount c = app_loopcount b)"
      using check_ops_safe [of "b\<lparr>app_exo := s\<rparr>" 1 3] by simp
    have sl: "app_inv (c\<lparr>app_exo := (app_exo c)\<lparr>x_world := w\<rparr>, app_loopcount := n\<rparr>)" if "app_inv c" for c w n
      using that by (simp add: app_inv_iff state_ok_def)
    show ?thesis
      using c sl b(3) by (auto simp: app_turn_def b(1) s Let_def elim!: returns_mono)
  qed
  moreover have "app_turn P sleep a = None" if "until_idle P op_count (app_exo b) = None"
    using that by (simp add: app_turn_def b(1))
  ultimately show ?thesis using b by auto
qed

lemma app_reaches_inv: "app_reaches P sleep a b \<Longrightarrow> app_inv a \<Longrightarrow> app_inv b"
proof (induction rule: app_reaches.induct)
  case (turned b c)
  from app_turn_safe [OF turned.IH [OF turned.prems], of P sleep] turned.hyps(2) show ?case
    by (auto split: if_splits elim: returnsE)
qed


section \<open>The start of the program\<close>

lemma exo_init_effects:
  assumes "fst (exopal_init P (x_world s)) = 0" "length (lib_cik (x_lib s)) = CIK_LENGTH + 1"
    "\<And>cik w. length cik = CIK_LENGTH + 1 \<Longrightarrow> length (fst (snd (exopal_retrieve_cik P cik w))) = CIK_LENGTH + 1"
  shows "returns (exo_init P v m sn s) (\<lambda>(e, s'). x_heap s' = x_heap s \<and> x_ops s' = x_ops s \<and>
     lib_vendor (x_lib s') = v \<and> lib_model (x_lib s') = m \<and> lib_serial (x_lib s') = sn \<and>
     length (lib_cik (x_lib s')) = CIK_LENGTH + 1 \<and>
     (e \<noteq> EXO_OK \<longrightarrow> lib_device (x_lib s') = EXO_STATE_UNINITIALIZED))"
  using assms
  by (simp add: exo_init_def split_beta Let_def wr_def CIK_LENGTH_def rand_of_def)

lemma app_start_inv:
  assumes "fst (exopal_init P w) = 0" "length (lib_cik lib) = CIK_LENGTH + 1"
    "\<And>cik w. length cik = CIK_LENGTH + 1 \<Longrightarrow> length (fst (snd (exopal_retrieve_cik P cik w))) = CIK_LENGTH + 1"
    "length b1 = 32" "length b2 = 16" "length b3 = 16" "length ops = 4"
  shows "\<exists>e s a. exo_init P VENDOR MODEL SERIAL \<lparr>x_lib = lib, x_heap = app_heap b1 b2 b3, x_ops = ops, x_world = w\<rparr> =
       Some (e, s) \<and> app_start P b1 b2 b3 lib ops w = Some a \<and> app_inv a \<and> app_loopcount a = 0 \<and>
     x_lib (app_exo a) = x_lib s"
proof -
  let ?s = "\<lparr>x_lib = lib, x_heap = app_heap b1 b2 b3, x_ops = ops, x_world = w\<rparr>"
  obtain e s where s: "exo_init P VENDOR MODEL SERIAL ?s = Some (e, s)" "x_heap s = app_heap b1 b2 b3" "x_ops s = ops"
    "lib_vendor (x_lib s) = VENDOR" "lib_model (x_lib s) = MODEL" "lib_serial (x_lib s) = SERIAL"
    "length (lib_cik (x_lib s)) = CIK_LENGTH + 1"
    using exo_init_effects [of P ?s VENDOR MODEL SERIAL] assms(1-3) by (auto elim!: returnsE)
  obtain o0 o1 o2 o3 where ops: "ops = [o0, o1, o2, o3]"
    using assms(7) by (auto simp: length_Suc_conv numeral_eq_Suc)
  let ?ops = "[exo_op_init o0, exo_subscribe lit_command read_str 32 (exo_op_init o1), exo_op_init o2, exo_op_init o3]"
  let ?h = "app_heap b1 b2 b3"
  have start: "app_start P b1 b2 b3 lib ops w =
      Some \<lparr>app_exo = s\<lparr>x_ops := ?ops\<rparr>, app_loopcount = 0, app_errorcount = 0, app_out = []\<rparr>"
    using s(1,3) ops by (simp add: app_start_def upd_op_def get_op_def numeral_eq_Suc)
  have mem: "str_ok ?h VENDOR" "str_ok ?h MODEL" "str_ok ?h SERIAL" "app_mem ?h"
    using assms(4-6) by (simp_all add: app_mem_def str_ok_def app_heap_def hload_def c_literal_def str_bytes_def size_max_def)
  then have "op_mem ?h (exo_subscribe lit_command read_str 32 (exo_op_init o1))"
    by (auto simp: op_mem_def app_mem_def exo_subscribe_def buffer_ok_def hload_def size_max_def)
  moreover have "lib_ok ?h (x_lib s)" using mem s(4-7) by (simp add: lib_ok_def)
  ultimately have "state_ok (s\<lparr>x_ops := ?ops\<rparr>)"
    using s(2) by (simp add: state_ok_def op_inv_calls)
  moreover have "values_ok ?h ?ops" "app_ops ?ops"
    by (simp_all add: values_ok_def app_ops_def value_ok_def op_calls numeral_eq_Suc)
  ultimately have "app_inv \<lparr>app_exo = s\<lparr>x_ops := ?ops\<rparr>, app_loopcount = 0, app_errorcount = 0, app_out = []\<rparr>"
    using mem(4) s(2) by (simp add: app_inv_iff)
  with s(1) start show ?thesis by simp
qed

lemma write_uptime_lib: "if_returns (write_uptime a) (\<lambda>b. x_lib (app_exo b) = x_lib (app_exo a))"
  by (auto simp: write_uptime_def upd_op_def intro!: if_returnsI)

text \<open>If the library could not be initialised, the first turn calls \<open>exo_operate\<close> for ever.\<close>

lemma app_turn_uninitialized:
  assumes "app_inv a" "lib_device (x_lib (app_exo a)) = EXO_STATE_UNINITIALIZED"
  shows "\<exists>b. write_uptime a = Some b \<and> (\<forall>n. operate_calls P op_count n (app_exo b) = Some (replicate n EXO_ERROR, app_exo b)) \<and>
     until_idle P op_count (app_exo b) = None \<and> app_turn P sleep a = None"
proof -
  obtain b where b: "write_uptime a = Some b" using app_turn_safe [OF assms(1), of P sleep] by blast
  have "lib_device (x_lib (app_exo b)) = EXO_STATE_UNINITIALIZED"
    using if_returnsD [OF write_uptime_lib b] assms(2) by simp
  note calls_uninitialized [OF this, of P op_count]
  with b show ?thesis by (simp add: app_turn_def)
qed

end
