(* ===== verification/Exo_Silence.thy ===== *)
theory Exo_Silence
  imports Exo_App
begin

text \<open>
  What happens when nobody answers: the loop an application runs around \<open>exo_operate\<close> ends if only reads, writes and
  activations are waiting, and never ends if a subscription is.
\<close>

section \<open>What a pass does to an operation\<close>

text \<open>
  The pass at time \<open>now\<close>; \<open>ok\<close> says that the platform sends whatever it is given. The times, ids and tokens are left open.
\<close>

inductive pass_step :: "bool \<Rightarrow> u64 \<Rightarrow> exo_op \<Rightarrow> exo_op \<Rightarrow> bool" for ok :: bool and now :: u64 where
  refused: "\<not> ok \<Longrightarrow> pass_step ok now op op"
| resting: "at_rest op \<Longrightarrow> pass_step ok now op op"
| untyped: "op_type op = EXO_NULL \<Longrightarrow> pass_step ok now op op"
| early: "op_state op \<in> {EXO_REQUEST_PENDING, EXO_REQUEST_SUBSCRIBED} \<Longrightarrow> now < op_timeout op \<Longrightarrow> pass_step ok now op op"
| sent: "op_state op = EXO_REQUEST_NEW \<Longrightarrow>
    pass_step ok now op (op\<lparr>op_state := EXO_REQUEST_PENDING, op_timeout := t, op_mid := m, op_token := k\<rparr>)"
| repeated: "op_state op \<in> {EXO_REQUEST_PENDING, EXO_REQUEST_SUBSCRIBED} \<Longrightarrow> op_type op \<noteq> EXO_SUBSCRIBE \<Longrightarrow>
    op_retries op < COAP_MAX_RETRANSMIT \<Longrightarrow>
    pass_step ok now op (op\<lparr>op_retries := op_retries op + 1, op_timeout := t\<rparr>)"
| given_up: "op_state op \<in> {EXO_REQUEST_PENDING, EXO_REQUEST_SUBSCRIBED} \<Longrightarrow> op_type op \<noteq> EXO_SUBSCRIBE \<Longrightarrow>
    pass_step ok now op (op\<lparr>op_state := EXO_REQUEST_ERROR\<rparr>)"
| renewed: "op_state op \<in> {EXO_REQUEST_PENDING, EXO_REQUEST_SUBSCRIBED} \<Longrightarrow> op_type op = EXO_SUBSCRIBE \<Longrightarrow>
    pass_step ok now op (op\<lparr>op_state := EXO_REQUEST_NEW\<rparr>)"
| acknowledged: "op_state op \<in> {EXO_REQUEST_SUB_ACK, EXO_REQUEST_SUB_ACK_NEW} \<Longrightarrow>
    pass_step ok now op (op\<lparr>op_state := st\<rparr>)"

definition sends_all :: "'w plat \<Rightarrow> bool" where
  "sends_all P \<longleftrightarrow> (\<forall>bs w. fst (exopal_udp_send P bs w) = 0)"

definition passed :: "'w plat \<Rightarrow> u64 \<Rightarrow> nat \<Rightarrow> 'w exo \<Rightarrow> coap_pdu \<times> 'w exo \<Rightarrow> bool" where
  "passed P now i s = (\<lambda>(_, s'). \<exists>op'. x_ops s' = (x_ops s)[i := op'] \<and> pass_step (sends_all P) now (x_ops s ! i) op')"

lemma passed_update:
  "pass_step (sends_all P) now (x_ops s ! i) op' \<Longrightarrow> passed P now i s (pdu, s1\<lparr>x_ops := (x_ops s)[i := op']\<rparr>)"
  by (auto simp: passed_def)

lemma passed_same: "x_ops s' = x_ops s \<Longrightarrow> pass_step (sends_all P) now (x_ops s ! i) (x_ops s ! i) \<Longrightarrow> passed P now i s (pdu, s')"
  by (auto simp: passed_def intro!: exI [of _ "x_ops s ! i"])

lemma if_returns_sent:
  assumes "\<And>rc s'. x_ops s' = x_ops s \<Longrightarrow> (rc \<noteq> 0 \<Longrightarrow> \<not> sends_all P) \<Longrightarrow> Q (rc, s')"
  shows "if_returns (send_pdu P pdu s) Q"
  by (auto simp: send_pdu_def sends_all_def split_beta Let_def intro!: if_returnsI assms)

lemmas pass_intros = if_returnsI if_returns_sent if_returns_build_for

lemma send_new_passed:
  assumes "op_state (x_ops s ! i) = EXO_REQUEST_NEW"
  shows "if_returns (send_new P i (x_ops s ! i) pdu s) (passed P now i s)"
  unfolding send_new_def
  by (auto simp: split_beta Let_def null_type_again
      intro!: pass_intros passed_update pass_step.sent [OF assms] intro: passed_same pass_step.untyped pass_step.refused)

lemma retransmit_passed:
  assumes "op_state (x_ops s ! i) \<in> {EXO_REQUEST_PENDING, EXO_REQUEST_SUBSCRIBED}" "op_type (x_ops s ! i) \<noteq> EXO_SUBSCRIBE"
    "op_retries (x_ops s ! i) < COAP_MAX_RETRANSMIT"
  shows "if_returns (retransmit P i (x_ops s ! i) pdu s) (passed P now i s)"
  unfolding retransmit_def
  by (auto simp: split_beta Let_def
      intro!: pass_intros passed_update pass_step.repeated [OF assms] intro: passed_same pass_step.refused)

lemma check_timeout_passed:
  assumes "op_state (x_ops s ! i) \<in> {EXO_REQUEST_PENDING, EXO_REQUEST_SUBSCRIBED}"
  shows "if_returns (check_timeout P now i (x_ops s ! i) pdu s) (passed P now i s)"
proof (cases "op_timeout (x_ops s ! i) \<le> now")
  case True
  then show ?thesis
    using retransmit_passed [OF assms, of P pdu now]
    by (cases "op_type (x_ops s ! i)")
      (auto simp: check_timeout_def set_state_def
        intro!: passed_update pass_step.given_up [OF assms] pass_step.renewed [OF assms] intro: passed_same pass_step.untyped)
next
  case False
  then show ?thesis
    using assms by (auto simp: check_timeout_def intro!: passed_same pass_step.early)
qed

lemma send_ack_passed:
  assumes "op_state (x_ops s ! i) \<in> {EXO_REQUEST_SUB_ACK, EXO_REQUEST_SUB_ACK_NEW}"
  shows "if_returns (send_ack P i (x_ops s ! i) pdu s) (passed P now i s)"
  unfolding send_ack_def set_state_def
  by (auto simp: split_beta
      intro!: pass_intros passed_update pass_step.acknowledged [OF assms] intro: passed_same pass_step.refused)

lemma active_op_passed: "if_returns (active_op P now i pdu s) (passed P now i s)"
  using send_new_passed [of s i P pdu now] check_timeout_passed [of s i P now pdu] send_ack_passed [of s i P pdu now]
  by (auto simp: active_op_def at_rest_def split: exo_request_state.split intro!: passed_same pass_step.resting)


section \<open>A whole pass\<close>

text \<open>Every operation in the range takes one step, the others none.\<close>

lemma active_loop_passed:
  "if_returns (active_loop P now i n pdu s) (\<lambda>s'. length (x_ops s') = length (x_ops s) \<and>
     (\<forall>j < length (x_ops s).
        if i \<le> j \<and> j < i + n then pass_step (sends_all P) now (x_ops s ! j) (x_ops s' ! j)
        else x_ops s' ! j = x_ops s ! j))"
proof (induction n arbitrary: i pdu s)
  case (Suc n)
  show ?case
  proof (rule if_returnsI)
    fix s' assume "active_loop P now i (Suc n) pdu s = Some s'"
    then obtain q s1 where s1: "active_op P now i pdu s = Some (q, s1)" "active_loop P now (Suc i) n q s1 = Some s'"
      by (auto simp: bind_eq_Some_conv)
    obtain op' where op': "x_ops s1 = (x_ops s)[i := op']" "pass_step (sends_all P) now (x_ops s ! i) op'"
      using if_returnsD [OF active_op_passed s1(1)] by (auto simp: passed_def)
    with if_returnsD [OF Suc.IH s1(2)] show "length (x_ops s') = length (x_ops s) \<and>
        (\<forall>j < length (x_ops s).
           if i \<le> j \<and> j < i + Suc n then pass_step (sends_all P) now (x_ops s ! j) (x_ops s' ! j)
           else x_ops s' ! j = x_ops s ! j)"
      by (auto simp: nth_list_update split: if_splits) (metis Suc_leI le_neq_implies_less add_Suc_right)+
  qed
qed auto


section \<open>A call without datagrams\<close>

interpretation device: pass_rel P "\<lambda>s s'. lib_device (x_lib s') = lib_device (x_lib s)" for P
proof unfold_locales
  show "if_returns (active_op P now i pdu s) (\<lambda>(pdu', s'). lib_device (x_lib s') = lib_device (x_lib s))" for now i pdu s
    by (rule if_returns_mono [OF active_op_mem]) (auto simp: next_mid_def)
qed simp_all

text \<open>An activation replaces operation 0 only.\<close>

lemma need_activation_frame:
  "if_returns (need_activation P s) (\<lambda>s'. x_lib s' = x_lib s \<and> length (x_ops s') = length (x_ops s) \<and>
     (\<forall>i \<noteq> 0. x_ops s' ! i = x_ops s ! i))"
  by (auto simp: need_activation_def upd_op_def split_beta Let_def intro!: if_returnsI)

context datagram_pal
begin

lemma need_activation_quiet: "if_returns (need_activation P s) (\<lambda>s'. inq (x_world s') = inq (x_world s))"
  using net_of_calls(1) [of s] by (auto simp: need_activation_def upd_op_def split_beta Let_def intro!: if_returnsI)

end

text \<open>An order on worlds that no call of the platform goes against.\<close>

locale world_order = datagram_pal +
  fixes before :: "'a \<Rightarrow> 'a \<Rightarrow> bool"
  assumes before_refl: "before w w"
    and before_trans: "before w w1 \<Longrightarrow> before w1 w2 \<Longrightarrow> before w w2"
    and recv_before: "exopal_udp_recv P buf (length buf) rlen w = (rc, buf', rlen', w') \<Longrightarrow> before w w'"
    and send_before: "before w (snd (exopal_udp_send P bs w))"
    and time_before: "before w (snd (exopal_get_time P w))"
    and rand_before: "before w (snd (libc_rand P w))"
begin

abbreviation later :: "'a exo \<Rightarrow> 'a exo \<Rightarrow> bool" where
  "later s s' \<equiv> before (x_world s) (x_world s')"

lemma later_calls: "later s (snd (now_of P s))" "later s (snd (rand_of P s))"
  using time_before [of "x_world s"] rand_before [of "x_world s"] by (simp_all add: now_of_def rand_of_def split_beta Let_def)

lemma later_steps:
  "later s s1 \<Longrightarrow> later s (snd (now_of P s1))" "later s s1 \<Longrightarrow> later s (snd (rand_of P s1))"
  by (blast intro: before_trans later_calls)+

lemma sending_later:
  "send_pdu P pdu s = Some (rc, s') \<Longrightarrow> later s s'" "build_for P b pdu s = Some (q, s') \<Longrightarrow> later s s'"
  using send_before later_calls
  by (auto simp: send_pdu_def build_for_def bind_eq_Some_conv split_beta Let_def)

lemma built_and_sent_later:
  "build_for P b pdu s = Some (q, s1) \<Longrightarrow> send_pdu P q' s1 = Some (rc, s2) \<Longrightarrow> later s s2"
  by (rule before_trans [OF sending_later(2) sending_later(1)])

lemma send_new_later: "if_returns (send_new P i op pdu s) (\<lambda>(pdu', s'). later s s')"
  unfolding send_new_def
  by (auto simp: split_beta Let_def before_refl intro!: if_returnsI later_steps dest: built_and_sent_later)

lemma retransmit_later: "if_returns (retransmit P i op pdu s) (\<lambda>(pdu', s'). later s s')"
  unfolding retransmit_def
  by (auto simp: split_beta Let_def intro!: if_returnsI later_steps dest: built_and_sent_later)

lemma send_ack_later: "if_returns (send_ack P i op pdu s) (\<lambda>(pdu', s'). later s s')"
  unfolding send_ack_def by (auto simp: split_beta Let_def intro!: if_returnsI dest: sending_later(1))

lemma active_op_later: "if_returns (active_op P now i pdu s) (\<lambda>(pdu', s'). later s s')"
  using send_new_later retransmit_later send_ack_later
  by (auto simp: active_op_def check_timeout_def before_refl split: exo_request_state.split)

lemma active_loop_later: "if_returns (active_loop P now i n pdu s) (later s)"
proof (induction n arbitrary: i pdu s)
  case (Suc n)
  show ?case
    by (auto intro!: if_returnsI dest!: if_returnsD [OF Suc.IH] if_returnsD [OF active_op_later] intro: before_trans)
qed (simp add: before_refl)

lemma need_activation_later: "if_returns (need_activation P s) (later s)"
  unfolding need_activation_def by (auto simp: split_beta Let_def before_refl later_calls)

lemma recv_later:
  assumes "pdu_ok pdu" "inq (x_world s) = []"
  obtains w where "recv_loop P count pdu s = Some (s\<lparr>x_world := w\<rparr>)" "inq w = []" "before (x_world s) w"
  by (rule recv_loop_empty [OF assms, of count]) (use that recv_before in blast)

text \<open>
  The parts of a call: the activation if it is needed, a receive that finds nothing, the clock, and a step of every operation.
\<close>

lemma silent_operate:
  assumes "exo_operate P count s = Some (r, s')" "inq (x_world s) = []" "lib_device (x_lib s) \<noteq> EXO_STATE_UNINITIALIZED"
  obtains s1 w where
    "(if lib_device (x_lib s) = EXO_STATE_GOOD then Some s else need_activation P s) = Some s1"
    "before (x_world s) w" "before (snd (exopal_get_time P w)) (x_world s')"
    "lib_device (x_lib s') = lib_device (x_lib s1)" "length (x_ops s') = length (x_ops s1)"
    "r = ops_state (unat count) (x_ops s')"
    "\<And>j. j < unat count \<Longrightarrow> j < length (x_ops s1) \<Longrightarrow>
       pass_step (sends_all P) (fst (exopal_get_time P w)) (x_ops s1 ! j) (x_ops s' ! j)"
    "\<And>j. unat count \<le> j \<Longrightarrow> j < length (x_ops s1) \<Longrightarrow> x_ops s' ! j = x_ops s1 ! j"
proof -
  obtain s1 s2 where s1: "(if lib_device (x_lib s) = EXO_STATE_GOOD then Some s else need_activation P s) = Some s1"
    "recv_loop P (unat count) (local_pdu P s1) s1 = Some s2" "exo_process_active_ops P (unat count) s2 = Some s'"
    "r = ops_state (unat count) (x_ops s')"
    using assms(1,3) by (auto simp: exo_operate_def exo_process_waiting_datagrams_def bind_eq_Some_conv)
  have "inq (x_world s1) = []"
    using s1(1) assms(2) if_returnsD [OF need_activation_quiet, of s s1] by (auto split: if_splits)
  with local_pdu_ok [of s1] obtain w where w: "s2 = s1\<lparr>x_world := w\<rparr>" "before (x_world s1) w"
    using s1(2) by (metis recv_later option.inject)
  have "before (x_world s) (x_world s1)"
    using s1(1) if_returnsD [OF need_activation_later, of s s1] before_refl by (auto split: if_splits)
  then have "before (x_world s) w" using w(2) by (rule before_trans)
  let ?t = "exopal_get_time P w" and ?s3 = "s1\<lparr>x_world := snd (exopal_get_time P w)\<rparr>"
  have loop: "active_loop P (fst ?t) 0 (unat count) (local_pdu P ?s3) ?s3 = Some s'"
    using s1(3) by (simp add: w(1) exo_process_active_ops_def now_of_def split_beta Let_def)
  show thesis
    using that [OF s1(1) \<open>before (x_world s) w\<close> _ _ _ s1(4)] if_returnsD [OF active_loop_later loop]
      if_returnsD [OF device.active_loop_rel loop] if_returnsD [OF active_loop_passed loop]
    by (auto split: if_splits)
qed

end


section \<open>A subscription that is never answered\<close>

context datagram_pal
begin

lemma calls_keep_queue:
  "inq (snd (exopal_udp_send P bs w)) = inq w" "inq (snd (exopal_get_time P w)) = inq w" "inq (snd (libc_rand P w)) = inq w"
  using send_law [OF prod.collapse [symmetric]] time_law [OF prod.collapse [symmetric]] rand_law [OF prod.collapse [symmetric]]
  by simp_all

end

sublocale datagram_pal \<subseteq> quiet: world_order P inq outq "\<lambda>w w'. inq w = [] \<longrightarrow> inq w' = []"
proof unfold_locales
  show "inq w = [] \<longrightarrow> inq w' = []" if "exopal_udp_recv P buf (length buf) rlen w = (rc, buf', rlen', w')" for buf rlen w rc buf' rlen' w'
    using queue_law [OF that] by auto
qed (simp_all add: calls_keep_queue)

definition sub_waiting :: "exo_op \<Rightarrow> bool" where
  "sub_waiting op \<longleftrightarrow> op_type op = EXO_SUBSCRIBE \<and> op_state op \<in> {EXO_REQUEST_NEW, EXO_REQUEST_PENDING}"

lemma pass_step_subscription: "pass_step ok now op op' \<Longrightarrow> sub_waiting op \<Longrightarrow> sub_waiting op'"
  by (induction rule: pass_step.induct) (auto simp: sub_waiting_def)

context datagram_pal
begin

lemma silence_lasts:
  assumes "exo_operate P count s = Some (r, s')" "inq (x_world s) = []"
  shows "inq (x_world s') = []"
proof (cases "lib_device (x_lib s) = EXO_STATE_UNINITIALIZED")
  case True
  with assms show ?thesis by (simp add: exo_operate_def)
next
  case False
  from quiet.silent_operate [OF assms False] show ?thesis
    using assms(2) by (metis calls_keep_queue(2))
qed

lemma unanswered_subscription:
  assumes "inq (x_world s) = []" "state_ok s" "i \<noteq> 0" "i < unat count" "unat count \<le> length (x_ops s)" "sub_waiting (x_ops s ! i)"
  shows "\<exists>rs s'. operate_calls P count n s = Some (rs, s') \<and> length rs = n \<and> EXO_IDLE \<notin> set rs \<and> sub_waiting (x_ops s' ! i)"
    and "until_idle P count s = None"
proof -
  let ?Q = "\<lambda>s. inq (x_world s) = [] \<and> state_ok s \<and> unat count \<le> length (x_ops s) \<and> sub_waiting (x_ops s ! i)"
  have start: "?Q s" using assms by simp
  have step: "\<exists>r s2. exo_operate P count s1 = Some (r, s2) \<and> r \<noteq> EXO_IDLE \<and> ?Q s2" if Q: "?Q s1" for s1
  proof -
    have i: "i < length (x_ops s1)" "x_ops s1 \<noteq> []" using Q assms(4) by auto
    obtain r s2 where call: "exo_operate P count s1 = Some (r, s2)" "state_ok s2"
      using operate_safe [of s1 count] Q i(2) by (auto elim: returnsE)
    have len: "length (x_ops s2) = length (x_ops s1)" using operate_steps [OF call(1)] by (simp add: all_steps_def)
    have sub: "sub_waiting (x_ops s2 ! i)"
    proof (cases "lib_device (x_lib s1) = EXO_STATE_UNINITIALIZED")
      case True
      with call(1) Q show ?thesis by (simp add: exo_operate_def)
    next
      case False
      have "inq (x_world s1) = []" using Q by simp
      then obtain s3 w where
        s3: "(if lib_device (x_lib s1) = EXO_STATE_GOOD then Some s1 else need_activation P s1) = Some s3"
        "length (x_ops s2) = length (x_ops s3)"
        and steps: "\<And>j. j < unat count \<Longrightarrow> j < length (x_ops s3) \<Longrightarrow>
          pass_step (sends_all P) (fst (exopal_get_time P w)) (x_ops s3 ! j) (x_ops s2 ! j)"
        using False by (rule quiet.silent_operate [OF call(1)]) blast
      moreover have "x_ops s3 ! i = x_ops s1 ! i"
        using s3(1) if_returnsD [OF need_activation_frame, of P s1 s3] assms(3) by (auto split: if_splits)
      ultimately show ?thesis using Q i(1) len pass_step_subscription [OF steps [OF assms(4)]] by simp
    qed
    have "x_ops s2 ! i \<in> set (take (unat count) (x_ops s2))"
      using i(1) len assms(4) by (auto simp: in_set_conv_nth intro!: exI [of _ i])
    then have "r \<noteq> EXO_IDLE" using until_idle_idle call(1) sub by (fastforce simp: sub_waiting_def)
    with call sub len Q silence_lasts [OF call(1)] show ?thesis by auto
  qed
  from never_idle(1) [where Q = ?Q, OF start step, where n = n]
  show "\<exists>rs s'. operate_calls P count n s = Some (rs, s') \<and> length rs = n \<and> EXO_IDLE \<notin> set rs \<and> sub_waiting (x_ops s' ! i)"
    by blast
  show "until_idle P count s = None" by (rule never_idle(2) [where Q = ?Q, OF start step])
qed

end


section \<open>Requests that are never answered\<close>

text \<open>
  A clock: it never goes back, a reading lies between its values before and after the call, and a clock
  that is read again and again passes every 64-bit time, whatever the platform does in between.
\<close>

locale clocked_pal = datagram_pal +
  fixes clock :: "'a \<Rightarrow> nat"
  assumes clock_recv: "exopal_udp_recv P buf (length buf) rlen w = (rc, buf', rlen', w') \<Longrightarrow> clock w \<le> clock w'"
    and clock_send: "clock w \<le> clock (snd (exopal_udp_send P bs w))"
    and clock_rand: "clock w \<le> clock (snd (libc_rand P w))"
    and clock_time: "exopal_get_time P w = (t, w') \<Longrightarrow> clock w \<le> unat t \<and> unat t \<le> clock w'"
    and clock_passes: "(\<And>n :: nat. clock (snd (exopal_get_time P (W n))) \<le> clock (W (Suc n))) \<Longrightarrow> T < 2 ^ 64 \<Longrightarrow>
      \<exists>n. T \<le> clock (W n)"

sublocale clocked_pal \<subseteq> timed: world_order P inq outq "\<lambda>w w'. clock w \<le> clock w'"
proof unfold_locales
  show "clock w \<le> clock (snd (exopal_get_time P w))" for w
    using clock_time [OF prod.collapse [symmetric], of w] by simp
qed (use clock_recv clock_send clock_rand in auto)

text \<open>A request that waits to be sent or answered, and how many steps it can still take.\<close>

definition req_waiting :: "exo_op \<Rightarrow> bool" where
  "req_waiting op \<longleftrightarrow> op_type op \<in> {EXO_READ, EXO_WRITE, EXO_ACTIVATE} \<and>
     op_state op \<in> {EXO_REQUEST_NEW, EXO_REQUEST_PENDING}"

definition tries :: "exo_op \<Rightarrow> nat" where
  "tries op = (case op_state op of EXO_REQUEST_NEW \<Rightarrow> 6 | EXO_REQUEST_PENDING \<Rightarrow> 5 - unat (op_retries op) | _ \<Rightarrow> 0)"

lemma waiting_not_at_rest: "req_waiting op \<Longrightarrow> \<not> at_rest op"
  by (auto simp: req_waiting_def at_rest_def)

lemma pass_step_request:
  assumes "pass_step True now op op'" "at_rest op \<or> req_waiting op" "op_retries op \<le> COAP_MAX_RETRANSMIT"
  shows "op' = op \<and> (at_rest op \<or> now < op_timeout op) \<or>
     req_waiting op \<and> tries op' < tries op \<and> (req_waiting op' \<or> op_state op' = EXO_REQUEST_ERROR)"
  using assms(1)
proof cases
  case (repeated t)
  have r: "unat (op_retries op) < 4"
    using repeated(4) by (simp add: COAP_MAX_RETRANSMIT_def word_less_nat_alt)
  then have "unat (op_retries op + 1) = unat (op_retries op) + 1"
    by (simp add: unat_word_ariths)
  moreover have w: "req_waiting op" "op_state op = EXO_REQUEST_PENDING"
    using repeated(2) assms(2) by (auto simp: at_rest_def req_waiting_def)
  then have "tries op' = 5 - unat (op_retries op + 1)" "tries op = 5 - unat (op_retries op)" "req_waiting op'"
    unfolding repeated(1) by (simp_all add: tries_def req_waiting_def)
  moreover from calculation have "tries op' < tries op" using r by linarith
  ultimately show ?thesis using w(1) by blast
next
  case given_up
  have "unat (op_retries op) \<le> 4"
    using assms(3) by (simp add: COAP_MAX_RETRANSMIT_def word_le_nat_alt)
  with given_up assms(2) show ?thesis by (auto simp: at_rest_def req_waiting_def tries_def)
qed (use assms(2) in \<open>auto simp: at_rest_def req_waiting_def tries_def\<close>)

definition total_tries :: "nat \<Rightarrow> exo_op list \<Rightarrow> nat" where
  "total_tries n ops = (\<Sum>j < n. tries (ops ! j))"

text \<open>What one call does to each operation when nothing arrives; \<open>now\<close> is a time at most that of the pass.\<close>

definition quiet_turn :: "nat \<Rightarrow> nat \<Rightarrow> exo_op list \<Rightarrow> exo_op list \<Rightarrow> bool" where
  "quiet_turn n now ops ops' \<longleftrightarrow> (\<forall>j < n.
     ops' ! j = ops ! j \<and> (at_rest (ops ! j) \<or> now < unat (op_timeout (ops ! j))) \<or>
     req_waiting (ops ! j) \<and> tries (ops' ! j) < tries (ops ! j) \<and>
       (req_waiting (ops' ! j) \<or> op_state (ops' ! j) = EXO_REQUEST_ERROR))"

lemma quiet_turn_tries:
  assumes "quiet_turn n now ops ops'"
  shows "total_tries n ops' \<le> total_tries n ops"
    "total_tries n ops \<le> total_tries n ops' \<Longrightarrow> j < n \<Longrightarrow>
       ops' ! j = ops ! j \<and> (at_rest (ops ! j) \<or> now < unat (op_timeout (ops ! j)))"
proof -
  have le: "\<forall>j \<in> {..<n}. tries (ops' ! j) \<le> tries (ops ! j)"
    using assms by (force simp: quiet_turn_def)
  then show "total_tries n ops' \<le> total_tries n ops"
    unfolding total_tries_def by (intro sum_mono) auto
  assume "total_tries n ops \<le> total_tries n ops'" "j < n"
  then have "\<not> tries (ops' ! j) < tries (ops ! j)"
    using sum_strict_mono_ex1 [OF _ le] by (force simp: total_tries_def)
  with assms \<open>j < n\<close> show "ops' ! j = ops ! j \<and> (at_rest (ops ! j) \<or> now < unat (op_timeout (ops ! j)))"
    by (auto simp: quiet_turn_def)
qed

lemma stands_still:
  assumes "\<And>k. quiet_turn n (now k) (ops k) (ops (Suc k))" "\<And>k. total_tries n (ops N) \<le> total_tries n (ops k)" "j < n"
  shows "ops (N + k) ! j = ops N ! j \<and> (at_rest (ops N ! j) \<or> now (N + k) < unat (op_timeout (ops N ! j)))"
proof -
  have le: "total_tries n (ops (N + k)) \<le> total_tries n (ops N)" for k
    by (induction k) (use quiet_turn_tries(1) [OF assms(1)] order_trans in \<open>auto\<close>)
  then have step: "ops (Suc (N + k)) ! j = ops (N + k) ! j \<and>
      (at_rest (ops (N + k) ! j) \<or> now (N + k) < unat (op_timeout (ops (N + k) ! j)))" for k
    using quiet_turn_tries(2) [OF assms(1) _ assms(3), of "N + k"] order_trans [OF le assms(2)] by blast
  have "ops (N + k) ! j = ops N ! j" for k
    by (induction k) (use step in auto)
  with step [of k] show ?thesis by simp
qed

text \<open>The states the loop runs through.\<close>

definition unanswered :: "('w \<Rightarrow> bytes list) \<Rightarrow> u8 \<Rightarrow> 'w exo \<Rightarrow> bool" where
  "unanswered inq count s \<longleftrightarrow> inq (x_world s) = [] \<and> state_ok s \<and> lib_device (x_lib s) = EXO_STATE_GOOD \<and>
     x_ops s \<noteq> [] \<and> unat count \<le> length (x_ops s) \<and>
     (\<forall>j < unat count. at_rest (x_ops s ! j) \<or> req_waiting (x_ops s ! j))"

context clocked_pal
begin

lemma unanswered_call:
  assumes "unanswered inq count s" "sends_all P"
  shows "\<exists>r s' w. exo_operate P count s = Some (r, s') \<and> unanswered inq count s' \<and>
     quiet_turn (unat count) (clock w) (x_ops s) (x_ops s') \<and> r = ops_state (unat count) (x_ops s') \<and>
     clock (x_world s) \<le> clock w \<and> clock (snd (exopal_get_time P w)) \<le> clock (x_world s')"
proof -
  have s: "inq (x_world s) = []" "state_ok s" "lib_device (x_lib s) = EXO_STATE_GOOD" "x_ops s \<noteq> []"
    "unat count \<le> length (x_ops s)" "\<And>j. j < unat count \<Longrightarrow> at_rest (x_ops s ! j) \<or> req_waiting (x_ops s ! j)"
    using assms(1) by (auto simp: unanswered_def)
  obtain r s' where call: "exo_operate P count s = Some (r, s')" "state_ok s'"
    using operate_safe [OF s(2,4,5)] s(1) by (auto elim: returnsE)
  obtain w s1 where w: "clock (x_world s) \<le> clock w" "clock (snd (exopal_get_time P w)) \<le> clock (x_world s')"
    and s1: "s1 = s" "lib_device (x_lib s') = lib_device (x_lib s1)" "length (x_ops s') = length (x_ops s1)"
      "r = ops_state (unat count) (x_ops s')"
    and steps: "\<And>j. j < unat count \<Longrightarrow> j < length (x_ops s1) \<Longrightarrow>
      pass_step (sends_all P) (fst (exopal_get_time P w)) (x_ops s1 ! j) (x_ops s' ! j)"
    using timed.silent_operate [OF call(1) s(1)] s(3) by simp metis
  have ok: "sends_all P = True" using assms(2) by simp
  have "op_retries (x_ops s ! j) \<le> COAP_MAX_RETRANSMIT" if "j < unat count" for j
    using that s(2,5) by (auto simp: state_ok_def op_inv_def)
  then have step: "x_ops s' ! j = x_ops s ! j \<and> (at_rest (x_ops s ! j) \<or> fst (exopal_get_time P w) < op_timeout (x_ops s ! j)) \<or>
      req_waiting (x_ops s ! j) \<and> tries (x_ops s' ! j) < tries (x_ops s ! j) \<and>
        (req_waiting (x_ops s' ! j) \<or> op_state (x_ops s' ! j) = EXO_REQUEST_ERROR)" if "j < unat count" for j
    using that s(5,6) steps unfolding s1(1) ok by (intro pass_step_request) auto
  have "clock w \<le> unat (fst (exopal_get_time P w))"
    using clock_time [OF prod.collapse [symmetric], of w] by simp
  with step have "quiet_turn (unat count) (clock w) (x_ops s) (x_ops s')"
    by (fastforce simp: quiet_turn_def word_less_nat_alt)
  moreover have "unanswered inq count s'"
    using step s s1 call silence_lasts [OF call(1) s(1)] unfolding unanswered_def
    by (fastforce simp: at_rest_def)
  ultimately show ?thesis using call(1) w s1(4) by blast
qed

text \<open>
  If the loop never ended, the number of tries left would stand still at some point; from there on some request
  would wait for ever for the same time, which the clock passes.
\<close>

lemma unanswered_ends:
  assumes "unanswered inq count s" "sends_all P"
  shows "\<exists>s'. until_idle P count s = Some s'"
proof (rule ccontr)
  assume "\<nexists>s'. until_idle P count s = Some s'"
  then have none: "until_idle P count s = None" by simp
  let ?n = "unat count"
  define S where "S = (\<lambda>n. ((\<lambda>s. snd (the (exo_operate P count s))) ^^ n) s)"
  have S_Suc: "S (Suc n) = snd (the (exo_operate P count (S n)))" for n by (simp add: S_def)
  have S: "unanswered inq count (S n) \<and> until_idle P count (S n) = None" for n
  proof (induction n)
    case (Suc n)
    then obtain r s' where "exo_operate P count (S n) = Some (r, s')" "unanswered inq count s'"
      using unanswered_call assms(2) by blast
    with Suc show ?case by (subst (asm) until_idle.simps) (auto simp: S_Suc split: if_splits)
  qed (use assms(1) none in \<open>simp add: S_def\<close>)
  have "\<exists>w. quiet_turn ?n (clock w) (x_ops (S n)) (x_ops (S (Suc n))) \<and> ops_state ?n (x_ops (S (Suc n))) \<noteq> EXO_IDLE \<and>
      clock (x_world (S n)) \<le> clock w \<and> clock (snd (exopal_get_time P w)) \<le> clock (x_world (S (Suc n)))" for n
  proof -
    obtain r s' w where call: "exo_operate P count (S n) = Some (r, s')" "r = ops_state ?n (x_ops s')"
      "quiet_turn ?n (clock w) (x_ops (S n)) (x_ops s')" "clock (x_world (S n)) \<le> clock w"
      "clock (snd (exopal_get_time P w)) \<le> clock (x_world s')"
      using unanswered_call [OF _ assms(2)] S by blast
    moreover have "r \<noteq> EXO_IDLE"
      using S [of n] call(1) by (subst (asm) until_idle.simps) auto
    ultimately show ?thesis by (auto simp: S_Suc)
  qed
  then obtain W where W: "quiet_turn ?n (clock (W n)) (x_ops (S n)) (x_ops (S (Suc n)))"
    "ops_state ?n (x_ops (S (Suc n))) \<noteq> EXO_IDLE" "clock (x_world (S n)) \<le> clock (W n)"
    "clock (snd (exopal_get_time P (W n))) \<le> clock (x_world (S (Suc n)))" for n
    by metis
  obtain N where N: "total_tries ?n (x_ops (S N)) \<le> total_tries ?n (x_ops (S n))" for n
    using ex_has_least_nat [of "\<lambda>_. True" 0 "\<lambda>n. total_tries ?n (x_ops (S n))"] by blast
  have still: "x_ops (S (N + n)) ! j = x_ops (S N) ! j \<and>
      (at_rest (x_ops (S N) ! j) \<or> clock (W (N + n)) < unat (op_timeout (x_ops (S N) ! j)))" if "j < ?n" for n j
    using stands_still [OF W(1) N that] by simp
  obtain j where j: "j < ?n" "\<not> at_rest (x_ops (S N) ! j)"
    using W(2) [of N] still [of _ 1] by (auto simp: ops_state_def at_rest_def in_set_conv_nth split: if_splits)
  have "clock (snd (exopal_get_time P (W (N + n)))) \<le> clock (W (N + Suc n))" for n
    using order_trans [OF W(4) [of "N + n"] W(3)] by simp
  from clock_passes [of "\<lambda>n. W (N + n)", OF this, of "unat (op_timeout (x_ops (S N) ! j))"] obtain n where
    "unat (op_timeout (x_ops (S N) ! j)) \<le> clock (W (N + n))"
    using unsigned_less [of "op_timeout (x_ops (S N) ! j)"] by auto
  with still [OF j(1), of n] j(2) show False by simp
qed

lemma unanswered_result:
  assumes "unanswered inq count s" "sends_all P"
  shows "\<exists>s'. until_idle P count s = Some s' \<and> (\<forall>j < unat count.
     if at_rest (x_ops s ! j) then x_ops s' ! j = x_ops s ! j else op_state (x_ops s' ! j) = EXO_REQUEST_ERROR)"
proof -
  obtain s' where s': "until_idle P count s = Some s'" using unanswered_ends [OF assms] by blast
  let ?K = "\<lambda>s1. \<forall>j < unat count. if at_rest (x_ops s ! j) then x_ops s1 ! j = x_ops s ! j
      else req_waiting (x_ops s1 ! j) \<or> op_state (x_ops s1 ! j) = EXO_REQUEST_ERROR"
  have K: "?K s2" if "quiet_turn (unat count) now (x_ops s1) (x_ops s2)" "?K s1" for now s1 s2
  proof (intro allI impI)
    fix j assume "j < unat count"
    then have "x_ops s2 ! j = x_ops s1 ! j \<or> req_waiting (x_ops s1 ! j) \<and>
        (req_waiting (x_ops s2 ! j) \<or> op_state (x_ops s2 ! j) = EXO_REQUEST_ERROR)"
      and "if at_rest (x_ops s ! j) then x_ops s1 ! j = x_ops s ! j
        else req_waiting (x_ops s1 ! j) \<or> op_state (x_ops s1 ! j) = EXO_REQUEST_ERROR"
      using that by (auto simp: quiet_turn_def)
    then show "if at_rest (x_ops s ! j) then x_ops s2 ! j = x_ops s ! j
        else req_waiting (x_ops s2 ! j) \<or> op_state (x_ops s2 ! j) = EXO_REQUEST_ERROR"
      using waiting_not_at_rest [of "x_ops s1 ! j"] by (auto split: if_splits)
  qed
  have start: "?K s" using assms(1) by (auto simp: unanswered_def)
  have step: "unanswered inq count s2 \<and> ?K s2"
    if "exo_operate P count s1 = Some (r, s2)" "unanswered inq count s1 \<and> ?K s1" for r s1 s2
    using that K unanswered_call [of count s1, OF _ assms(2)] by fastforce
  obtain s1 where fin: "exo_operate P count s1 = Some (EXO_IDLE, s')" "unanswered inq count s'" "?K s'"
    using until_idle_result [where Q = "\<lambda>s. unanswered inq count s \<and> ?K s", OF s' conjI [OF assms(1) start]] step by blast
  have "\<not> req_waiting (x_ops s' ! j)" if "j < unat count" for j
    using until_idle_idle [OF fin(1), of "x_ops s' ! j"] fin(2) that
    by (force simp: unanswered_def req_waiting_def in_set_conv_nth)
  with s' fin(3) show ?thesis by auto
qed

end


section \<open>A system whose clock goes on\<close>

text \<open>The scripted system with a clock that is a second further at every reading, up to the last 64-bit time.\<close>

abbreviation last_time :: nat where
  "last_time \<equiv> 2 ^ 64 - 1"

definition tick_os :: "(unit, net) posix" where
  "tick_os = script_os\<lparr>sys_gettimeofday := \<lambda>w.
     let t = min (net_clock w + 1000000) last_time in (t div 1000000, t mod 1000000, w\<lparr>net_clock := t\<rparr>)\<rparr>"

definition tick_clock :: "net pal_state \<Rightarrow> nat" where
  "tick_clock w = min (net_clock (sys w)) last_time"

lemma tick_time:
  "exopal_get_time (posix_pal tick_os) w =
     (let t = min (net_clock (sys w) + 1000000) last_time in (of_nat t, w\<lparr>sys := (sys w)\<lparr>net_clock := t\<rparr>\<rparr>))"
proof -
  have "(of_nat (t div 1000000) * 1000000 + of_nat (t mod 1000000) :: u64) = of_nat t" for t :: nat
    by (metis (mono_tags, lifting) div_mult_mod_eq of_nat_add of_nat_mult of_nat_numeral)
  then show ?thesis
    by (simp add: posix_pal_def posix_get_time_def tick_os_def Let_def)
qed

interpretation tick: clocked_pal "posix_pal tick_os" "\<lambda>s. net_in (sys s)" "\<lambda>s. net_out (sys s)" tick_clock
proof unfold_locales
  fix W T
  assume W: "\<And>n :: nat. tick_clock (snd (exopal_get_time (posix_pal tick_os) (W n))) \<le> tick_clock (W (Suc n))"
    and T: "T < (2 :: nat) ^ 64"
  have "min n last_time \<le> tick_clock (W n)" for n
  proof (induction n)
    case (Suc n)
    then show ?case using W [of n] by (simp add: tick_time tick_clock_def Let_def)
  qed (simp add: tick_clock_def)
  from this [of T] T show "\<exists>n. T \<le> tick_clock (W n)" by (auto simp: min_def split: if_splits)
next
  fix w t w' assume "exopal_get_time (posix_pal tick_os) w = (t, w')"
  moreover have "unat (of_nat (min n last_time) :: u64) = min n last_time" for n
    by (simp add: unsigned_of_nat take_bit_nat_eq_self)
  ultimately show "tick_clock w \<le> unat t \<and> unat t \<le> tick_clock w'"
    by (auto simp: tick_time Let_def tick_clock_def)
qed (auto simp: posix_pal_def tick_os_def script_os_def tick_clock_def posix_udp_recv_def posix_udp_send_def posix_get_time_def
    posix_store_cik_def Let_def EAGAIN_def min_def MINIMUM_DATAGRAM_SIZE_def split: list.splits if_splits prod.splits)

end
