(* ===== verification/Exo_Restart.thy ===== *)
theory Exo_Restart
  imports Exo_Silence
begin

text \<open>
  Getting a CIK and keeping it: the answer to an activation in a call of \<open>exo_operate\<close>, the storage of the CIK by the
  platform, and \<open>exo_init\<close> after a restart.
\<close>

section \<open>The storage of the CIK\<close>

text \<open>
  What \<^verbatim>\<open>exosite_pal.h\<close> promises of \<open>exopal_store_cik\<close> and \<open>exopal_retrieve_cik\<close>: \<open>stored\<close> is the CIK the platform has saved,
  if any. A store that reports success saves the 40 bytes, a later retrieve gives them back, and no other call of the
  library changes what is saved.
\<close>

locale cik_pal = datagram_pal P inq outq for P :: "'w plat" and inq outq +
  fixes stored :: "'w \<Rightarrow> bytes option"
  assumes save_law: "exopal_store_cik P cik w = (0, w') \<Longrightarrow> CIK_LENGTH \<le> length cik \<Longrightarrow> stored w' = Some (take CIK_LENGTH cik)"
    and load_law: "stored w = Some f \<Longrightarrow> length f = CIK_LENGTH \<Longrightarrow>
      \<exists>w'. exopal_retrieve_cik P buf w = (0, f @ drop CIK_LENGTH buf, w')"
    and init_keeps: "stored (snd (exopal_init P w)) = stored w"
    and srand_keeps: "stored (libc_srand P w) = stored w"
    and rand_keeps: "stored (snd (libc_rand P w)) = stored w"
    and time_keeps: "stored (snd (exopal_get_time P w)) = stored w"
    and send_keeps: "stored (snd (exopal_udp_send P bs w)) = stored w"
    and recv_keeps: "exopal_udp_recv P buf (length buf) rlen w = (rc, buf', rlen', w') \<Longrightarrow> stored w' = stored w"

sublocale cik_pal \<subseteq> disk: world_order P inq outq "\<lambda>w w'. stored w' = stored w"
  by unfold_locales (use recv_keeps send_keeps time_keeps rand_keeps in auto)

context cik_pal
begin

lemma init_loads:
  assumes "stored (x_world s) = Some cik" "length cik = CIK_LENGTH" "length (lib_cik (x_lib s)) = CIK_LENGTH + 1"
    "\<And>w. fst (exopal_init P w) = 0" "\<And>w. fst (exopal_udp_sock P w) = 0"
  shows "\<exists>s'. exo_init P vendor model serial s = Some (EXO_OK, s') \<and> lib_cik (x_lib s') = cik @ [0] \<and>
     lib_device (x_lib s') = EXO_STATE_INITIALIZED \<and>
     lib_vendor (x_lib s') = vendor \<and> lib_model (x_lib s') = model \<and> lib_serial (x_lib s') = serial"
proof -
  let ?w = "snd (libc_rand P (libc_srand P (snd (exopal_init P (x_world s)))))"
  have "stored ?w = Some cik" using assms(1) by (simp add: rand_keeps srand_keeps init_keeps)
  from load_law [OF this assms(2)] obtain w' where
    r: "exopal_retrieve_cik P (lib_cik (x_lib s)) ?w = (0, cik @ drop CIK_LENGTH (lib_cik (x_lib s)), w')" by blast
  have "length (drop CIK_LENGTH (lib_cik (x_lib s))) = Suc 0" using assms(3) by simp
  then obtain x where "drop CIK_LENGTH (lib_cik (x_lib s)) = [x]" by (auto simp only: length_Suc_conv length_0_conv)
  moreover have "wr (cik @ [x]) 40 0 = Some (cik @ [0])"
    using wr_append [of cik x "[]" 0] assms(2) by (simp add: CIK_LENGTH_def)
  ultimately show ?thesis
    using assms(4,5) r by (simp add: exo_init_def rand_of_def split_beta Let_def)
qed

end

text \<open>The POSIX layer keeps that contract on a system whose other calls leave the file \<^verbatim>\<open>cik\<close> alone.\<close>

locale posix_disk = posix_file os stored + datagram_pal "posix_pal os" inq outq
  for os :: "('a, 'w) posix" and stored and inq outq +
  assumes sys_keeps: "stored (snd (sys_send os fd bs w)) = stored w" "stored (snd (snd (sys_recv os fd n w))) = stored w"
      "stored (snd (snd (sys_gettimeofday os w))) = stored w" "stored (sys_srand os w) = stored w"
      "stored (snd (sys_rand os w)) = stored w"

sublocale posix_disk \<subseteq> cik_pal "posix_pal os" inq outq "\<lambda>s. stored (sys s)"
proof unfold_locales
  fix cik and w w' :: "'w pal_state"
  assume "exopal_store_cik (posix_pal os) cik w = (0, w')" "CIK_LENGTH \<le> length cik"
  then show "stored (sys w') = Some (take CIK_LENGTH cik)"
    using store_writes [of cik w w'] by (simp add: posix_pal_def CIK_LENGTH_def)
next
  fix w :: "'w pal_state" and f buf
  assume "stored (sys w) = Some f" "length f = CIK_LENGTH"
  then show "\<exists>w'. exopal_retrieve_cik (posix_pal os) buf w = (0, f @ drop CIK_LENGTH buf, w')"
    using retrieve_stored [of w f buf] by (auto simp: posix_pal_def CIK_LENGTH_def)
next
  fix w w' :: "'w pal_state" and buf buf' rc rlen rlen'
  assume "exopal_udp_recv (posix_pal os) buf (length buf) rlen w = (rc, buf', rlen', w')"
  then show "stored (sys w') = stored (sys w)"
    using sys_keeps(2) [of "exosock w" "length buf" "sys w"]
    by (auto simp: posix_pal_def posix_udp_recv_def split_beta Let_def split: if_splits)
qed (simp_all add: posix_pal_def posix_init_def posix_get_time_def posix_udp_send_def sys_keeps split_beta Let_def)

interpretation script_disk: posix_disk script_os net_file "\<lambda>s. net_in (sys s)" "\<lambda>s. net_out (sys s)"
  by unfold_locales (auto simp: script_os_def split: list.splits)

section \<open>The answer to an activation\<close>

text \<open>The pass over the operations keeps the CIK and the state of the device, and leaves a free operation alone.\<close>

interpretation identity: pass_rel P "\<lambda>s s'. lib_cik (x_lib s') = lib_cik (x_lib s) \<and> lib_device (x_lib s') = lib_device (x_lib s)" for P
proof unfold_locales
  show "if_returns (active_op P now i pdu s) (\<lambda>(pdu', s').
      lib_cik (x_lib s') = lib_cik (x_lib s) \<and> lib_device (x_lib s') = lib_device (x_lib s))" for now i pdu s
    by (rule if_returns_mono [OF active_op_mem]) (auto simp: next_mid_def)
qed simp_all

lemma pass_step_rest: "pass_step ok now op op' \<Longrightarrow> at_rest op \<Longrightarrow> op' = op"
  by (induction rule: pass_step.induct) (auto simp: at_rest_def)

text \<open>
  \<open>m\<close> is the answer to the pending activation in operation 0, with the CIK \<open>cik\<close>.
\<close>

definition activation_answer :: "'w exo \<Rightarrow> coap_msg \<Rightarrow> bytes \<Rightarrow> bool" where
  "activation_answer s m cik \<longleftrightarrow> x_ops s \<noteq> [] \<and> op_type (x_ops s ! 0) = EXO_ACTIVATE \<and>
     wf_msg m \<and> length (encode_msg m) \<le> MINIMUM_DATAGRAM_SIZE \<and> m_type m = CT_ACK \<and> drop_bit 5 (m_code m) = 2 \<and>
     waits_for m (x_ops s ! 0) \<and> m_payload m = Some cik \<and> length cik = CIK_LENGTH"

definition activated :: "'w plat \<Rightarrow> bytes \<Rightarrow> 'w exo \<Rightarrow> 'w \<Rightarrow> 'w exo" where
  "activated P cik s w = s\<lparr>x_lib := (x_lib s)\<lparr>lib_cik := cik @ [0], lib_device := EXO_STATE_GOOD\<rparr>,
     x_world := snd (exopal_store_cik P (cik @ [0]) w), x_ops := (x_ops s)[0 := exo_op_init (x_ops s ! 0)]\<rparr>"

lemma activation_matched:
  assumes "activation_answer s m cik" "represents v m" "0 < count" "length (lib_cik (x_lib s)) = CIK_LENGTH + 1"
  shows "match_ops P v 0 count (s\<lparr>x_world := w\<rparr>) = Some (True, activated P cik s w)"
proof -
  have m: "0 < length (x_ops s)" "op_type (x_ops s ! 0) = EXO_ACTIVATE" "m_type m = CT_ACK" "drop_bit 5 (m_code m) = 2"
    "waits_for m (x_ops s ! 0)" "m_payload m = Some cik" "length cik = CIK_LENGTH"
    using assms(1) by (auto simp: activation_answer_def)
  have "match_ops P v 0 count (s\<lparr>x_world := w\<rparr>) = match_op P v 0 (s\<lparr>x_world := w\<rparr>)"
    using m assms(3) by (intro match_ops_first [OF assms(2)]) auto
  then show ?thesis
    using ack_activate [OF assms(2) m(3,4), of 0 "s\<lparr>x_world := w\<rparr>" cik P] m assms(4) by (simp add: activated_def)
qed

lemma activated_ok:
  assumes "state_ok s" "length cik = CIK_LENGTH"
  shows "state_ok ((activated P cik s w)\<lparr>x_world := w'\<rparr>)"
proof -
  have "op_type (exo_op_init op) = EXO_NULL" for op by (simp add: exo_op_init_def)
  with assms show ?thesis
    by (auto simp: state_ok_def lib_ok_def activated_def op_inv_calls op_mem_def dest!: set_update_subset_insert [THEN subsetD])
qed

context cik_pal
begin

lemma activation_call:
  assumes "state_ok s" "lib_device (x_lib s) \<in> {EXO_STATE_INITIALIZED, EXO_STATE_BAD_CIK}" "0 < unat count"
    "unat count \<le> length (x_ops s)" "activation_answer s m cik" "inq (x_world s) = [encode_msg m]"
    "fst (now_of P s) \<le> op_timeout (x_ops s ! 0)" "\<And>bs w. CIK_LENGTH \<le> length bs \<Longrightarrow> fst (exopal_store_cik P bs w) = 0"
  shows "\<exists>r s'. exo_operate P count s = Some (r, s') \<and> lib_device (x_lib s') = EXO_STATE_GOOD \<and>
     lib_cik (x_lib s') = cik @ [0] \<and> stored (x_world s') = Some cik \<and> x_ops s' ! 0 = exo_op_init (x_ops s ! 0)"
proof -
  let ?s = "snd (now_of P s)"
  have ans: "x_ops s \<noteq> []" "op_state (x_ops s ! 0) = EXO_REQUEST_PENDING" "wf_msg m" "length cik = CIK_LENGTH"
    "length (encode_msg m) \<le> MINIMUM_DATAGRAM_SIZE" "length (lib_cik (x_lib s)) = CIK_LENGTH + 1"
    using assms(1,5) waits_ack(1) by (auto simp: activation_answer_def state_ok_def lib_ok_def)
  have need: "need_activation P s = Some ?s"
    using ans(1,2) assms(7) by (auto simp: need_activation_def get_op_def split_beta Let_def dest: leD)
  have ans': "activation_answer ?s m cik" "inq (x_world ?s) = [encode_msg m]" "state_ok ?s"
    using assms(1,5,6) net_of_calls(1) [of s] by (simp_all add: activation_answer_def state_ok_def)
  obtain w v where w: "inq w = []" "pdu_ok v"
    "recv_loop P (unat count) (local_pdu P ?s) ?s = recv_loop P (unat count) v (activated P cik ?s w)"
    by (rule message_handled [OF local_pdu_ok ans'(2) ans(3,5), of "unat count" "activated P cik ?s"])
      (use activation_matched [OF ans'(1) _ assms(3)] ans(6) in auto)
  let ?s1 = "activated P cik ?s w"
  have "inq (x_world ?s1) = []" "stored (x_world ?s1) = Some cik"
    using w(1) store_law [OF prod.collapse [symmetric], of "cik @ [0]" w]
      save_law [of "cik @ [0]" w "x_world ?s1"] assms(8) [of "cik @ [0]" w] ans(4)
    by (simp_all add: activated_def prod_eq_iff)
  with disk.recv_later [OF w(2), of ?s1 "unat count"] obtain w2 where
    w2: "recv_loop P (unat count) v ?s1 = Some (?s1\<lparr>x_world := w2\<rparr>)" "stored w2 = Some cik"
    by metis
  let ?s2 = "?s1\<lparr>x_world := w2\<rparr>"
  have "state_ok ?s2" using ans'(3) ans(4) by (rule activated_ok)
  then obtain s' where s': "exo_process_active_ops P (unat count) ?s2 = Some s'"
    using process_active_ops_sends [of "unat count" ?s2] assms(4) by (auto simp: activated_def elim!: returnsE)
  have run: "exo_operate P count s = Some (ops_state (unat count) (x_ops s'), s')"
    using assms(2) need w(3) w2(1) s' by (auto simp: exo_operate_def exo_process_waiting_datagrams_def)
  obtain now where loop: "active_loop P now 0 (unat count) (local_pdu P (snd (now_of P ?s2))) (snd (now_of P ?s2)) = Some s'"
    using s' by (simp add: exo_process_active_ops_def split_beta Let_def)
  have "stored (x_world s') = Some cik"
    using if_returnsD [OF disk.active_loop_later loop] disk.later_calls(1) [of ?s2] w2(2) by simp
  moreover have "x_ops s' ! 0 = exo_op_init (x_ops s ! 0)"
    using if_returnsD [OF active_loop_passed loop] assms(3) ans(1)
    by (auto simp: activated_def at_rest_def exo_op_init_def dest!: spec [of _ 0] pass_step_rest split: if_splits)
  moreover have "lib_cik (x_lib s') = cik @ [0]" "lib_device (x_lib s') = EXO_STATE_GOOD"
    using if_returnsD [OF identity.process_active_ops_rel s'] by (simp_all add: activated_def)
  ultimately show ?thesis using run by blast
qed

end

section \<open>The start of an activation\<close>

lemma length_activate: "length (encode_msg (activate_msg mid rnd v m n)) = length (encode_msg (activate_msg mid' rnd' v m n))"
  by (simp add: activate_msg_def request_def encode_msg_def)

context datagram_pal
begin

text \<open>A new activation in operation 0 is the first request a pass sends.\<close>

lemma pass_activates:
  assumes "state_ok s" "0 < count" "count \<le> length (x_ops s)" "op_state (x_ops s ! 0) = EXO_REQUEST_NEW"
    "op_type (x_ops s ! 0) = EXO_ACTIVATE" "str_at (x_heap s) (lib_vendor (x_lib s)) v"
    "str_at (x_heap s) (lib_model (x_lib s)) m" "str_at (x_heap s) (lib_serial (x_lib s)) n"
    "length (encode_msg (activate_msg 0 0 v m n)) \<le> MINIMUM_DATAGRAM_SIZE" "sends_all P"
  obtains s' rnd post where "exo_process_active_ops P count s = Some s'"
    "op_type (x_ops s' ! 0) = EXO_ACTIVATE" "op_state (x_ops s' ! 0) = EXO_REQUEST_PENDING"
    "op_retries (x_ops s' ! 0) = op_retries (x_ops s ! 0)"
    "outq (x_world s') = outq (x_world s) @ encode_msg (activate_msg (lib_mid (x_lib s)) rnd v m n) # post"
proof -
  let ?s = "snd (now_of P s)" and ?now = "fst (now_of P s)"
  let ?rnd = "fst (rand_of P ?s)" and ?op = "x_ops s ! 0"
  let ?req = "activate_msg (lib_mid (x_lib s)) ?rnd v m n"
  have ready: "pdu_ready (local_pdu P ?s)" "state_ok ?s" and i: "0 < length (x_ops ?s)"
    using local_pdu_ok [of ?s] pdu_ok_wf_mem assms(1-3) by (auto simp: pdu_ready_def pdu_ok_def state_ok_def)
  have "op_request (x_heap ?s) (x_lib ?s) ?rnd ?op = Some ?req" "CIK_LENGTH \<le> length (lib_cik (x_lib ?s))"
    using assms(1,5-8) by (simp_all add: op_request_def str_at_of state_ok_def lib_ok_def)
  moreover have "length (encode_msg ?req) \<le> MINIMUM_DATAGRAM_SIZE" using assms(9) length_activate by metis
  ultimately obtain q s1 t where s1: "active_op P ?now 0 (local_pdu P ?s) ?s = Some (q, s1)"
    "outq (x_world s1) = outq (x_world s) @ [encode_msg ?req]"
    "x_ops s1 = (x_ops s)[0 := ?op\<lparr>op_state := EXO_REQUEST_PENDING, op_timeout := t + 4000000,
                       op_mid := lib_mid (x_lib s), op_token := take_bit 16 ?rnd\<rparr>]"
    using new_request_exact [OF ready(1) i, of ?op ?rnd ?req ?now] assms(4,10) net_of_calls(1) [of s]
    by (auto simp: sends_all_def)
  have ok: "pdu_ready q" "state_ok s1" "Suc 0 + (count - 1) \<le> length (x_ops s1)"
    using active_op_sends [OF ready(1) i ready(2), of ?now] s1(1,3) evolves_state_ok [OF _ ready(2)] assms(2,3) by auto
  obtain s' ms where s': "active_loop P ?now (Suc 0) (count - 1) q s1 = Some s'"
    "outq (x_world s') = outq (x_world s1) @ map encode_msg ms"
    using active_loop_sends [OF ok(1,3,2), of ?now] by (auto simp: sends_def elim!: returnsE)
  have "x_ops s' ! 0 = x_ops s1 ! 0"
    using if_returnsD [OF active_loop_passed s'(1)] s1(3) i by auto
  moreover have "exo_process_active_ops P count s = Some s'"
    using s1(1) s'(1) assms(2) by (cases count) (simp_all add: exo_process_active_ops_def split_beta Let_def)
  ultimately show thesis
    using that [of s' ?rnd "map encode_msg ms"] s1(2,3) s'(2) i assms(5) by simp
qed

text \<open>
  On a device that is not activated, a call takes operation 0 for a new activation when it is free or its time is over, before the
  pass over the operations: so an activation that has timed out is sent as a new one, with a new message id, and its
  retransmissions are not counted.
\<close>

lemma call_activates:
  assumes "state_ok s" "lib_device (x_lib s) \<in> {EXO_STATE_INITIALIZED, EXO_STATE_BAD_CIK}" "0 < unat count"
    "unat count \<le> length (x_ops s)" "inq (x_world s) = []"
    "op_state (x_ops s ! 0) = EXO_REQUEST_NULL \<or> op_timeout (x_ops s ! 0) < fst (now_of P s)"
    "str_at (x_heap s) (lib_vendor (x_lib s)) v" "str_at (x_heap s) (lib_model (x_lib s)) m"
    "str_at (x_heap s) (lib_serial (x_lib s)) n"
    "length (encode_msg (activate_msg 0 0 v m n)) \<le> MINIMUM_DATAGRAM_SIZE" "sends_all P"
  shows "\<exists>r s' rnd post. exo_operate P count s = Some (r, s') \<and>
     op_type (x_ops s' ! 0) = EXO_ACTIVATE \<and> op_state (x_ops s' ! 0) = EXO_REQUEST_PENDING \<and>
     op_retries (x_ops s' ! 0) = op_retries (x_ops s ! 0) \<and>
     outq (x_world s') = outq (x_world s) @ encode_msg (activate_msg (lib_mid (x_lib s)) rnd v m n) # post"
proof -
  define u where "u = (if op_state (x_ops s ! 0) = EXO_REQUEST_NULL then x_world s else x_world (snd (now_of P s)))"
  let ?s = "s\<lparr>x_ops := (x_ops s)[0 := exo_activate (x_ops s ! 0)], x_world := u\<rparr>"
  have i: "x_ops s \<noteq> []" using assms(3,4) by auto
  have u: "inq u = []" "outq u = outq (x_world s)" using assms(5) net_of_calls(1) [of s] by (simp_all add: u_def)
  have need: "need_activation P s = Some ?s"
    using assms(6) i by (auto simp: need_activation_def get_op_def upd_op_def u_def now_of_def split_beta Let_def)
  have "evolves inq s ?s" using i u(1) assms(5) by (auto simp: evolves_def frame_def intro!: all_steps_update taken)
  then have ok: "state_ok ?s" using assms(1) by (rule evolves_state_ok)
  obtain w where w: "recv_loop P (unat count) (local_pdu P ?s) ?s = Some (?s\<lparr>x_world := w\<rparr>)" "outq w = outq (x_world s)"
    by (rule recv_loop_empty [OF local_pdu_ok, of ?s "unat count"]) (use u in auto)
  have "state_ok (?s\<lparr>x_world := w\<rparr>)" using ok by (simp add: state_ok_def)
  from pass_activates [OF this assms(3) _ _ _ _ _ _ assms(10,11)] assms(4,7-9) i obtain s' rnd post where
    "exo_process_active_ops P (unat count) (?s\<lparr>x_world := w\<rparr>) = Some s'"
    "op_type (x_ops s' ! 0) = EXO_ACTIVATE" "op_state (x_ops s' ! 0) = EXO_REQUEST_PENDING"
    "op_retries (x_ops s' ! 0) = op_retries (x_ops s ! 0)"
    "outq (x_world s') = outq w @ encode_msg (activate_msg (lib_mid (x_lib s)) rnd v m n) # post"
    by (auto simp: exo_activate_def)
  with need w assms(2) show ?thesis
    by (auto simp: exo_operate_def exo_process_waiting_datagrams_def)
qed

end

end
