(* ===== verification/Exo_Notify.thy ===== *)
theory Exo_Notify
  imports Exo_Silence
begin

text \<open>
  A notification in a call of \<open>exo_operate\<close>: its value is stored, it is acknowledged in the pass that follows, and the
  subscription tells the application that there is a new value, or waits on.
\<close>

section \<open>The acknowledgement\<close>

text \<open>The operation after its acknowledgement was sent.\<close>

definition acknowledged :: "exo_op \<Rightarrow> exo_op" where
  "acknowledged op = op\<lparr>op_state :=
     if op_state op = EXO_REQUEST_SUB_ACK then EXO_REQUEST_SUBSCRIBED else EXO_REQUEST_SUCCESS\<rparr>"

abbreviation to_acknowledge :: "exo_op \<Rightarrow> bool" where
  "to_acknowledge op \<equiv> op_state op \<in> {EXO_REQUEST_SUB_ACK, EXO_REQUEST_SUB_ACK_NEW}"

abbreviation ack_of :: "exo_op \<Rightarrow> bytes" where
  "ack_of op \<equiv> encode_msg (empty_msg CT_ACK (op_mid op) [])"

context datagram_pal
begin

lemma active_op_acks:
  assumes "pdu_ready pdu" "i < length (x_ops s)" "to_acknowledge (x_ops s ! i)" "sends_all P"
  obtains q s' where "active_op P now i pdu s = Some (q, s')" "x_ops s' = (x_ops s)[i := acknowledged (x_ops s ! i)]"
    "outq (x_world s') = outq (x_world s) @ [ack_of (x_ops s ! i)]"
proof -
  let ?op = "x_ops s ! i"
  obtain q where q: "exo_build_msg_ack (op_mid ?op) pdu = Some (EXO_OK, q)" "represents q (empty_msg CT_ACK (op_mid ?op) [])"
    using build_msg_ack_correct [of pdu "op_mid ?op"] assms(1) by (auto simp: pdu_ready_def MINIMUM_DATAGRAM_SIZE_def)
  obtain s2 where s2: "send_pdu P q s = Some (0, s2)" "x_ops s2 = x_ops s"
    "outq (x_world s2) = outq (x_world s) @ [ack_of ?op]"
    using send_pdu_represents [OF q(2), of s] assms(4) by (auto simp: sends_all_def elim!: returnsE)
  show thesis
  proof (rule that)
    show "active_op P now i pdu s = Some (q, s2\<lparr>x_ops := (x_ops s)[i := acknowledged ?op]\<rparr>)"
      using assms(2,3) q(1) s2
      by (auto simp: active_op_def send_ack_def get_op_def upd_op_def set_state_def acknowledged_def)
  qed (use s2 in simp_all)
qed

lemma active_loop_acks:
  assumes "pdu_ready pdu" "state_ok s" "i + n \<le> length (x_ops s)" "i \<le> k" "k < i + n" "to_acknowledge (x_ops s ! k)"
    "sends_all P" "active_loop P now i n pdu s = Some s'"
  shows "x_ops s' ! k = acknowledged (x_ops s ! k) \<and>
     (\<exists>pre post. outq (x_world s') = outq (x_world s) @ pre @ [ack_of (x_ops s ! k)] @ post)"
  using assms(1-6,8)
proof (induction n arbitrary: i pdu s)
  case (Suc n)
  have i: "i < length (x_ops s)" using Suc.prems(3) by simp
  from active_op_sends [OF Suc.prems(1) i Suc.prems(2), of now] obtain q s1 where
    s1: "active_op P now i pdu s = Some (q, s1)" "pdu_ready q" "evolves inq s s1" "sends outq 1 s s1"
    by (auto elim!: returnsE)
  have loop: "active_loop P now (Suc i) n q s1 = Some s'" using Suc.prems(7) s1(1) by simp
  have len: "length (x_ops s1) = length (x_ops s)" by (rule evolves_length [OF s1(3)])
  have ok: "state_ok s1" "Suc i + n \<le> length (x_ops s1)"
    using evolves_state_ok [OF s1(3) Suc.prems(2)] Suc.prems(3) len by simp_all
  show ?case
  proof (cases "i = k")
    case True
    have op: "x_ops s1 ! k = acknowledged (x_ops s ! k)" "outq (x_world s1) = outq (x_world s) @ [ack_of (x_ops s ! k)]"
      using active_op_acks [OF Suc.prems(1) i _ assms(7), of now] Suc.prems(6) s1(1) i True by force+
    moreover have "x_ops s' ! k = x_ops s1 ! k"
      using if_returnsD [OF active_loop_passed loop] i len True by auto
    moreover obtain ms where "outq (x_world s') = outq (x_world s1) @ map encode_msg ms"
      using active_loop_sends [OF s1(2) ok(2,1), of now] loop by (auto simp: sends_def)
    ultimately show ?thesis by (metis append.assoc append_Nil)
  next
    case False
    have "x_ops s1 ! k = x_ops s ! k"
      using if_returnsD [OF active_op_passed s1(1)] False by (auto simp: passed_def)
    with Suc.IH [OF s1(2) ok _ _ _ loop] Suc.prems(4-6) False obtain pre post where
      "x_ops s' ! k = acknowledged (x_ops s ! k)" "outq (x_world s') = outq (x_world s1) @ pre @ [ack_of (x_ops s ! k)] @ post"
      by auto
    moreover obtain ms where "outq (x_world s1) = outq (x_world s) @ map encode_msg ms" using s1(4) by (auto simp: sends_def)
    ultimately show ?thesis by (metis append.assoc)
  qed
qed simp

lemma pass_acks:
  assumes "state_ok s" "count \<le> length (x_ops s)" "k < count" "to_acknowledge (x_ops s ! k)" "sends_all P"
  obtains s' pre post where "exo_process_active_ops P count s = Some s'" "x_heap s' = x_heap s"
    "x_ops s' ! k = acknowledged (x_ops s ! k)" "outq (x_world s') = outq (x_world s) @ pre @ [ack_of (x_ops s ! k)] @ post"
proof -
  let ?s = "snd (now_of P s)"
  obtain s' where s': "exo_process_active_ops P count s = Some s'"
    using process_active_ops_sends [OF assms(2,1)] by (auto elim!: returnsE)
  then have loop: "active_loop P (fst (now_of P s)) 0 count (local_pdu P ?s) ?s = Some s'"
    by (simp add: exo_process_active_ops_def split_beta Let_def)
  have "pdu_ready (local_pdu P ?s)" "state_ok ?s"
    using local_pdu_ok [of ?s] pdu_ok_wf_mem assms(1) by (simp_all add: pdu_ready_def pdu_ok_def state_ok_def)
  from active_loop_acks [OF this _ le0 _ _ assms(5) loop, of k] assms(2-4) net_of_calls(1) [of s] obtain pre post where
    "x_ops s' ! k = acknowledged (x_ops s ! k)" "outq (x_world s') = outq (x_world s) @ pre @ [ack_of (x_ops s ! k)] @ post"
    by auto
  with s' if_returnsD [OF sent.process_active_ops_rel s'] that show thesis by blast
qed

end

section \<open>The notification\<close>

text \<open>
  \<open>m\<close> is a notification with the payload \<open>p\<close>, operation \<open>k\<close> is the first one subscribed under its token, and the payload fits.
\<close>

definition notifies :: "nat \<Rightarrow> 'w exo \<Rightarrow> nat \<Rightarrow> coap_msg \<Rightarrow> bytes \<Rightarrow> bool" where
  "notifies count s k m p \<longleftrightarrow> k < count \<and> wf_msg m \<and> length (encode_msg m) \<le> MINIMUM_DATAGRAM_SIZE \<and>
     (m_type m = CT_CON \<or> m_type m = CT_NON) \<and> m_code m = cc_val CC_CONTENT \<and> observe_ok m \<and>
     m_payload m = Some p \<and> p \<noteq> [] \<and> length p < op_value_max (x_ops s ! k) \<and>
     waits_for m (x_ops s ! k) \<and> (\<forall>i < k. \<not> waits_for m (x_ops s ! i))"

definition notice_seq :: "coap_msg \<Rightarrow> u32" where
  "notice_seq m = obs_fold 0 (observe_bytes m) 0"

text \<open>The state after the handler: \<open>blk\<close> is the content of the buffer at \<open>a\<close>.\<close>

definition noted :: "'w plat \<Rightarrow> nat \<Rightarrow> coap_msg \<Rightarrow> bytes \<Rightarrow> nat \<Rightarrow> bytes \<Rightarrow> 'w exo \<Rightarrow> 'w \<Rightarrow> 'w exo" where
  "noted P k m p a blk s w =
     (let op = x_ops s ! k; e = expiry P (msg_max_age m) (s\<lparr>x_world := w, x_heap := (x_heap s)(a \<mapsto> stored_block p blk)\<rparr>) in
      (snd e)\<lparr>x_ops := (x_ops s)[k := op\<lparr>op_mid := m_mid m,
        op_state := if op_obs_seq op = notice_seq m then EXO_REQUEST_SUB_ACK else EXO_REQUEST_SUB_ACK_NEW,
        op_obs_seq := notice_seq m, op_timeout := fst e\<rparr>]\<rparr>)"

lemma notice_matched:
  assumes "notifies count s k m p" "represents v m" "count \<le> length (x_ops s)"
    "op_value (x_ops s ! k) = Some a" "x_heap s a = Some blk" "0 < length blk"
    "op_value_max (x_ops s ! k) \<le> length blk" "length blk < size_max div 2"
  shows "match_ops P v 0 count (s\<lparr>x_world := w\<rparr>) = Some (True, noted P k m p a blk s w)"
proof -
  have m: "k < count" "m_type m = CT_CON \<or> m_type m = CT_NON" "m_code m = cc_val CC_CONTENT" "observe_ok m"
    "payload_of m = p" "p \<noteq> []" "length p < op_value_max (x_ops s ! k)" "waits_for m (x_ops s ! k)"
    "\<forall>i < k. \<not> waits_for m (x_ops s ! i)"
    using assms(1) by (auto simp: notifies_def payload_of_def)
  have "match_ops P v 0 count (s\<lparr>x_world := w\<rparr>) = match_op P v k (s\<lparr>x_world := w\<rparr>)"
    using m assms(3) by (intro match_ops_first [OF assms(2)]) auto
  then show ?thesis
    using notification [OF assms(2) m(2,3), of k "s\<lparr>x_world := w\<rparr>" "x_ops s ! k" a blk P] m assms(3-)
    by (simp add: noted_def notice_seq_def Let_def)
qed

context datagram_pal
begin

lemma noted_frame:
  "x_heap (noted P k m p a blk s w) = (x_heap s)(a \<mapsto> stored_block p blk)" "x_lib (noted P k m p a blk s w) = x_lib s"
  "inq (x_world (noted P k m p a blk s w)) = inq w" "outq (x_world (noted P k m p a blk s w)) = outq w"
proof -
  let ?s = "s\<lparr>x_world := w, x_heap := (x_heap s)(a \<mapsto> stored_block p blk)\<rparr>"
  have "frame (network inq outq) ?s (snd (expiry P (msg_max_age m) ?s))" by (rule frame_expiry) simp
  then show "inq (x_world (noted P k m p a blk s w)) = inq w" "outq (x_world (noted P k m p a blk s w)) = outq w"
    by (simp_all add: noted_def Let_def frame_def)
qed (simp_all add: noted_def Let_def expiry_frame)

lemma subscription_buffer:
  assumes "state_ok s" "notifies count s k m p" "count \<le> length (x_ops s)"
  obtains a blk where "op_value (x_ops s ! k) = Some a" "x_heap s a = Some blk" "0 < length blk"
    "op_value_max (x_ops s ! k) \<le> length blk" "length blk < size_max div 2"
proof -
  have "op_inv (x_ops s ! k)" "op_mem (x_heap s) (x_ops s ! k)" "op_state (x_ops s ! k) = EXO_REQUEST_SUBSCRIBED"
    using assms by (auto simp: state_ok_def notifies_def waits_for_def)
  then have "buffer_ok (x_heap s) (x_ops s ! k)" by (simp add: op_inv_def op_mem_def subscription_state_def)
  then show thesis using that by (rule buffer_okE)
qed

lemma notice_evolves:
  assumes "notifies count s k m p" "count \<le> length (x_ops s)" "x_heap s a = Some blk" "length p < length blk"
  shows "evolves (\<lambda>_. ()) s ((noted P k m p a blk s w)\<lparr>x_world := w'\<rparr>)"
proof -
  let ?op = "x_ops s ! k"
  have "op_state ?op = EXO_REQUEST_SUBSCRIBED" "k < length (x_ops s)"
    using assms(1,2) by (auto simp: notifies_def waits_for_def)
  then have "all_steps (x_ops s) (x_ops (noted P k m p a blk s w))"
    by (simp add: noted_def Let_def all_steps_update notified)
  moreover have "heap_kept (x_heap s) ((x_heap s)(a \<mapsto> stored_block p blk))"
    using assms(3,4) by (intro heap_kept_update) (auto simp: stored_block_def)
  ultimately show ?thesis by (simp add: evolves_def frame_def noted_frame)
qed

lemma notice_received:
  assumes "notifies count s k m p" "inq (x_world s) = [encode_msg m]" "count \<le> length (x_ops s)"
    "op_value (x_ops s ! k) = Some a" "x_heap s a = Some blk" "0 < length blk"
    "op_value_max (x_ops s ! k) \<le> length blk" "length blk < size_max div 2"
  obtains w w' where "exo_process_waiting_datagrams P count s = Some ((noted P k m p a blk s w)\<lparr>x_world := w'\<rparr>)"
    "outq w' = outq (x_world s)"
proof -
  have m: "wf_msg m" "length (encode_msg m) \<le> MINIMUM_DATAGRAM_SIZE" using assms(1) by (simp_all add: notifies_def)
  obtain w v where w: "inq w = []" "outq w = outq (x_world s)" "pdu_ok v"
    "recv_loop P count (local_pdu P s) s = recv_loop P count v (noted P k m p a blk s w)"
    by (rule message_handled [OF local_pdu_ok assms(2) m, of count "noted P k m p a blk s"])
      (use notice_matched [OF assms(1) _ assms(3-)] in auto)
  obtain w' where "recv_loop P count v (noted P k m p a blk s w) = Some ((noted P k m p a blk s w)\<lparr>x_world := w'\<rparr>)"
    "outq w' = outq (x_world s)"
    by (rule recv_loop_empty [OF w(3), of "noted P k m p a blk s w" count]) (use w(1,2) in \<open>auto simp: noted_frame\<close>)
  with w(4) that show thesis by (simp add: exo_process_waiting_datagrams_def)
qed

lemma notification_call:
  assumes "state_ok s" "lib_device (x_lib s) = EXO_STATE_GOOD" "unat count \<le> length (x_ops s)"
    "notifies (unat count) s k m p" "inq (x_world s) = [encode_msg m]" "sends_all P"
  shows "\<exists>r s' t a blk pre post. exo_operate P count s = Some (r, s') \<and>
     op_value (x_ops s ! k) = Some a \<and> x_heap s a = Some blk \<and> x_heap s' = (x_heap s)(a \<mapsto> stored_block p blk) \<and>
     x_ops s' ! k = (x_ops s ! k)\<lparr>op_mid := m_mid m,
       op_state := if op_obs_seq (x_ops s ! k) = notice_seq m then EXO_REQUEST_SUBSCRIBED else EXO_REQUEST_SUCCESS,
       op_obs_seq := notice_seq m, op_timeout := t\<rparr> \<and>
     outq (x_world s') = outq (x_world s) @ pre @ [encode_msg (empty_msg CT_ACK (m_mid m) [])] @ post"
proof -
  obtain a blk where buf: "op_value (x_ops s ! k) = Some a" "x_heap s a = Some blk" "0 < length blk"
    "op_value_max (x_ops s ! k) \<le> length blk" "length blk < size_max div 2"
    using assms(1,4,3) by (rule subscription_buffer)
  have m: "k < unat count" "length p < length blk" using assms(4) buf(4) by (auto simp: notifies_def)
  obtain w w' where w: "exo_process_waiting_datagrams P (unat count) s = Some ((noted P k m p a blk s w)\<lparr>x_world := w'\<rparr>)"
    "outq w' = outq (x_world s)"
    using assms(4,5,3) buf by (rule notice_received)
  let ?s = "(noted P k m p a blk s w)\<lparr>x_world := w'\<rparr>"
  have ev: "evolves (\<lambda>_. ()) s ?s" by (rule notice_evolves [OF assms(4,3) buf(2) m(2)])
  have ok: "state_ok ?s" "unat count \<le> length (x_ops ?s)"
    using evolves_state_ok [OF ev assms(1)] evolves_length [OF ev] assms(3) by simp_all
  obtain t where op: "x_ops ?s ! k = (x_ops s ! k)\<lparr>op_mid := m_mid m,
      op_state := if op_obs_seq (x_ops s ! k) = notice_seq m then EXO_REQUEST_SUB_ACK else EXO_REQUEST_SUB_ACK_NEW,
      op_obs_seq := notice_seq m, op_timeout := t\<rparr>"
    using m(1) assms(3) by (simp add: noted_def Let_def)
  have ack: "to_acknowledge (x_ops ?s ! k)" and mid: "op_mid (x_ops ?s ! k) = m_mid m" by (simp_all only: op) simp_all
  from ok m(1) ack assms(6) obtain s' pre post where s': "exo_process_active_ops P (unat count) ?s = Some s'"
    "x_heap s' = x_heap ?s" "x_ops s' ! k = acknowledged (x_ops ?s ! k)"
    "outq (x_world s') = outq (x_world ?s) @ pre @ [ack_of (x_ops ?s ! k)] @ post"
    by (rule pass_acks)
  have "acknowledged (x_ops ?s ! k) = (x_ops s ! k)\<lparr>op_mid := m_mid m,
       op_state := if op_obs_seq (x_ops s ! k) = notice_seq m then EXO_REQUEST_SUBSCRIBED else EXO_REQUEST_SUCCESS,
       op_obs_seq := notice_seq m, op_timeout := t\<rparr>"
    by (simp only: op) (simp add: acknowledged_def)
  moreover have "exo_operate P count s = Some (ops_state (unat count) (x_ops s'), s')"
    using assms(2) w(1) s'(1) by (simp add: exo_operate_def)
  ultimately show ?thesis
    using buf(1,2) s'(2,3) s'(4) [unfolded mid] w(2) by (auto simp: noted_frame)
qed

end


section \<open>A notification without Observe\<close>

text \<open>
  The options of the message are all below Observe, there is at least one, and there is a payload: the search for Observe ends at the payload
  marker with a NULL value and a length made of the buffer's address.
\<close>

lemma observe_not_found:
  assumes "represents pdu m" "m_opts m \<noteq> []" "\<forall>(n, v) \<in> set (m_opts m). n < con_val CON_OBSERVE" "m_payload m = Some p"
  shows "coap_get_option_by_num pdu CON_OBSERVE 0 =
     Some \<lparr>opt_num = 0, opt_len = add64 (pdu_len pdu) (pdu_addr pdu), opt_val = NULL\<rparr>"
proof -
  let ?z = "\<lparr>opt_num = 0, opt_len = 0, opt_val = NULL\<rparr>"
  obtain n v os where o1: "m_opts m = (n, v) # os" by (metis assms(2) list.exhaust surj_pair)
  have "0 < n" "n \<le> last_num n os"
    using assms(1) o1 wf_opts_last_num_ge by (auto simp: represents_def wf_msg_def)
  then have last: "last_num 0 (m_opts m) \<noteq> 0" by (simp add: o1)
  have "at_cursor pdu ?z 0 (length (hdr_enc m))"
    by (rule represents_pkt_at(2) [OF assms(1)]) simp
  from by_num_walk_end [OF this _ assms(3) last order_refl con_val_range(1), of p] show ?thesis
    using represents_pkt_at(1) [OF assms(1)] assms(4) by (simp add: coap_get_option_by_num_def del: con_val.simps)
qed

lemma notification_faults:
  assumes "represents pdu m" "m_code m = cc_val CC_CONTENT" "coap_get_option_by_num pdu CON_OBSERVE 0 = Some opt"
    "opt_val opt = NULL" "opt_len opt \<noteq> 0"
  shows "handle_notification P pdu i s = None"
proof -
  have "obs_seq_loop (pdu_buf pdu) opt 0 0 = None"
    using assms(4,5) by (subst obs_seq_loop.simps) simp
  then show ?thesis
    using assms(2,3) by (simp add: handle_notification_def getters [OF assms(1)] bind_eq_None_conv)
qed

context datagram_pal
begin

lemma unread_notification:
  assumes "inq (x_world s) = encode_msg m # ds" "wf_msg m" "length (encode_msg m) \<le> MINIMUM_DATAGRAM_SIZE"
    "m_type m = CT_CON \<or> m_type m = CT_NON" "m_code m = cc_val CC_CONTENT" "k < count" "count \<le> length (x_ops s)"
    "waits_for m (x_ops s ! k)" "\<forall>i < k. \<not> waits_for m (x_ops s ! i)"
    "m_opts m \<noteq> []" "\<forall>(n, v) \<in> set (m_opts m). n < con_val CON_OBSERVE" "m_payload m = Some p"
  shows "\<exists>v w len. represents v m \<and> len \<noteq> 0 \<and>
     coap_get_option_by_num v CON_OBSERVE 0 = Some \<lparr>opt_num = 0, opt_len = len, opt_val = NULL\<rparr> \<and>
     exo_process_waiting_datagrams P count s =
       Option.bind (handle_notification P v k (s\<lparr>x_world := w\<rparr>)) (recv_loop P count v) \<and>
     handle_notification P v k (s\<lparr>x_world := w\<rparr>) = None"
proof -
  let ?pdu = "local_pdu P s"
  obtain w v where "inq w = ds" "outq w = outq (x_world s)" "pdu_ok v" and v: "represents v m" "pdu_addr v = pdu_addr ?pdu"
    and loop: "recv_loop P count ?pdu s = Option.bind (match_ops P v 0 count (s\<lparr>x_world := w\<rparr>)) (\<lambda>(hit, s).
       if hit then recv_loop P count v s else reply_rst P v s)"
    by (rule message_next [OF local_pdu_ok assms(1-3), where count = count])
  have len: "add64 (pdu_len v) (pdu_addr v) \<noteq> 0"
    using represents_len [OF v(1)] assms(3) by (simp add: v(2) local_pdu_def add64_def size_max_def MINIMUM_DATAGRAM_SIZE_def)
  note obs = observe_not_found [OF v(1) assms(10-12)]
  have "match_ops P v 0 count (s\<lparr>x_world := w\<rparr>) = match_op P v k (s\<lparr>x_world := w\<rparr>)"
    using assms(6-9) by (intro match_ops_first [OF v(1)]) auto
  also have "\<dots> = Option.bind (handle_notification P v k (s\<lparr>x_world := w\<rparr>)) (\<lambda>s. Some (True, s))"
    using assms(4,6-8) by (auto simp: match_op_def getters [OF v(1)] get_op_def waits_for_def)
  finally have "exo_process_waiting_datagrams P count s =
      Option.bind (handle_notification P v k (s\<lparr>x_world := w\<rparr>)) (recv_loop P count v)"
    by (simp add: exo_process_waiting_datagrams_def loop)
  moreover have "handle_notification P v k (s\<lparr>x_world := w\<rparr>) = None"
    using len by (intro notification_faults [OF v(1) assms(5) obs]) simp_all
  ultimately show ?thesis using v(1) len obs by blast
qed

end

end
