(* ===== verification/Exo_Exchange_Properties.thy ===== *)
theory Exo_Exchange_Properties
  imports Exo_Restart Exo_Notify Exo_Example
begin

text \<open>
  Exchanges with the server from end to end: a call of \<open>exo_operate\<close> with an activation answered or a notification
  waiting, and what is left of it for the application, the server and the next start.
\<close>

section \<open>Activation\<close>

text \<open>
  C14. A device that is activated stays activated: on a platform that stores the CIK as \<^verbatim>\<open>exosite_pal.h\<close> says, a device
  without a valid CIK waits in operation 0 for the answer to its activation, and a successful answer with 40 bytes arrives in
  time. Then the call of \<open>exo_operate\<close> returns with these bytes as the CIK, terminated by a NUL, the device in
  EXO_STATE_GOOD and operation 0 free; and whenever \<open>exo_init\<close> is called later, with the storage as the call left it, it succeeds
  and loads the same CIK.
\<close>

theorem activation_survives_restart:
  assumes "cik_pal P inq outq stored" "state_ok s" "lib_device (x_lib s) \<in> {EXO_STATE_INITIALIZED, EXO_STATE_BAD_CIK}"
    "0 < unat count" "unat count \<le> length (x_ops s)" "activation_answer s m cik" "inq (x_world s) = [encode_msg m]"
    "fst (now_of P s) \<le> op_timeout (x_ops s ! 0)"
    "\<And>bs w. CIK_LENGTH \<le> length bs \<Longrightarrow> fst (exopal_store_cik P bs w) = 0" "\<And>w. fst (exopal_init P w) = 0" "\<And>w. fst (exopal_udp_sock P w) = 0"
  shows "\<exists>r s'. exo_operate P count s = Some (r, s') \<and> lib_device (x_lib s') = EXO_STATE_GOOD \<and>
     lib_cik (x_lib s') = cik @ [0] \<and> x_ops s' ! 0 = exo_op_init (x_ops s ! 0) \<and>
     (\<forall>t vendor model serial. stored (x_world t) = stored (x_world s') \<and> length (lib_cik (x_lib t)) = CIK_LENGTH + 1 \<longrightarrow>
        (\<exists>t'. exo_init P vendor model serial t = Some (EXO_OK, t') \<and> lib_cik (x_lib t') = cik @ [0]))"
proof -
  have len: "length cik = CIK_LENGTH" using assms(6) by (simp add: activation_answer_def)
  obtain r s' where s': "exo_operate P count s = Some (r, s')" "lib_device (x_lib s') = EXO_STATE_GOOD"
    "lib_cik (x_lib s') = cik @ [0]" "stored (x_world s') = Some cik" "x_ops s' ! 0 = exo_op_init (x_ops s ! 0)"
    using cik_pal.activation_call [OF assms(1-9)] by blast
  with cik_pal.init_loads [OF assms(1) _ len _ assms(10,11)] show ?thesis by metis
qed

theorem activation_survives_restart_witness:
  "\<exists>r s' t'. exo_operate ex_pal 1 ((ex_state [ex_pending EXO_ACTIVATE] [encode_msg (ex_reply CT_ACK 68 (Some (replicate 40 98)))])
       \<lparr>x_lib := ex_lib\<lparr>lib_device := EXO_STATE_INITIALIZED\<rparr>\<rparr>) = Some (r, s') \<and>
     lib_device (x_lib s') = EXO_STATE_GOOD \<and> lib_cik (x_lib s') = replicate 40 98 @ [0] \<and>
     exo_init ex_pal None None None ((ex_state [] [])\<lparr>x_world := x_world s'\<rparr>) = Some (EXO_OK, t') \<and>
     lib_cik (x_lib t') = replicate 40 98 @ [0]"
proof -
  let ?m = "ex_reply CT_ACK 68 (Some (replicate 40 98))"
  let ?s = "(ex_state [ex_pending EXO_ACTIVATE] [encode_msg ?m])\<lparr>x_lib := ex_lib\<lparr>lib_device := EXO_STATE_INITIALIZED\<rparr>\<rparr>"
  have "state_ok ?s" by (simp add: state_ok_def ex_state_def; code_simp)
  moreover have "wf_msg ?m" "length (encode_msg ?m) \<le> MINIMUM_DATAGRAM_SIZE"
    by (simp_all add: ex_reply_def wf_msg_def encode_msg_def length_ext_bytes MINIMUM_DATAGRAM_SIZE_def)
  then have "activation_answer ?s ?m (replicate 40 98)" by (simp add: activation_answer_def CIK_LENGTH_def)
  moreover have "fst (now_of ex_pal ?s) \<le> op_timeout (x_ops ?s ! 0)"
    by (simp add: now_of_def posix_pal_def posix_get_time_def script_os_def ex_state_def)
  moreover have "CIK_LENGTH \<le> length bs \<Longrightarrow> fst (exopal_store_cik ex_pal bs w) = 0" "fst (exopal_init ex_pal w) = 0" "fst (exopal_udp_sock ex_pal w) = 0" for bs w
    by (simp_all add: posix_pal_def posix_store_cik_def posix_init_def posix_udp_sock_def script_os_def CIK_LENGTH_def Let_def)
  moreover have "ex_inq (x_world ?s) = [encode_msg ?m]" by (simp add: ex_state_def)
  ultimately obtain r s' where s': "exo_operate ex_pal 1 ?s = Some (r, s')" "lib_device (x_lib s') = EXO_STATE_GOOD"
    "lib_cik (x_lib s') = replicate 40 98 @ [0]"
    "\<forall>t vendor model serial. net_file (sys (x_world t)) = net_file (sys (x_world s')) \<and> length (lib_cik (x_lib t)) = CIK_LENGTH + 1 \<longrightarrow>
        (\<exists>t'. exo_init ex_pal vendor model serial t = Some (EXO_OK, t') \<and> lib_cik (x_lib t') = replicate 40 98 @ [0])"
    using activation_survives_restart [OF script_disk.cik_pal_axioms, of ?s 1 ?m "replicate 40 98"] by auto
  from s'(4) [rule_format, of "(ex_state [] [])\<lparr>x_world := x_world s'\<rparr>" None None None] s'(1-3) show ?thesis
    by (auto simp: CIK_LENGTH_def)
qed

text \<open>
  C34. A saved CIK does not keep a device from activating: the README says that a file with the CIK makes the library think that it
  is already activated. \<open>exo_init\<close> loads the CIK, but leaves the device in EXO_STATE_INITIALIZED, and the first call of
  \<open>exo_operate\<close> with operation 0 free and nothing received takes this operation and sends an activation request, before
  anything else.
\<close>

theorem saved_cik_activates_again:
  assumes "cik_pal P inq outq stored" "stored (x_world s) = Some cik" "length cik = CIK_LENGTH"
    "length (lib_cik (x_lib s)) = CIK_LENGTH + 1" "exo_init P vendor model serial s = Some (e, t)"
    "state_ok t" "inq (x_world t) = []" "0 < unat count" "unat count \<le> length (x_ops t)"
    "op_state (x_ops t ! 0) = EXO_REQUEST_NULL"
    "str_at (x_heap t) vendor v" "str_at (x_heap t) model m" "str_at (x_heap t) serial n"
    "length (encode_msg (activate_msg 0 0 v m n)) \<le> MINIMUM_DATAGRAM_SIZE"
    "\<And>w. fst (exopal_init P w) = 0" "\<And>w. fst (exopal_udp_sock P w) = 0" "\<And>bs w. fst (exopal_udp_send P bs w) = 0"
  shows "e = EXO_OK \<and> lib_cik (x_lib t) = cik @ [0] \<and>
     (\<exists>r s' rnd post. exo_operate P count t = Some (r, s') \<and>
        op_type (x_ops s' ! 0) = EXO_ACTIVATE \<and> op_state (x_ops s' ! 0) = EXO_REQUEST_PENDING \<and>
        outq (x_world s') = outq (x_world t) @ encode_msg (activate_msg (lib_mid (x_lib t)) rnd v m n) # post)"
proof -
  have t: "e = EXO_OK" "lib_cik (x_lib t) = cik @ [0]" "lib_device (x_lib t) = EXO_STATE_INITIALIZED"
    "lib_vendor (x_lib t) = vendor" "lib_model (x_lib t) = model" "lib_serial (x_lib t) = serial"
    using cik_pal.init_loads [OF assms(1-4,15,16), of vendor model serial] assms(5) by auto
  have P: "datagram_pal P inq outq" "sends_all P" using assms(1,17) by (simp_all add: cik_pal_def sends_all_def)
  from datagram_pal.call_activates [OF P(1) assms(6) _ assms(8,9,7), unfolded t(4-6), OF _ _ assms(11-14) P(2)] assms(10) t(1-3)
  show ?thesis by blast
qed

theorem saved_cik_activates_again_witness:
  "\<exists>t r s' rnd post. exo_init ex_pal (Some 3) (Some 4) (Some 5)
       ((ex_state [blank_op] [])\<lparr>x_world := boot_world (Some (replicate 40 98)) 0\<rparr>) = Some (EXO_OK, t) \<and>
     lib_cik (x_lib t) = replicate 40 98 @ [0] \<and> exo_operate ex_pal 1 t = Some (r, s') \<and>
     op_state (x_ops s' ! 0) = EXO_REQUEST_PENDING \<and>
     ex_outq (x_world s') = encode_msg (activate_msg 5 rnd (str_bytes ''acme'') (str_bytes ''m1'') (str_bytes ''001'')) # post"
proof -
  let ?s = "(ex_state [blank_op] [])\<lparr>x_world := boot_world (Some (replicate 40 98)) 0\<rparr>"
  let ?t = "?s\<lparr>x_world := boot_world (Some (replicate 40 98)) 6, x_lib := ex_lib\<lparr>lib_cik := replicate 40 98 @ [0], lib_mid := 5,
    lib_device := EXO_STATE_INITIALIZED\<rparr>\<rparr>"
  have init: "exo_init ex_pal (Some 3) (Some 4) (Some 5) ?s = Some (EXO_OK, ?t)"
    using boot_calls by (simp add: exo_init_def rand_of_def wr_def ex_lib_def Let_def list_update_append)
  have "state_ok ?t" by (simp add: state_ok_def ex_state_def; code_simp)
  moreover have "str_at ex_heap (Some 3) (str_bytes ''acme'')" "str_at ex_heap (Some 4) (str_bytes ''m1'')"
    "str_at ex_heap (Some 5) (str_bytes ''001'')"
    "length (encode_msg (activate_msg 0 0 (str_bytes ''acme'') (str_bytes ''m1'') (str_bytes ''001''))) \<le> MINIMUM_DATAGRAM_SIZE"
    "op_state blank_op = EXO_REQUEST_NULL"
    by code_simp+
  moreover have "fst (exopal_init ex_pal w) = 0" "fst (exopal_udp_sock ex_pal w) = 0" for w
    by (simp_all add: posix_pal_def posix_init_def posix_udp_sock_def script_os_def Let_def)
  moreover have "net_file (sys (x_world ?s)) = Some (replicate 40 98)" "ex_inq (x_world ?t) = []" "ex_outq (x_world ?t) = []"
    "length (replicate 40 (98 :: u8)) = CIK_LENGTH" "length (lib_cik (x_lib ?s)) = CIK_LENGTH + 1"
    by (simp_all add: boot_world_def CIK_LENGTH_def)
  ultimately have "\<exists>r s' rnd post. exo_operate ex_pal 1 ?t = Some (r, s') \<and> op_type (x_ops s' ! 0) = EXO_ACTIVATE \<and>
      op_state (x_ops s' ! 0) = EXO_REQUEST_PENDING \<and> ex_outq (x_world s') =
        [] @ encode_msg (activate_msg (lib_mid (x_lib ?t)) rnd (str_bytes ''acme'') (str_bytes ''m1'') (str_bytes ''001'')) # post"
    using saved_cik_activates_again [OF script_disk.cik_pal_axioms, of ?s "replicate 40 98", OF _ _ _ init, of 1
        "str_bytes ''acme''" "str_bytes ''m1''" "str_bytes ''001''"] ex_send by simp
  with init show ?thesis by fastforce
qed


section \<open>Notifications\<close>

text \<open>
  C8. A notification from end to end: a device in EXO_STATE_GOOD has one datagram waiting, the notification of a value that
  operation \<open>k\<close> subscribed to, with a payload that fits its buffer, on a platform that sends what it is given. Then the call of
  \<open>exo_operate\<close> returns with the payload, terminated by a NUL, in the buffer and nothing else in the application's memory changed; an empty
  acknowledgement with the message id of the notification has gone out; and the subscription is EXO_REQUEST_SUCCESS, for the
  application to look at, if the sequence number is not the last one, and waits on in EXO_REQUEST_SUBSCRIBED if it is. The
  acknowledgement is sent for non-confirmable notifications too.
\<close>

theorem notification_by_operate:
  assumes "datagram_pal P inq outq" "state_ok s" "lib_device (x_lib s) = EXO_STATE_GOOD" "unat count \<le> length (x_ops s)"
    "notifies (unat count) s k m p" "inq (x_world s) = [encode_msg m]" "\<And>bs w. fst (exopal_udp_send P bs w) = 0"
  shows "\<exists>r s' t a blk pre post. exo_operate P count s = Some (r, s') \<and> op_value (x_ops s ! k) = Some a \<and>
     x_heap s a = Some blk \<and> x_heap s' = (x_heap s)(a \<mapsto> p @ [0] @ drop (length p + 1) blk) \<and>
     x_ops s' ! k = (x_ops s ! k)\<lparr>op_mid := m_mid m,
       op_state := if op_obs_seq (x_ops s ! k) = notice_seq m then EXO_REQUEST_SUBSCRIBED else EXO_REQUEST_SUCCESS,
       op_obs_seq := notice_seq m, op_timeout := t\<rparr> \<and>
     outq (x_world s') = outq (x_world s) @ pre @ [encode_msg (empty_msg CT_ACK (m_mid m) [])] @ post"
proof -
  have "sends_all P" using assms(7) by (simp add: sends_all_def)
  from datagram_pal.notification_call [OF assms(1-6) this] show ?thesis by (simp add: stored_block_def)
qed

theorem notification_by_operate_witness:
  "\<exists>r s' pre post. exo_operate ex_pal 2 (ex_state [blank_op, ex_subscribed] [encode_msg (ex_reply CT_NON 69 (Some [50, 49]))]) =
       Some (r, s') \<and>
     x_heap s' 2 = Some [50, 49, 0, 65, 65, 65, 65, 65] \<and> op_state (x_ops s' ! 1) = EXO_REQUEST_SUCCESS \<and>
     ex_outq (x_world s') = pre @ [[0x60, 0, 0x0F, 0xFF]] @ post"
proof -
  let ?m = "ex_reply CT_NON 69 (Some [50, 49])" and ?s = "ex_state [blank_op, ex_subscribed] [encode_msg (ex_reply CT_NON 69 (Some [50, 49]))]"
  have h: "op_value (x_ops ?s ! 1) = Some 2" "x_heap ?s 2 = Some (replicate 8 65)" by code_simp+
  have "state_ok ?s" by (simp add: state_ok_def ex_state_def; code_simp)
  moreover have "wf_msg ?m" "length (encode_msg ?m) \<le> MINIMUM_DATAGRAM_SIZE" "observe_ok ?m" "waits_for ?m ex_subscribed"
    "\<not> waits_for ?m blank_op" "length [50, 49 :: u8] < op_value_max ex_subscribed"
    by code_simp+
  then have "notifies 2 ?s 1 ?m [50, 49]" by (simp add: notifies_def)
  moreover have "encode_msg (empty_msg CT_ACK (m_mid ?m) []) = [0x60, 0, 0x0F, 0xFF]"
    "op_obs_seq (x_ops ?s ! 1) \<noteq> notice_seq ?m" "unat (2 :: u8) = 2" "lib_device ex_lib = EXO_STATE_GOOD" "ex_inq (x_world ?s) = [encode_msg ?m]"
    by code_simp+
  ultimately obtain r s' t a blk pre post where s': "exo_operate ex_pal 2 ?s = Some (r, s')" "op_value (x_ops ?s ! 1) = Some a"
    "x_heap ?s a = Some blk" "x_heap s' = (x_heap ?s)(a \<mapsto> [50, 49] @ [0] @ drop (length [50, 49 :: u8] + 1) blk)"
    "op_state (x_ops s' ! 1) = EXO_REQUEST_SUCCESS" "ex_outq (x_world s') = ex_outq (x_world ?s) @ pre @ [[0x60, 0, 0x0F, 0xFF]] @ post"
    using notification_by_operate [OF script.datagram_pal_axioms, of ?s 2 1 ?m "[50, 49]"] ex_send by auto
  moreover have "a = 2" "blk = replicate 8 65" using s'(2,3) h by auto
  ultimately show ?thesis by (auto simp: numeral_eq_Suc)
qed

text \<open>
  C39. A notification without an Observe option can bring the library down. A device in EXO_STATE_GOOD has a 2.05 message waiting with the
  token of a subscribed operation; the message has at least one option, all its options have numbers below that of Observe, and it has a
  payload. Then the search for Observe in \<open>exo_process_waiting_datagrams\<close> returns a NULL value with a length that is not 0, and the loop
  that follows in the handling of the notification reads through it: the call of \<open>exo_operate\<close> ends there.
\<close>

theorem notification_without_observe:
  assumes "datagram_pal P inq outq" "lib_device (x_lib s) = EXO_STATE_GOOD" "inq (x_world s) = encode_msg m # ds" "wf_msg m"
    "length (encode_msg m) \<le> MINIMUM_DATAGRAM_SIZE" "m_type m = CT_CON \<or> m_type m = CT_NON" "m_code m = cc_val CC_CONTENT"
    "k < unat count" "unat count \<le> length (x_ops s)" "waits_for m (x_ops s ! k)" "\<forall>i < k. \<not> waits_for m (x_ops s ! i)"
    "m_opts m \<noteq> []" "\<forall>(n, v) \<in> set (m_opts m). n < con_val CON_OBSERVE" "m_payload m = Some p"
  shows "(\<exists>v w len. represents v m \<and> len \<noteq> 0 \<and>
       coap_get_option_by_num v CON_OBSERVE 0 = Some \<lparr>opt_num = 0, opt_len = len, opt_val = NULL\<rparr> \<and>
       exo_process_waiting_datagrams P (unat count) s =
         Option.bind (handle_notification P v k (s\<lparr>x_world := w\<rparr>)) (recv_loop P (unat count) v) \<and>
       handle_notification P v k (s\<lparr>x_world := w\<rparr>) = None) \<and>
     exo_operate P count s = None"
proof -
  note fault = datagram_pal.unread_notification [OF assms(1,3-14)]
  then have "exo_process_waiting_datagrams P (unat count) s = None" by auto
  with fault assms(2) show ?thesis by (simp add: exo_operate_def)
qed

theorem notification_without_observe_witness:
  "exo_operate ex_pal 2 (ex_state [blank_op, ex_subscribed] [encode_msg no_observe_msg]) = None"
proof -
  let ?s = "ex_state [blank_op, ex_subscribed] [encode_msg no_observe_msg]"
  have m: "wf_msg no_observe_msg" "length (encode_msg no_observe_msg) \<le> MINIMUM_DATAGRAM_SIZE"
    "m_type no_observe_msg = CT_CON \<or> m_type no_observe_msg = CT_NON" "m_code no_observe_msg = cc_val CC_CONTENT"
    "waits_for no_observe_msg ex_subscribed" "\<not> waits_for no_observe_msg blank_op" "m_opts no_observe_msg \<noteq> []"
    "\<forall>(n, v) \<in> set (m_opts no_observe_msg). n < con_val CON_OBSERVE" "m_payload no_observe_msg = Some [50]"
    by code_simp+
  have s: "lib_device (x_lib ?s) = EXO_STATE_GOOD" "ex_inq (x_world ?s) = encode_msg no_observe_msg # []" "1 < unat (2 :: u8)"
    "unat (2 :: u8) \<le> length (x_ops ?s)" "waits_for no_observe_msg (x_ops ?s ! 1)" "\<forall>i < 1. \<not> waits_for no_observe_msg (x_ops ?s ! i)"
    using m(5,6) by (simp_all add: ex_state_def ex_lib_def)
  from notification_without_observe [OF script.datagram_pal_axioms s(1,2) m(1-4) s(3-6) m(7-9)] show ?thesis by blast
qed

end
