(* ===== verification/Exo_Budget.thy ===== *)
theory Exo_Budget
  imports Exo_Silence
begin

text \<open>
  How many requests are sent when nobody answers: the datagrams sent so far and those the waiting requests are still entitled to
  are together the same before and after every call.
\<close>

section \<open>What a request is entitled to\<close>

text \<open>A new request is sent once, and a pending one is repeated until it has been repeated COAP_MAX_RETRANSMIT times.\<close>

definition sends_left :: "exo_op \<Rightarrow> nat" where
  "sends_left op =
     (case op_state op of
        EXO_REQUEST_NEW \<Rightarrow> 1 + (unat COAP_MAX_RETRANSMIT - unat (op_retries op))
      | EXO_REQUEST_PENDING \<Rightarrow> unat COAP_MAX_RETRANSMIT - unat (op_retries op)
      | _ \<Rightarrow> 0)"

definition budget :: "('w \<Rightarrow> bytes list) \<Rightarrow> nat \<Rightarrow> 'w exo \<Rightarrow> nat" where
  "budget outq n s = length (outq (x_world s)) + sum_list (map sends_left (take n (x_ops s)))"

lemma budget_step:
  assumes "x_ops s' = (x_ops s)[i := op']" "i < n" "i < length (x_ops s)"
    "length (outq (x_world s')) + sends_left op' = length (outq (x_world s)) + sends_left (x_ops s ! i)"
  shows "budget outq n s' = budget outq n s"
proof -
  let ?xs = "map sends_left (take n (x_ops s))"
  have i: "i < length ?xs" "?xs ! i = sends_left (x_ops s ! i)" using assms(2,3) by simp_all
  have "map sends_left (take n (x_ops s')) = ?xs[i := sends_left op']"
    by (simp add: assms(1) take_update_swap map_update)
  moreover have "sum_list (?xs[i := sends_left op']) = sum_list ?xs + sends_left op' - ?xs ! i"
    using i(1) by (rule sum_list_update)
  moreover have "?xs ! i \<le> sum_list ?xs" using i(1) by (rule elem_le_sum_list)
  ultimately show ?thesis using assms(4) i(2) by (simp add: budget_def)
qed

lemma sends_left_resting: "op_state op \<notin> {EXO_REQUEST_NEW, EXO_REQUEST_PENDING} \<Longrightarrow> sends_left op = 0"
  by (cases "op_state op") (simp_all add: sends_left_def)


section \<open>A pass\<close>

context datagram_pal
begin

lemma new_request_counted:
  assumes "pdu_ready pdu" "i < length (x_ops s)" "op = x_ops s ! i" "state_ok s" "op_state op = EXO_REQUEST_NEW"
    "op_type op \<noteq> EXO_NULL" "sends_all P"
  obtains t q s' m where "active_op P now i pdu s = Some (q, s')" "outq (x_world s') = outq (x_world s) @ [encode_msg m]"
    "x_ops s' = (x_ops s)[i := op\<lparr>op_state := EXO_REQUEST_PENDING, op_timeout := t + 4000000,
       op_mid := m_mid m, op_token := le_bytes (m_token m)\<rparr>]"
proof -
  have ok: "op_mem (x_heap s) op" "lib_ok (x_heap s) (x_lib s)"
    using assms(2-4) by (auto simp: state_ok_def)
  have "wf_mem pdu" "pdu_max pdu = MINIMUM_DATAGRAM_SIZE" using assms(1) by (simp_all add: pdu_ready_def)
  then obtain e q m where q: "op_builder op (x_heap s) (x_lib s) (fst (rand_of P s)) pdu =
      Some (e, q, next_mid (x_lib s))" "represents q m"
    using op_builder_total [of pdu "x_heap s" op "x_lib s" "fst (rand_of P s)"] ok assms(6)
    by (auto simp: MINIMUM_DATAGRAM_SIZE_def some_request_def elim!: returnsE)
  have "active_op P now i pdu s = send_new P i op pdu s"
    using assms(2,3,5) by (simp add: active_op_def get_op_def)
  with send_new_exact [OF assms(2,6) q] assms(3,7) that show thesis by (auto simp: sends_all_def)
qed

lemma active_op_budget:
  assumes "pdu_ready pdu" "i < length (x_ops s)" "i < n" "state_ok s" "sends_all P"
    "at_rest (x_ops s ! i) \<or> req_waiting (x_ops s ! i)" "active_op P now i pdu s = Some (q, s')"
  shows "budget outq n s' = budget outq n s \<and> (\<exists>op'. x_ops s' = (x_ops s)[i := op'])"
proof -
  let ?op = "x_ops s ! i"
  have r: "unat (op_retries ?op) \<le> unat COAP_MAX_RETRANSMIT"
    using assms(2,4) by (auto simp: state_ok_def op_inv_def word_le_nat_alt)
  have same: "?thesis" if "s' = s"
    using that by (auto intro: exI [of _ ?op])
  consider (rest) "at_rest ?op" | (new) "req_waiting ?op" "op_state ?op = EXO_REQUEST_NEW"
    | (early) "op_state ?op = EXO_REQUEST_PENDING" "\<not> op_timeout ?op \<le> now"
    | (again) "req_waiting ?op" "op_state ?op = EXO_REQUEST_PENDING" "op_timeout ?op \<le> now" "op_retries ?op < COAP_MAX_RETRANSMIT"
    | (limit) "req_waiting ?op" "op_state ?op = EXO_REQUEST_PENDING" "op_timeout ?op \<le> now" "\<not> op_retries ?op < COAP_MAX_RETRANSMIT"
    using assms(6) by (auto simp: req_waiting_def)
  then show ?thesis
  proof cases
    case rest
    then show ?thesis
      using assms(2,7) by (intro same) (auto simp: active_op_def get_op_def at_rest_def)
  next
    case new
    then have "op_type ?op \<noteq> EXO_NULL" by (auto simp: req_waiting_def)
    then obtain t m where
      "outq (x_world s') = outq (x_world s) @ [encode_msg m]"
      "x_ops s' = (x_ops s)[i := ?op\<lparr>op_state := EXO_REQUEST_PENDING, op_timeout := t + 4000000,
         op_mid := m_mid m, op_token := le_bytes (m_token m)\<rparr>]"
      by (rule new_request_counted [OF assms(1,2) refl assms(4) new(2) _ assms(5), of now]) (use assms(7) in auto)
    with new(2) show ?thesis
      using budget_step [OF _ assms(3,2), of s' _ outq] by (auto simp: sends_left_def)
  next
    case early
    then show ?thesis
      using assms(2,7) by (intro same) (auto simp: active_op_def check_timeout_def get_op_def)
  next
    case again
    have kind: "op_type ?op \<in> {EXO_READ, EXO_WRITE, EXO_ACTIVATE}" using again(1) by (simp add: req_waiting_def)
    have sends: "\<And>bs w. fst (exopal_udp_send P bs w) = 0" using assms(5) by (simp add: sends_all_def)
    obtain t m where s': "x_ops s' = (x_ops s)[i := ?op\<lparr>op_retries := op_retries ?op + 1, op_timeout := t\<rparr>]"
      "outq (x_world s') = outq (x_world s) @ [encode_msg m]"
      by (rule late_pass_repeats [OF assms(1,2) refl assms(4) again(2-4) kind sends]) (use assms(7) in auto)
    have "unat (op_retries ?op) < 4" using again(4) by (simp add: COAP_MAX_RETRANSMIT_def word_less_nat_alt)
    then have "unat (op_retries ?op + 1) = unat (op_retries ?op) + 1" "unat COAP_MAX_RETRANSMIT = 4"
      by (simp_all add: unat_word_ariths COAP_MAX_RETRANSMIT_def)
    with s' again(2) \<open>unat (op_retries ?op) < 4\<close> show ?thesis
      using budget_step [OF s'(1) assms(3,2), of outq] by (auto simp: sends_left_def)
  next
    case limit
    have kind: "op_type ?op \<in> {EXO_READ, EXO_WRITE, EXO_ACTIVATE}" using limit(1) by (simp add: req_waiting_def)
    have "op_retries ?op = COAP_MAX_RETRANSMIT" using r limit(4) by (simp add: word_le_nat_alt word_unat_eq_iff word_less_nat_alt)
    moreover have s': "s' = s\<lparr>x_ops := (x_ops s)[i := ?op\<lparr>op_state := EXO_REQUEST_ERROR\<rparr>]\<rparr>"
      using active_op_expired [OF assms(2) refl limit(2,3) kind, of P pdu] limit(4) assms(7) by simp
    ultimately show ?thesis
      using limit(2) budget_step [OF _ assms(3,2), of s' _ outq] by (auto simp: sends_left_def)
  qed
qed

lemma active_loop_budget:
  assumes "pdu_ready pdu" "i + k \<le> length (x_ops s)" "i + k \<le> n" "state_ok s" "sends_all P"
    "\<forall>j. i \<le> j \<and> j < i + k \<longrightarrow> at_rest (x_ops s ! j) \<or> req_waiting (x_ops s ! j)" "active_loop P now i k pdu s = Some s'"
  shows "budget outq n s' = budget outq n s"
  using assms
proof (induction k arbitrary: i pdu s)
  case (Suc k)
  have i: "i < length (x_ops s)" "i < n" using Suc.prems(2,3) by simp_all
  from active_op_sends [OF Suc.prems(1) i(1) Suc.prems(4), of now] obtain q s1 where
    s1: "active_op P now i pdu s = Some (q, s1)" "pdu_ready q" "evolves inq s s1"
    by (auto elim!: returnsE)
  have "at_rest (x_ops s ! i) \<or> req_waiting (x_ops s ! i)" using Suc.prems(6) by simp
  from active_op_budget [OF Suc.prems(1) i Suc.prems(4,5) this s1(1)] obtain op' where
    b: "budget outq n s1 = budget outq n s" "x_ops s1 = (x_ops s)[i := op']" by blast
  have "budget outq n s' = budget outq n s1"
    using Suc.prems s1 b(2) evolves_state_ok [OF s1(3)] by (intro Suc.IH [OF s1(2)]) auto
  with b(1) show ?case by simp
qed simp

lemma unanswered_budget:
  assumes "unanswered inq count s" "sends_all P" "exo_operate P count s = Some (r, s')"
  shows "budget outq (unat count) s' = budget outq (unat count) s"
proof -
  let ?n = "unat count"
  have s: "inq (x_world s) = []" "state_ok s" "lib_device (x_lib s) = EXO_STATE_GOOD" "?n \<le> length (x_ops s)"
    "\<forall>j < ?n. at_rest (x_ops s ! j) \<or> req_waiting (x_ops s ! j)"
    using assms(1) by (simp_all add: unanswered_def)
  obtain w where w: "recv_loop P ?n (local_pdu P s) s = Some (s\<lparr>x_world := w\<rparr>)" "outq w = outq (x_world s)"
    by (rule recv_loop_empty [OF local_pdu_ok s(1), where count = ?n])
  let ?s = "snd (now_of P (s\<lparr>x_world := w\<rparr>))"
  have "active_loop P (fst (now_of P (s\<lparr>x_world := w\<rparr>))) 0 ?n (local_pdu P ?s) ?s = Some s'"
    using assms(3) s(3) w(1)
    by (auto simp: exo_operate_def exo_process_waiting_datagrams_def exo_process_active_ops_def split_beta Let_def bind_eq_Some_conv)
  moreover have "pdu_ready (local_pdu P ?s)"
    using local_pdu_ok [of ?s] pdu_ok_wf_mem by (simp add: pdu_ready_def pdu_ok_def)
  moreover have "x_ops ?s = x_ops s" "outq (x_world ?s) = outq (x_world s)"
    using net_of_calls(1) [of "s\<lparr>x_world := w\<rparr>"] w(2) by simp_all
  moreover have "state_ok ?s"
    using s(2) by (simp add: now_of_def split_beta Let_def state_ok_def)
  ultimately show ?thesis
    using active_loop_budget [of "local_pdu P ?s" 0 ?n ?s ?n] assms(2) s(4,5) by (simp add: budget_def)
qed

end


section \<open>The whole loop\<close>

context clocked_pal
begin

lemma unanswered_sends:
  assumes "unanswered inq count s" "sends_all P"
  shows "\<exists>s' ms. until_idle P count s = Some s' \<and> outq (x_world s') = outq (x_world s) @ map encode_msg ms \<and>
     length ms = sum_list (map sends_left (take (unat count) (x_ops s))) \<and>
     (\<forall>m \<in> set ms. wf_msg m \<and> length (encode_msg m) \<le> MINIMUM_DATAGRAM_SIZE)"
proof -
  let ?n = "unat count"
  obtain s' where s': "until_idle P count s = Some s'" using unanswered_ends [OF assms] by blast
  let ?Q = "\<lambda>s1. unanswered inq count s1 \<and> budget outq ?n s1 = budget outq ?n s \<and> (\<exists>k. sends outq k s s1)"
  have start: "?Q s" using assms(1) by (auto intro: sends_same)
  have step: "?Q s2" if "exo_operate P count s1 = Some (r, s2)" "?Q s1" for r s1 s2
  proof -
    have un: "unanswered inq count s1" using that(2) by simp
    then have "unanswered inq count s2" using unanswered_call [OF un assms(2)] that(1) by auto
    moreover have "sends outq (1 + ?n) s1 s2"
      using operate_safe [of s1 count] un that(1) by (auto simp: unanswered_def)
    ultimately show ?thesis
      using unanswered_budget [OF un assms(2) that(1)] that(2) sends_trans by metis
  qed
  obtain s1 k where fin: "exo_operate P count s1 = Some (EXO_IDLE, s')" "budget outq ?n s' = budget outq ?n s" "sends outq k s s'"
    using until_idle_result [where Q = ?Q, OF s' start] step by blast
  have "sends_left op = 0" if "op \<in> set (take ?n (x_ops s'))" for op
    using until_idle_idle [OF fin(1) that] by (rule sends_left_resting)
  then have "sum_list (map sends_left (take ?n (x_ops s'))) = 0" by simp
  with fin(2,3) s' show ?thesis by (auto simp: budget_def sends_def)
qed

end

end
