(* ===== verification/Coap_Client.thy ===== *)
theory Coap_Client
  imports Exo_Msg Format
begin

text \<open>
  The example program \<^verbatim>\<open>picocoap/examples/posix/client.c\<close>: it reads one dataport again and again
  over an unconnected socket and prints every packet. Standard output is a byte string; what goes
  to standard error is left out.
\<close>

section \<open>hex_dump\<close>

text \<open>The sixteen columns of a line, from column \<open>j\<close> on with \<open>n\<close> to go.\<close>

fun hex_cells :: "bytes \<Rightarrow> nat \<Rightarrow> nat \<Rightarrow> nat \<Rightarrow> nat \<Rightarrow> bytes option" where
  "hex_cells buf len i j 0 = Some []"
| "hex_cells buf len i j (Suc n) =
     do {
       cell \<leftarrow> (if i + j < len then do { b \<leftarrow> rd buf (i + j); Some (zeros 2 (hex_digits 97 (unat b)) @ [32]) }
                else Some (str_bytes ''-- ''));
       cells \<leftarrow> hex_cells buf len i (j + 1) n;
       Some (cell @ cells) }"

function hex_dump_loop :: "bytes \<Rightarrow> nat \<Rightarrow> nat \<Rightarrow> bytes option" where
  "hex_dump_loop buf len i =
     (if i < len then do {
        let addr = str_bytes ''  0x'' @ zeros 3 (hex_digits 97 i) @ str_bytes ''    '';
        cells \<leftarrow> hex_cells buf len i 0 16;
        txt \<leftarrow> put_str buf i (if 16 > len - i then len - i else 16);
        rest \<leftarrow> hex_dump_loop buf len (i + 16);
        Some (addr @ cells @ str_bytes ''   '' @ txt @ [10] @ rest) }
      else Some [])"
  by pat_completeness auto
termination
  by (relation "measure (\<lambda>(buf, len, i). len - i)") auto

declare hex_dump_loop.simps [simp del]

definition hex_dump :: "bytes \<Rightarrow> nat \<Rightarrow> bytes option" where
  "hex_dump buf len = hex_dump_loop buf len 0"


section \<open>coap_pretty_print\<close>

definition out_line :: "string \<Rightarrow> bytes \<Rightarrow> bytes" where
  "out_line tag v = str_bytes tag @ v @ [10]"

text \<open>\<open>printf("<tag>%.*s (%zi)\n", (int)opt.len, opt.val, opt.len)\<close>, unless the value is NULL or empty.\<close>

definition print_value :: "string \<Rightarrow> coap_pdu \<Rightarrow> coap_option \<Rightarrow> bytes option" where
  "print_value tag pdu opt =
     (case opt_val opt of
        NULL \<Rightarrow> Some []
      | Buf q \<Rightarrow>
          if opt_len opt = 0 then Some []
          else do {
            txt \<leftarrow> put_str (pdu_buf pdu) q (opt_len opt);
            Some (out_line tag (txt @ [32, 40] @ dec_digits (opt_len opt) @ [41])) })"

text \<open>
  \<open>while ((opt = coap_get_option(pdu, &opt)).num != 0)\<close>: what it prints, and the option it ends with. \<open>None\<close> also when
  it does not end.
\<close>

partial_function (option) print_opts :: "coap_pdu \<Rightarrow> coap_option \<Rightarrow> (bytes \<times> coap_option) option" where
  "print_opts pdu opt =
     Option.bind (coap_get_option pdu (Some opt)) (\<lambda>opt.
       if opt_num opt \<noteq> 0 then
         Option.bind (print_value '' Value: '' pdu opt) (\<lambda>v.
           Option.bind (print_opts pdu opt) (\<lambda>(rest, opt').
             Some (out_line ''Option: '' (dec_digits (unat (opt_num opt))) @ v @ rest, opt')))
       else Some ([], opt))"

declare print_opts.simps [code]

definition coap_pretty_print :: "coap_pdu \<Rightarrow> (bytes \<times> coap_pdu) option" where
  "coap_pretty_print pdu =
     do {
       (err, pdu) \<leftarrow> coap_validate_pkt pdu;
       if err = CE_NONE then do {
         let title = str_bytes '' ------ Valid CoAP Packet ('' @ dec_digits (pdu_len pdu) @ str_bytes '') ------ '' @ [10];
         t \<leftarrow> coap_get_type pdu;
         cls \<leftarrow> coap_get_code_class pdu;
         detail \<leftarrow> coap_get_code_detail pdu;
         mid \<leftarrow> coap_get_mid pdu;
         token \<leftarrow> coap_get_token pdu;
         (opts, opt) \<leftarrow> print_opts pdu \<lparr>opt_num = 0, opt_len = 0, opt_val = NULL\<rparr>;
         pl \<leftarrow> print_value ''Payload: '' pdu opt;
         Some (title @ out_line ''Type:  '' (dec_digits (unat t)) @
           out_line ''Code:  '' (dec_digits (unat cls) @ [46] @ zeros 2 (dec_digits (unat detail))) @
           out_line ''MID:   0x'' (hex_digits 65 (unat mid)) @ out_line ''Token: 0x'' (hex_digits 65 (unat token)) @
           opts @ pl, pdu) }
       else do {
         dump \<leftarrow> hex_dump (pdu_buf pdu) (pdu_len pdu);
         Some (str_bytes '' ------ Non-CoAP Message ('' @ dec_digits (pdu_len pdu) @ str_bytes '') ------ '' @ [10] @ dump,
           pdu) } }"


section \<open>The program\<close>

text \<open>
  The system calls. \<open>cl_recvfrom\<close> returns the count, the bytes and the sender's address, which the kernel stores
  where the program told it to: over the address it sends to.
\<close>

record ('a, 'w) client_os =
  cl_getaddrinfo :: "string \<Rightarrow> string \<Rightarrow> 'w \<Rightarrow> int \<times> 'a list \<times> 'w"
  cl_socket :: "'a \<Rightarrow> 'w \<Rightarrow> int \<times> 'w"
  cl_sendto :: "int \<Rightarrow> bytes \<Rightarrow> 'a \<Rightarrow> 'w \<Rightarrow> int \<times> 'w"
  cl_recvfrom :: "int \<Rightarrow> nat \<Rightarrow> 'w \<Rightarrow> int \<times> bytes \<times> 'a \<times> 'w"
  cl_srand :: "'w \<Rightarrow> 'w"
  cl_rand :: "'w \<Rightarrow> nat \<times> 'w"
  cl_sleep :: "'w \<Rightarrow> 'w"

record ('a, 'w) client =
  cl_fd :: int
  cl_addr :: 'a
  cl_send :: coap_pdu
  cl_recv :: coap_pdu
  cl_mid :: u16
  cl_out :: bytes
  cl_world :: 'w

text \<open>How a part of \<open>main\<close> ends: the program goes on, or exits with a code.\<close>

datatype 's turn = Goes 's | Exits int 's

definition MSG_BUF_LEN :: nat where
  "MSG_BUF_LEN = 64"

definition client_alias :: bytes where
  "client_alias = c_literal ''temp''"

definition client_cik :: bytes where
  "client_cik = c_literal ''a32c85ba9dda45823be416246cf8b433baa068d7''"

text \<open>The loop over the addresses: the first one a socket can be made for.\<close>

fun client_sock_loop :: "('a, 'w) client_os \<Rightarrow> 'a list \<Rightarrow> 'w \<Rightarrow> (int \<times> 'a) option \<times> 'w" where
  "client_sock_loop os [] w = (None, w)"
| "client_sock_loop os (q # qs) w =
     (let (fd, w) = cl_socket os q w in
      if fd = -1 then client_sock_loop os qs w else (Some (fd, q), w))"

text \<open>\<open>main\<close> up to its loop; \<open>b1\<close> and \<open>b2\<close> are what the two buffers hold, \<open>a1\<close> and \<open>a2\<close>
  where they are. An exit leaves only the world.\<close>

definition client_start ::
  "('a, 'w) client_os \<Rightarrow> bytes \<Rightarrow> nat \<Rightarrow> bytes \<Rightarrow> nat \<Rightarrow> 'w \<Rightarrow> (int \<times> 'w) + ('a, 'w) client" where
  "client_start os b1 a1 b2 a2 w =
     (let (r, w) = cl_rand os (cl_srand os w);
          (rv, servinfo, w) = cl_getaddrinfo os ''coap.exosite.com'' ''5683'' w in
      if rv \<noteq> 0 then Inl (1, w)
      else
        (case client_sock_loop os servinfo w of
           (None, w) \<Rightarrow> Inl (2, w)
         | (Some (fd, q), w) \<Rightarrow>
             Inr \<lparr>cl_fd = fd, cl_addr = q,
               cl_send = \<lparr>pdu_buf = b1, pdu_addr = a1, pdu_len = 0, pdu_max = MSG_BUF_LEN, pdu_opt_ptr = NULL\<rparr>,
               cl_recv = \<lparr>pdu_buf = b2, pdu_addr = a2, pdu_len = 0, pdu_max = MSG_BUF_LEN, pdu_opt_ptr = NULL\<rparr>,
               cl_mid = of_nat r, cl_out = [], cl_world = w\<rparr>))"

definition add_c_str :: "nat \<Rightarrow> bytes \<Rightarrow> coap_pdu \<Rightarrow> (coap_error \<times> coap_pdu) option" where
  "add_c_str num s p = do { n \<leftarrow> strlen s; coap_add_option p (int num) s (of_nat n) }"

text \<open>The results of the packet functions are dropped.\<close>

definition client_request :: "u16 \<Rightarrow> u64 \<Rightarrow> coap_pdu \<Rightarrow> coap_pdu option" where
  "client_request mid rnd pdu =
     do { (_, pdu) \<leftarrow> coap_init_pdu pdu;
          (_, pdu) \<leftarrow> run_steps (header_steps CT_CON CC_GET mid @
            [\<lambda>p. coap_set_token p rnd 2,
             \<lambda>p. coap_add_option p (int (con_val CON_URI_PATH)) (c_literal ''1a'') 2,
             add_c_str (con_val CON_URI_PATH) client_alias,
             add_c_str (con_val CON_URI_QUERY) client_cik]) 0 pdu;
          Some pdu }"

definition say :: "bytes \<Rightarrow> ('a, 'w) client \<Rightarrow> ('a, 'w) client" where
  "say txt c = c\<lparr>cl_out := cl_out c @ txt\<rparr>"

text \<open>The first half of a turn: build, send, print.\<close>

definition client_send :: "('a, 'w) client_os \<Rightarrow> ('a, 'w) client \<Rightarrow> ('a, 'w) client turn option" where
  "client_send os c =
     do {
       let c = say (replicate 80 45 @ [10]) c;
       let (r, w) = cl_rand os (cl_world c);
       pdu \<leftarrow> client_request (cl_mid c) (of_nat r) (cl_send c);
       bs \<leftarrow> mem_read (pdu_buf pdu) 0 (pdu_len pdu);
       let (sent, w) = cl_sendto os (cl_fd c) bs (cl_addr c) w;
       let c = c\<lparr>cl_send := pdu, cl_mid := cl_mid c + 1, cl_world := w\<rparr>;
       if sent = -1 then Some (Exits 2 c)
       else do {
         (txt, pdu) \<leftarrow> coap_pretty_print (cl_send c);
         Some (Goes ((say (out_line ''Sent.'' [] @ txt) c)\<lparr>cl_send := pdu\<rparr>)) } }"

text \<open>The second half: wait for a datagram, compare it with the request and print it.\<close>

definition client_receive :: "('a, 'w) client_os \<Rightarrow> ('a, 'w) client \<Rightarrow> ('a, 'w) client turn option" where
  "client_receive os c =
     (case cl_recvfrom os (cl_fd c) (pdu_max (cl_recv c)) (cl_world c) of
        (n, bs, addr, w) \<Rightarrow>
          if n < 0 then Some (Exits 1 (c\<lparr>cl_world := w\<rparr>))
          else do {
            let c = c\<lparr>cl_world := w, cl_addr := addr\<rparr>;
            (err, pdu) \<leftarrow> coap_validate_pkt ((cl_recv c)\<lparr>pdu_buf := bs @ drop (length bs) (pdu_buf (cl_recv c)),
                                                          pdu_len := nat n\<rparr>);
            c \<leftarrow> (if err = CE_NONE then do {
                    let c = say (out_line ''Got Valid CoAP Packet'' []) c;
                    m1 \<leftarrow> coap_get_mid pdu;
                    m2 \<leftarrow> coap_get_mid (cl_send c);
                    same \<leftarrow> (if m1 = m2 then do { t1 \<leftarrow> coap_get_token pdu; t2 \<leftarrow> coap_get_token (cl_send c);
                                                  Some (t1 = t2) }
                             else Some False);
                    if same then do {
                      (txt, pdu) \<leftarrow> coap_pretty_print pdu;
                      Some ((say (out_line ''Is Response to Last Message'' [] @ txt) c)\<lparr>cl_recv := pdu\<rparr>) }
                    else Some (c\<lparr>cl_recv := pdu\<rparr>) }
                  else do {
                    dump \<leftarrow> hex_dump (pdu_buf pdu) (pdu_len pdu);
                    Some ((say (out_line ''Received '' (dec_digits (pdu_len pdu) @ str_bytes '' Bytes, Not Valid CoAP'') @ dump) c)
                      \<lparr>cl_recv := pdu\<rparr>) });
            Some (Goes (c\<lparr>cl_world := cl_sleep os (cl_world c)\<rparr>)) })"

definition client_turn :: "('a, 'w) client_os \<Rightarrow> ('a, 'w) client \<Rightarrow> ('a, 'w) client turn option" where
  "client_turn os c =
     do { t \<leftarrow> client_send os c;
          case t of Exits code c \<Rightarrow> Some (Exits code c) | Goes c \<Rightarrow> client_receive os c }"


section \<open>What hex_dump prints\<close>

text \<open>The specification: rows of sixteen bytes, each with its address, the bytes in hexadecimal, and as text.\<close>

definition hex_byte :: "u8 \<Rightarrow> bytes" where
  "hex_byte b = zeros 2 (hex_digits 97 (unat b)) @ [32]"

definition hex_row :: "bytes \<Rightarrow> nat \<Rightarrow> bytes" where
  "hex_row bs i =
     (let row = take 16 (drop i bs) in
      str_bytes ''  0x'' @ zeros 3 (hex_digits 97 i) @ str_bytes ''    '' @
      concat (map hex_byte row) @ concat (replicate (16 - length row) (str_bytes ''-- '')) @
      str_bytes ''   '' @ takeWhile (\<lambda>b. b \<noteq> 0) row @ [10])"

definition hex_text :: "bytes \<Rightarrow> bytes" where
  "hex_text bs = concat (map (\<lambda>r. hex_row bs (16 * r)) [0..<(length bs + 15) div 16])"

lemma hex_cells_eq:
  assumes "len \<le> length buf"
  shows "hex_cells buf len i j n =
     Some (concat (map hex_byte (take n (drop (i + j) (take len buf)))) @
       concat (replicate (n - (len - (i + j))) (str_bytes ''-- '')))"
proof (induction n arbitrary: j)
  case (Suc n)
  show ?case
  proof (cases "i + j < len")
    case True
    then have "drop (i + j) (take len buf) = buf ! (i + j) # drop (i + Suc j) (take len buf)"
      using assms by (simp flip: Cons_nth_drop_Suc)
    with True assms Suc [of "j + 1"] show ?thesis by (simp add: hex_byte_def rd_def)
  next
    case False
    with Suc [of "j + 1"] show ?thesis by simp
  qed
qed simp

lemma hex_row_steps:
  assumes "i < len" "len \<le> length buf"
  shows "\<exists>cells txt. hex_cells buf len i 0 16 = Some cells \<and>
     put_str buf i (if 16 > len - i then len - i else 16) = Some txt \<and>
     hex_row (take len buf) i =
       str_bytes ''  0x'' @ zeros 3 (hex_digits 97 i) @ str_bytes ''    '' @ cells @ str_bytes ''   '' @ txt @ [10]"
proof (intro exI conjI)
  let ?k = "if 16 > len - i then len - i else 16"
  have row: "take 16 (drop i (take len buf)) = take ?k (drop i buf)"
    by (simp add: drop_take min_def)
  have "16 - length (take ?k (drop i buf)) = 16 - (len - i)" using assms by simp
  then show "hex_row (take len buf) i = str_bytes ''  0x'' @ zeros 3 (hex_digits 97 i) @ str_bytes ''    '' @
      (concat (map hex_byte (take 16 (drop (i + 0) (take len buf)))) @
       concat (replicate (16 - (len - (i + 0))) (str_bytes ''-- ''))) @
      str_bytes ''   '' @ takeWhile (\<lambda>b. b \<noteq> 0) (take ?k (drop i buf)) @ [10]"
    unfolding hex_row_def Let_def add_0_right row by (simp del: length_take length_drop)
  show "put_str buf i ?k = Some (takeWhile (\<lambda>b. b \<noteq> 0) (take ?k (drop i buf)))"
    using assms by (intro put_str_ok) (auto simp: mem_read_def)
qed (rule hex_cells_eq [OF assms(2)])

lemma hex_dump_loop_eq:
  assumes "len \<le> length buf"
  shows "hex_dump_loop buf len (16 * r) =
     Some (concat (map (\<lambda>r. hex_row (take len buf) (16 * r)) [r..<(len + 15) div 16]))"
proof (induction "len - 16 * r" arbitrary: r rule: less_induct)
  case less
  show ?case
  proof (cases "16 * r < len")
    case False
    then have "(len + 15) div 16 \<le> r" by linarith
    with False show ?thesis by (subst hex_dump_loop.simps) simp
  next
    case True
    then have rows: "[r..<(len + 15) div 16] = r # [Suc r..<(len + 15) div 16]" and "len - 16 * Suc r < len - 16 * r"
      by (simp_all add: upt_conv_Cons)
    from less [OF this(2)] have "hex_dump_loop buf len (16 * r + 16) =
        Some (concat (map (\<lambda>r. hex_row (take len buf) (16 * r)) [Suc r..<(len + 15) div 16]))"
      by (simp add: add.commute)
    with True rows hex_row_steps [OF True assms] show ?thesis
      by (subst hex_dump_loop.simps) auto
  qed
qed

lemma hex_dump_correct: "len \<le> length buf \<Longrightarrow> hex_dump buf len = Some (hex_text (take len buf))"
  using hex_dump_loop_eq [of len buf 0] by (simp add: hex_dump_def hex_text_def min_def)


section \<open>What coap_pretty_print prints\<close>

text \<open>
  The specification, on messages. Of a message with options the payload is not printed, see
  \<open>Coap_Iter.get_option_end\<close>.
\<close>

definition value_text :: "string \<Rightarrow> bytes \<Rightarrow> bytes" where
  "value_text tag v =
     (if v = [] then []
      else out_line tag (takeWhile (\<lambda>b. b \<noteq> 0) v @ [32, 40] @ dec_digits (length v) @ [41]))"

definition option_text :: "nat \<times> bytes \<Rightarrow> bytes" where
  "option_text o1 = out_line ''Option: '' (dec_digits (fst o1)) @ value_text '' Value: '' (snd o1)"

definition msg_text :: "coap_msg \<Rightarrow> bytes" where
  "msg_text m =
     str_bytes '' ------ Valid CoAP Packet ('' @ dec_digits (length (encode_msg m)) @ str_bytes '') ------ '' @ [10] @
     out_line ''Type:  '' (dec_digits (unat (ct_val (m_type m)))) @
     out_line ''Code:  '' (dec_digits (unat (m_code m) div 32) @ [46] @ zeros 2 (dec_digits (unat (m_code m) mod 32))) @
     out_line ''MID:   0x'' (hex_digits 65 (unat (m_mid m))) @
     out_line ''Token: 0x'' (hex_digits 65 (unat (le_bytes (m_token m)))) @
     concat (map option_text (m_opts m)) @
     (if m_opts m = [] then value_text ''Payload: '' (case m_payload m of None \<Rightarrow> [] | Some p \<Rightarrow> p) else [])"

lemma print_value_found:
  assumes "opt_val opt = Buf q" "opt_len opt = length v" "mem_read (pdu_buf pdu) q (length v) = Some v"
    "length v < 2147483648"
  shows "print_value tag pdu opt = Some (value_text tag v)"
  using put_str_ok [OF assms(4,3)] assms(1,2) by (simp add: print_value_def value_text_def)

lemma print_opts_walk:
  assumes "at_cursor pdu opt prev (length pre)" "pkt_at pdu pre prev os pl"
  shows "\<exists>pre' opt'. print_opts pdu opt =
       Option.bind (coap_get_option pdu (Some opt')) (\<lambda>opt. Some (concat (map option_text os), opt)) \<and>
     at_cursor pdu opt' (last_num prev os) (length pre') \<and> pkt_at pdu pre' (last_num prev os) [] pl"
  using assms
proof (induction os arbitrary: opt prev pre)
  case Nil
  from get_option_end [OF Nil] have "print_opts pdu opt =
      Option.bind (coap_get_option pdu (Some opt)) (\<lambda>opt. Some ([], opt))"
    by (subst print_opts.simps) (simp split: option.splits)
  with Nil show ?case by auto
next
  case (Cons o1 os)
  obtain n v where o1: "o1 = (n, v)" by fastforce
  have wf: "0 < n" "n < 65536" "length v < 65536"
    using Cons.prems(2) o1 by (auto simp: pkt_at_def)
  note step = get_option_next [OF Cons.prems(1) Cons.prems(2) [unfolded o1]]
  let ?opt = "\<lparr>opt_num = of_nat n, opt_len = length v,
      opt_val = Buf (length pre + length (opt_header (n - prev) (length v)))\<rparr>"
  have "print_value '' Value: '' pdu ?opt = Some (value_text '' Value: '' v)"
    using step(4) wf(3) by (intro print_value_found) simp_all
  moreover obtain pre' opt' where "print_opts pdu ?opt =
      Option.bind (coap_get_option pdu (Some opt')) (\<lambda>opt. Some (concat (map option_text os), opt))"
    "at_cursor pdu opt' (last_num n os) (length pre')" "pkt_at pdu pre' (last_num n os) [] pl"
    using Cons.IH [OF step(2,3)] by blast
  ultimately show ?case
    using step(1) wf of_nat_u16_eq_0 [OF wf(2)] unat_of_nat_u16 [OF wf(2)]
    by (subst print_opts.simps)
      (auto simp: o1 option_text_def get_option_end intro!: exI [of _ pre'] exI [of _ opt'])
qed

lemma code_fields: "unat (drop_bit 5 c) = unat c div 32" "unat (c AND 0x1F) = unat c mod 32" for c :: u8
proof -
  show "unat (drop_bit 5 c) = unat c div 32"
    by (simp add: drop_bit_eq_div unat_div_distrib)
  have "c AND 0x1F = take_bit 5 c" by (simp add: take_bit_eq_mask mask_eq_exp_minus_1)
  then show "unat (c AND 0x1F) = unat c mod 32" by (simp add: take_bit_eq_mod unat_mod_distrib)
qed

lemma represents_opt_ptr: "represents (pdu\<lparr>pdu_opt_ptr := x\<rparr>) m = represents pdu m"
  by (simp add: represents_def wf_mem_def)

lemma print_opts_represents:
  assumes "represents pdu m" "pdu_len pdu < 2147483648"
  shows "\<exists>opt. print_opts pdu \<lparr>opt_num = 0, opt_len = 0, opt_val = NULL\<rparr> =
      Some (concat (map option_text (m_opts m)), opt) \<and>
    print_value ''Payload: '' pdu opt = Some
      (if m_opts m = [] then value_text ''Payload: '' (case m_payload m of None \<Rightarrow> [] | Some p \<Rightarrow> p) else [])"
proof -
  let ?z = "\<lparr>opt_num = 0, opt_len = 0, opt_val = NULL\<rparr>" and ?last = "last_num 0 (m_opts m)"
  obtain pre opt where walk: "print_opts pdu ?z =
      Option.bind (coap_get_option pdu (Some opt)) (\<lambda>opt. Some (concat (map option_text (m_opts m)), opt))"
    and at: "at_cursor pdu opt ?last (length pre)" "pkt_at pdu pre ?last [] (m_payload m)"
    using print_opts_walk [OF represents_pkt_at(2,1) [OF assms(1)], of ?z] by auto
  have last: "?last = 0 \<longleftrightarrow> m_opts m = []"
    using assms(1) wf_opts_last_num_ge [of "fst (hd (m_opts m))" "tl (m_opts m)"]
    by (cases "m_opts m") (auto simp: represents_def wf_msg_def)
  show ?thesis
  proof (cases "m_payload m")
    case None
    then show ?thesis using walk get_option_end [OF at] by (simp add: print_value_def value_text_def)
  next
    case (Some p)
    then obtain rest where "pdu_buf pdu = pre @ [255] @ p @ rest" "length p < 2147483648"
      using at(2) assms(2) by (auto simp: pkt_at_def)
    then have "mem_read (pdu_buf pdu) (length pre + 1) (length p) = Some p"
      using mem_read_append [of "pre @ [255]" p rest] by simp
    from print_value_found [OF _ _ this \<open>length p < _\<close>] Some show ?thesis
      using walk get_option_end [OF at] last
      by (cases "?last = 0") (simp_all, simp add: print_value_def)
  qed
qed

lemma pretty_print_correct:
  assumes "represents pdu m" "pdu_len pdu < 2147483648"
  shows "coap_pretty_print pdu = Some (msg_text m, pdu\<lparr>pdu_opt_ptr := NULL\<rparr>)"
proof -
  let ?p = "pdu\<lparr>pdu_opt_ptr := NULL\<rparr>"
  have r: "represents ?p m" "pdu_len ?p < 2147483648" "pdu_len pdu = length (encode_msg m)"
    using assms represents_len [OF assms(1)] by (simp_all add: represents_opt_ptr)
  note get = get_type_represents [OF r(1)] get_code_represents [OF r(1)] get_mid_represents [OF r(1)]
    get_token_represents [OF r(1)]
  obtain opt where "print_opts ?p \<lparr>opt_num = 0, opt_len = 0, opt_val = NULL\<rparr> =
      Some (concat (map option_text (m_opts m)), opt)"
    "print_value ''Payload: '' ?p opt = Some
      (if m_opts m = [] then value_text ''Payload: '' (case m_payload m of None \<Rightarrow> [] | Some p \<Rightarrow> p) else [])"
    using print_opts_represents [OF r(1,2)] by blast
  then show ?thesis
    using get r(3) validate_represents [OF assms(1)]
    by (simp add: coap_pretty_print_def coap_get_code_class_def coap_get_code_detail_def msg_text_def code_fields)
qed


section \<open>What the program sends\<close>

definition client_msg :: "u16 \<Rightarrow> u64 \<Rightarrow> coap_msg" where
  "client_msg mid rnd = read_msg mid rnd client_cik (str_bytes ''temp'')"

lemma client_msg_len: "length (encode_msg (client_msg mid rnd)) = 56"
  by (simp add: client_msg_def read_msg_def request_def alias_opts_def encode_msg_def length_ext_bytes CIK_LENGTH_def
      client_cik_def c_literal_def str_bytes_def hdr_enc_def)

lemma client_request_correct:
  assumes "wf_mem pdu" "56 \<le> pdu_max pdu"
  shows "\<exists>q. client_request mid rnd pdu = Some q \<and> represents q (client_msg mid rnd) \<and> pdu_max q = pdu_max pdu"
proof -
  let ?os = "[(con_val CON_URI_PATH, str_bytes ''1a'', [0]), (con_val CON_URI_PATH, str_bytes ''temp'', [0]),
      (con_val CON_URI_QUERY, take CIK_LENGTH client_cik, drop CIK_LENGTH client_cik)]"
  have os: "map (\<lambda>(n, v, z). (n, v)) ?os = alias_opts (str_bytes ''temp'') client_cik"
    by (simp add: alias_opts_def)
  have lits: "add_c_str n client_alias = (\<lambda>p. coap_add_option p (int n) (str_bytes ''temp'' @ [0])
        (of_nat (length (str_bytes ''temp''))))"
    "add_c_str n client_cik = (\<lambda>p. coap_add_option p (int n) (take CIK_LENGTH client_cik @ drop CIK_LENGTH client_cik)
        (of_nat (length (take CIK_LENGTH client_cik))))" for n
    by (simp_all add: add_c_str_def client_alias_def client_cik_def c_literal_def str_bytes_def strlen_def cstr_def CIK_LENGTH_def
        fun_eq_iff)
  have "wf_opts 0 (map (\<lambda>(n, v, z). (n, v)) ?os)"
    unfolding os by (rule wf_alias_opts) (simp_all add: str_bytes_def)
  moreover have "client_msg mid rnd = request CC_GET mid rnd (map (\<lambda>(n, v, z). (n, v)) ?os)"
    unfolding os by (simp add: client_msg_def read_msg_def)
  ultimately show ?thesis
    using build_request [of "client_msg mid rnd" CC_GET mid rnd ?os pdu] assms client_msg_len [of mid rnd]
    unfolding client_request_def lits literal_1a by auto
qed


section \<open>A turn of the loop\<close>

definition client_ok :: "('a, 'w) client \<Rightarrow> bool" where
  "client_ok c \<longleftrightarrow> wf_mem (cl_send c) \<and> wf_mem (cl_recv c) \<and>
     pdu_max (cl_send c) = MSG_BUF_LEN \<and> pdu_max (cl_recv c) = MSG_BUF_LEN"

definition dashes :: bytes where
  "dashes = replicate 80 45 @ [10]"

lemma client_send_exact:
  assumes "client_ok c" "cl_rand os (cl_world c) = (r, w1)"
    "cl_sendto os (cl_fd c) (encode_msg (client_msg (cl_mid c) (of_nat r))) (cl_addr c) w1 = (k, w2)"
  shows "\<exists>q. represents q (client_msg (cl_mid c) (of_nat r)) \<and> pdu_max q = MSG_BUF_LEN \<and>
     client_send os c = Some
       (if k = -1 then Exits 2 (c\<lparr>cl_send := q, cl_mid := cl_mid c + 1, cl_out := cl_out c @ dashes, cl_world := w2\<rparr>)
        else Goes (c\<lparr>cl_send := q, cl_mid := cl_mid c + 1, cl_world := w2,
          cl_out := cl_out c @ dashes @ out_line ''Sent.'' [] @ msg_text (client_msg (cl_mid c) (of_nat r))\<rparr>))"
proof -
  let ?m = "client_msg (cl_mid c) (of_nat r)"
  have "wf_mem (cl_send c)" and 64: "pdu_max (cl_send c) = MSG_BUF_LEN" "56 \<le> pdu_max (cl_send c)"
    using assms(1) by (auto simp: client_ok_def MSG_BUF_LEN_def)
  from client_request_correct [OF this(1,3), of "cl_mid c" "of_nat r"] obtain q where
    q: "client_request (cl_mid c) (of_nat r) (cl_send c) = Some q" "represents q ?m" "pdu_max q = pdu_max (cl_send c)"
    by auto
  have "mem_read (pdu_buf q) 0 (pdu_len q) = Some (encode_msg ?m)" and len: "pdu_len q < 2147483648"
    using q(2) represents_len [OF q(2)] client_msg_len [of "cl_mid c" "of_nat r"]
    by (auto simp: represents_def mem_read_def wf_mem_def)
  then show ?thesis
    using q 64(1) assms(2,3) pretty_print_correct [OF q(2) len]
    by (cases "k = -1") (auto simp: client_send_def say_def dashes_def represents_opt_ptr
        intro!: exI [of _ "if k = -1 then q else q\<lparr>pdu_opt_ptr := NULL\<rparr>"])
qed

text \<open>What a turn prints of the datagram it receives.\<close>

definition reply_text :: "coap_msg \<Rightarrow> coap_msg \<Rightarrow> bytes" where
  "reply_text req m = out_line ''Got Valid CoAP Packet'' [] @
     (if m_mid m = m_mid req \<and> le_bytes (m_token m) = le_bytes (m_token req)
      then out_line ''Is Response to Last Message'' [] @ msg_text m else [])"

definition junk_text :: "bytes \<Rightarrow> bytes" where
  "junk_text d = out_line ''Received '' (dec_digits (length d) @ str_bytes '' Bytes, Not Valid CoAP'') @ hex_text d"

text \<open>The state after a turn that received \<open>d\<close> from \<open>addr\<close> and printed \<open>txt\<close> about it.\<close>

definition received :: "('a, 'w) client_os \<Rightarrow> bytes \<Rightarrow> 'a \<Rightarrow> 'w \<Rightarrow> bytes \<Rightarrow> ('a, 'w) client \<Rightarrow> ('a, 'w) client" where
  "received os d addr w txt c = c\<lparr>cl_addr := addr, cl_world := cl_sleep os w, cl_out := cl_out c @ txt,
     cl_recv := (cl_recv c)\<lparr>pdu_buf := d @ drop (length d) (pdu_buf (cl_recv c)), pdu_len := length d,
       pdu_opt_ptr := NULL\<rparr>\<rparr>"

lemma client_receive_message:
  assumes "client_ok c" "represents (cl_send c) req"
    "cl_recvfrom os (cl_fd c) MSG_BUF_LEN (cl_world c) = (int (length (encode_msg m)), encode_msg m, addr, w)"
    "wf_msg m" "length (encode_msg m) \<le> MSG_BUF_LEN"
  shows "client_receive os c = Some (Goes (received os (encode_msg m) addr w (reply_text req m) c))"
proof -
  let ?d = "encode_msg m"
  let ?p = "(cl_recv c)\<lparr>pdu_buf := ?d @ drop (length ?d) (pdu_buf (cl_recv c)), pdu_len := length ?d\<rparr>"
  have p: "represents ?p m" "pdu_len ?p < 2147483648"
    using assms(1,4,5) by (auto simp: client_ok_def wf_mem_def MSG_BUF_LEN_def intro!: representsI)
  then have "represents (?p\<lparr>pdu_opt_ptr := NULL\<rparr>) m" "pdu_len (?p\<lparr>pdu_opt_ptr := NULL\<rparr>) < 2147483648"
    by (simp_all only: represents_opt_ptr) simp
  note get = get_mid_represents [OF this(1)] get_token_represents [OF this(1)] pretty_print_correct [OF this]
    get_mid_represents [OF assms(2)] get_token_represents [OF assms(2)] validate_represents [OF p(1)]
  have "pdu_max (cl_recv c) = MSG_BUF_LEN" using assms(1) by (simp add: client_ok_def)
  then show ?thesis
    using get assms(3)
    by (auto simp: client_receive_def say_def reply_text_def received_def Let_def)
qed

text \<open>The packet a datagram makes in the receive buffer.\<close>

abbreviation arrived :: "bytes \<Rightarrow> ('a, 'w) client \<Rightarrow> coap_pdu" where
  "arrived d c \<equiv> (cl_recv c)\<lparr>pdu_buf := d @ drop (length d) (pdu_buf (cl_recv c)), pdu_len := length d\<rparr>"

lemma validate_packet: "coap_validate_pkt pdu = Some (e, v) \<Longrightarrow> v = pdu\<lparr>pdu_opt_ptr := NULL\<rparr>"
  by (auto simp: coap_validate_pkt_def Let_def bind_eq_Some_conv split: if_splits)

lemma client_receive_junk:
  assumes "client_ok c" "cl_recvfrom os (cl_fd c) MSG_BUF_LEN (cl_world c) = (int (length d), d, addr, w)"
    "coap_validate_pkt (arrived d c) = Some (e, v)" "e \<noteq> CE_NONE"
  shows "client_receive os c = Some (Goes (received os d addr w (junk_text d) c))"
proof -
  let ?p = "(cl_recv c)\<lparr>pdu_buf := d @ drop (length d) (pdu_buf (cl_recv c)), pdu_len := length d\<rparr>"
  have "coap_validate_pkt ?p = Some (e, ?p\<lparr>pdu_opt_ptr := NULL\<rparr>)"
    using validate_packet [OF assms(3)] assms(3) by simp
  moreover have "hex_dump (pdu_buf ?p) (length d) = Some (hex_text d)"
    using hex_dump_correct [of "length d" "pdu_buf ?p"] by simp
  moreover have "pdu_max (cl_recv c) = MSG_BUF_LEN" using assms(1) by (simp add: client_ok_def)
  ultimately show ?thesis
    using assms(2,4) by (simp add: client_receive_def say_def junk_text_def received_def)
qed

lemma received_ok: "client_ok c \<Longrightarrow> length d \<le> MSG_BUF_LEN \<Longrightarrow> client_ok (received os d addr w txt c)"
  by (auto simp: client_ok_def received_def wf_mem_def MSG_BUF_LEN_def)

lemma client_turn_exact:
  assumes "client_ok c" "cl_rand os (cl_world c) = (r, w1)" "req = client_msg (cl_mid c) (of_nat r)"
    "cl_sendto os (cl_fd c) (encode_msg req) (cl_addr c) w1 = (k, w2)" "k \<noteq> -1"
    "cl_recvfrom os (cl_fd c) MSG_BUF_LEN w2 = (int (length d), d, addr, w3)" "length d \<le> MSG_BUF_LEN"
    "d = encode_msg m \<and> wf_msg m \<and> txt = reply_text req m \<or>
     (\<exists>e v. coap_validate_pkt (arrived d c) = Some (e, v) \<and> e \<noteq> CE_NONE) \<and> txt = junk_text d"
  shows "\<exists>c'. client_turn os c = Some (Goes c') \<and> client_ok c' \<and> cl_addr c' = addr \<and> cl_fd c' = cl_fd c \<and>
     cl_mid c' = cl_mid c + 1 \<and> cl_world c' = cl_sleep os w3 \<and>
     cl_out c' = cl_out c @ dashes @ out_line ''Sent.'' [] @ msg_text req @ txt"
proof -
  let ?out = "cl_out c @ dashes @ out_line ''Sent.'' [] @ msg_text req"
  obtain q where q: "represents q req" "pdu_max q = MSG_BUF_LEN"
    "client_send os c = Some (Goes (c\<lparr>cl_send := q, cl_mid := cl_mid c + 1, cl_world := w2, cl_out := ?out\<rparr>))"
    using client_send_exact [OF assms(1,2) assms(4) [unfolded assms(3)]] assms(3,5) by auto
  let ?c = "c\<lparr>cl_send := q, cl_mid := cl_mid c + 1, cl_world := w2, cl_out := ?out\<rparr>"
  have ok: "client_ok ?c" using assms(1) q(1,2) by (simp add: client_ok_def represents_def)
  have "client_receive os ?c = Some (Goes (received os d addr w3 txt ?c))"
    using assms(8) client_receive_message [OF ok, of req os m addr w3] client_receive_junk [OF ok, of os d addr w3]
      q(1) assms(6,7) by fastforce
  with q(3) received_ok [OF ok assms(7), of os addr w3 "txt"] show ?thesis
    by (simp add: client_turn_def) (simp add: received_def)
qed

lemma client_sock_loop_found:
  "client_sock_loop os qs w = (Some (fd, q), w') \<Longrightarrow> q \<in> set qs \<and> fd \<noteq> -1"
  by (induction qs arbitrary: w) (auto split: prod.splits if_splits)

lemma client_start_ok:
  assumes "client_start os b1 a1 b2 a2 w = Inr c" "length b1 = MSG_BUF_LEN" "length b2 = MSG_BUF_LEN"
  shows "client_ok c"
  using assms by (auto simp: client_start_def client_ok_def wf_mem_def MSG_BUF_LEN_def size_max_def Let_def
      split: prod.splits if_splits option.splits)

end
