(* ===== verification/App_Properties.thy ===== *)
theory App_Properties
  imports Exo_Budget Coap_Client Exo_Example
begin

text \<open>
  The properties of the example programs \<^verbatim>\<open>examples/subscribe.c\<close>, over the Exosite library, and
  \<^verbatim>\<open>picocoap/examples/posix/client.c\<close>, over picocoap alone, and of an application's loop on a silent network.
\<close>

section \<open>Example states\<close>

text \<open>The program's array of operations before it is initialised, and its start on the scripted system.\<close>

definition raw_ops :: "exo_op list" where
  "raw_ops = replicate 4 ex_new_read"

definition ex_start :: "net pal_state plat \<Rightarrow> net pal_state app option" where
  "ex_start P = app_start P (replicate 32 1) (replicate 16 2) (replicate 16 3) ex_lib raw_ops
     (boot_world (Some (replicate 40 98)) 0)"

abbreviation no_file_os :: "(unit, net) posix" where
  "no_file_os \<equiv> script_os\<lparr>sys_fopen := \<lambda>path mode w. (False, w)\<rparr>"




section \<open>subscribe.c\<close>

text \<open>
  C18. The program keeps its operations in order, and a turn can only fail to return in its inner loop. If the platform initialises
  and \<open>exopal_retrieve_cik\<close> keeps to the array it is given, \<open>main\<close> reaches its loop. In every state it then reaches
  between two turns, whatever the network does, the library's state is well-formed, the results that
  are reported are NUL-terminated strings in its own arrays, operation 1 is its subscription, operations 2 and 3 are free or
  writes of its two numbers, and the error count is still 0; and the next turn returns unless the loop
  around \<open>exo_operate\<close> does not. When that loop ends, no operation is new or pending.
\<close>

theorem subscribe_program_invariant:
  assumes "fst (exopal_init P w) = 0" "length (lib_cik lib) = CIK_LENGTH + 1"
    "\<And>cik w. length cik = CIK_LENGTH + 1 \<Longrightarrow> length (fst (snd (exopal_retrieve_cik P cik w))) = CIK_LENGTH + 1"
    "length b1 = 32" "length b2 = 16" "length b3 = 16" "length ops = 4"
  shows "\<exists>a. app_start P b1 b2 b3 lib ops w = Some a \<and>
     (\<forall>b. app_reaches P sleep a b \<longrightarrow> app_inv b \<and> app_errorcount b = 0 \<and>
       (\<exists>b1. write_uptime b = Some b1 \<and>
          (app_turn P sleep b = None \<longleftrightarrow> until_idle P op_count (app_exo b1) = None) \<and>
          (\<forall>s. until_idle P op_count (app_exo b1) = Some s \<longrightarrow>
             (\<forall>op \<in> set (x_ops s). op_state op \<notin> {EXO_REQUEST_NEW, EXO_REQUEST_PENDING}))))"
proof -
  obtain a where a: "app_start P b1 b2 b3 lib ops w = Some a" "app_inv a"
    using app_start_inv [OF assms] by blast
  have "app_inv b \<and> app_errorcount b = 0 \<and> (\<exists>b1. write_uptime b = Some b1 \<and>
      (app_turn P sleep b = None \<longleftrightarrow> until_idle P op_count (app_exo b1) = None) \<and>
      (\<forall>s. until_idle P op_count (app_exo b1) = Some s \<longrightarrow>
         (\<forall>op \<in> set (x_ops s). op_state op \<notin> {EXO_REQUEST_NEW, EXO_REQUEST_PENDING})))"
    if "app_reaches P sleep a b" for b
  proof -
    have b: "app_inv b" using app_reaches_inv [OF that a(2)] .
    obtain b1 where b1: "write_uptime b = Some b1" "app_inv b1"
      "app_turn P sleep b = None \<longleftrightarrow> until_idle P op_count (app_exo b1) = None"
      using app_turn_safe [OF b, of P sleep] by (auto split: if_splits elim: returnsE)
    have "op_state op \<notin> {EXO_REQUEST_NEW, EXO_REQUEST_PENDING}"
      if s: "until_idle P op_count (app_exo b1) = Some s" and op: "op \<in> set (x_ops s)" for s op
    proof -
      have "exo_inv (app_exo b1)" using b1(2) by (simp add: app_inv_iff)
      from until_idle_result [where Q = exo_inv, OF s this] operate_exo_inv obtain s1 where
        "exo_inv s" "exo_operate P op_count s1 = Some (EXO_IDLE, s)" by blast
      then show ?thesis using until_idle_idle op by (fastforce simp: app_ops_def op_count_def)
    qed
    with b b1 show ?thesis by (auto simp: app_inv_iff)
  qed
  with a(1) show ?thesis by blast
qed

theorem subscribe_program_invariant_witness:
  "\<exists>a. ex_start ex_pal = Some a \<and> (\<forall>b. app_reaches ex_pal id a b \<longrightarrow> app_inv b)"
proof -
  have "length (fst (snd (exopal_retrieve_cik ex_pal cik w))) = CIK_LENGTH + 1" if "length cik = CIK_LENGTH + 1" for cik w
    using that by (simp add: posix_pal_def posix_retrieve_cik_def script_os_def Let_def CIK_LENGTH_def split: option.split)
  then show ?thesis
    using subscribe_program_invariant [of ex_pal "boot_world (Some (replicate 40 98)) 0" ex_lib "replicate 32 1" "replicate 16 2"
        "replicate 16 3" raw_ops id]
    by (auto simp: ex_start_def boot_calls raw_ops_def ex_lib_def ex_cik_def CIK_LENGTH_def)
qed

text \<open>
  C40. On a new POSIX device the program hangs: when there is no file with a CIK, \<open>exo_init\<close> fails and leaves the library uninitialised,
  \<open>main\<close> goes on all the same, and its first turn, after it has queued the write of the uptime, calls \<open>exo_operate\<close> for ever: every
  call returns, with EXO_ERROR and the state as it was, so the loop that waits for EXO_IDLE does not end.
\<close>

theorem subscribe_program_hangs:
  assumes "\<And>w. fst (sys_fopen os ''cik'' ''r'' w) = False" "length (lib_cik lib) = CIK_LENGTH + 1"
    "length b1 = 32" "length b2 = 16" "length b3 = 16" "length ops = 4"
  shows "\<exists>a b. app_start (posix_pal os) b1 b2 b3 lib ops w = Some a \<and> write_uptime a = Some b \<and>
     (\<forall>n. operate_calls (posix_pal os) op_count n (app_exo b) = Some (replicate n EXO_ERROR, app_exo b)) \<and>
     until_idle (posix_pal os) op_count (app_exo b) = None \<and> app_turn (posix_pal os) sleep a = None"
proof -
  let ?P = "posix_pal os" and ?s = "\<lparr>x_lib = lib, x_heap = app_heap b1 b2 b3, x_ops = ops, x_world = w\<rparr>"
  have retr: "exopal_retrieve_cik ?P cik w = (2, cik, snd (snd (exopal_retrieve_cik ?P cik w)))" for cik w
    using assms(1) [of "sys w"] by (simp add: posix_pal_def posix_retrieve_cik_def Let_def split_beta)
  then have keeps: "length (fst (snd (exopal_retrieve_cik ?P cik w))) = CIK_LENGTH + 1" if "length cik = CIK_LENGTH + 1" for cik w
    using that by (metis fst_conv snd_conv)
  have init: "fst (exopal_init ?P w) = 0" for w by (simp add: posix_pal_def posix_init_def)
  obtain e s a where s: "exo_init ?P VENDOR MODEL SERIAL ?s = Some (e, s)" "app_start ?P b1 b2 b3 lib ops w = Some a"
    "x_lib (app_exo a) = x_lib s" "app_inv a"
    using app_start_inv [OF init assms(2) keeps assms(3-6)] by blast
  have "fst (exopal_retrieve_cik ?P cik w) = 2" for cik w using retr [of cik w] by (metis fst_conv)
  moreover have "(2 :: u8) > 1" by simp
  ultimately have "lib_device (x_lib s) = EXO_STATE_UNINITIALIZED"
    using s(1) init by (auto simp: exo_init_def split_beta Let_def rand_of_def)
  with app_turn_uninitialized [OF s(4), of ?P sleep] s(2,3) show ?thesis by auto
qed

theorem subscribe_program_hangs_witness:
  "\<exists>a b. ex_start (posix_pal no_file_os) = Some a \<and> write_uptime a = Some b \<and>
     operate_calls (posix_pal no_file_os) op_count 3 (app_exo b) = Some ([EXO_ERROR, EXO_ERROR, EXO_ERROR], app_exo b) \<and>
     app_turn (posix_pal no_file_os) id a = None"
proof -
  have "\<exists>a b. ex_start (posix_pal no_file_os) = Some a \<and> write_uptime a = Some b \<and>
      (\<forall>n. operate_calls (posix_pal no_file_os) op_count n (app_exo b) = Some (replicate n EXO_ERROR, app_exo b)) \<and>
      until_idle (posix_pal no_file_os) op_count (app_exo b) = None \<and> app_turn (posix_pal no_file_os) id a = None"
    unfolding ex_start_def
    by (rule subscribe_program_hangs) (simp_all add: raw_ops_def ex_lib_def ex_cik_def CIK_LENGTH_def)
  moreover have "replicate 3 EXO_ERROR = [EXO_ERROR, EXO_ERROR, EXO_ERROR]" by (simp add: numeral_eq_Suc)
  ultimately show ?thesis by metis
qed

text \<open>
  Errors are not counted: when an operation has failed, the program queues a write of the string \<^verbatim>\<open>0\<close> to
  \<^verbatim>\<open>errorcount\<close> as operation 3, since it never counts the variable up. When the failed operation is operation 3
  itself, the write it has just queued is wiped by the \<open>exo_op_done\<close> that follows.
\<close>

lemma error_count_write:
  assumes "app_inv a" "i \<in> {1, 2, 3}" "op = x_ops (app_exo a) ! i" "exo_is_op_finished op" "\<not> exo_is_op_success op"
  shows "\<exists>b. check_op i a = Some b \<and> str_of (x_heap (app_exo b)) error_str = Some (str_bytes ''0'') \<and>
     (if i = 3 then op_type (x_ops (app_exo b) ! 3) = EXO_NULL
      else op_type (x_ops (app_exo b) ! 3) = EXO_WRITE \<and> op_state (x_ops (app_exo b) ! 3) = EXO_REQUEST_NEW \<and>
           op_alias (x_ops (app_exo b) ! 3) = lit_errorcount \<and> op_value (x_ops (app_exo b) ! 3) = error_str)"
  using check_op_error [OF assms]
  by (auto simp: exo_op_init_def exo_write_def elim!: returnsE)

section \<open>A silent network\<close>

text \<open>
  C7. Requests that nobody answers fail in the end, on a device in EXO_STATE_GOOD: when no datagram arrives, the platform sends what it is
  given, its clock goes on, and the operations are finished, free, or reads, writes and activations that are new or pending, then the loop an
  application runs around \<open>exo_operate\<close> ends. Every request that was waiting is then in EXO_REQUEST_ERROR, and the other operations are as
  they were. (On a device that is not activated, \<open>exo_operate\<close> makes an activation whose time is over a new one before the pass could
  count it, lemma \<open>call_activates\<close>, so there this need not hold.)
\<close>

theorem unanswered_requests_fail:
  assumes "clocked_pal P inq outq clock" "\<forall>bs w. fst (exopal_udp_send P bs w) = 0" "inq (x_world s) = []" "state_ok s"
    "lib_device (x_lib s) = EXO_STATE_GOOD" "x_ops s \<noteq> []" "unat count \<le> length (x_ops s)"
    "\<forall>j < unat count. at_rest (x_ops s ! j) \<or> req_waiting (x_ops s ! j)"
  shows "\<exists>s'. until_idle P count s = Some s' \<and> (\<forall>j < unat count.
     if at_rest (x_ops s ! j) then x_ops s' ! j = x_ops s ! j else op_state (x_ops s' ! j) = EXO_REQUEST_ERROR)"
  using clocked_pal.unanswered_result [OF assms(1), of count s] assms(2-) by (simp add: unanswered_def sends_all_def)

theorem unanswered_requests_fail_witness:
  "\<exists>s'. until_idle (posix_pal tick_os) 3 (ex_state [blank_op, ex_pending EXO_READ, ex_new_read] []) = Some s' \<and>
     op_state (x_ops s' ! 1) = EXO_REQUEST_ERROR \<and> op_state (x_ops s' ! 2) = EXO_REQUEST_ERROR"
proof -
  let ?s = "ex_state [blank_op, ex_pending EXO_READ, ex_new_read] []"
  have ops: "unat (3 :: u8) = 3" "\<forall>j < 3. at_rest (x_ops ?s ! j) \<or> req_waiting (x_ops ?s ! j)" "\<not> at_rest (ex_pending EXO_READ)"
    "\<not> at_rest ex_new_read" "lib_device ex_lib = EXO_STATE_GOOD" "ex_inq (x_world ?s) = []"
    by code_simp+
  have "\<forall>bs w. fst (exopal_udp_send (posix_pal tick_os) bs w) = 0"
    by (simp add: posix_pal_def posix_udp_send_def tick_os_def script_os_def)
  from unanswered_requests_fail [OF tick.clocked_pal_axioms this ops(6) ex_state_ok(1), of 3] ops(1-5)
  obtain s' where s': "until_idle (posix_pal tick_os) 3 ?s = Some s'"
    "\<forall>j < 3. if at_rest (x_ops ?s ! j) then x_ops s' ! j = x_ops ?s ! j else op_state (x_ops s' ! j) = EXO_REQUEST_ERROR"
    by auto
  from spec [OF s'(2), of 1] spec [OF s'(2), of 2] s'(1) ops(3,4) show ?thesis by simp
qed

text \<open>
  C12. How often unanswered requests are sent: in the situation of C7, on a device in EXO_STATE_GOOD, with a platform that sends what it is
  given, a clock that goes on and no datagram arriving, the application's loop around \<open>exo_operate\<close> ends, and by then exactly as
  many datagrams have been sent as the requests are entitled to (\<open>sends_left\<close>): a new request is sent once and then repeated, a pending
  one is repeated, until its retransmissions are COAP_MAX_RETRANSMIT. Each datagram is a well-formed message of at most 576 bytes.
\<close>

theorem unanswered_requests_sent:
  assumes "clocked_pal P inq outq clock" "\<forall>bs w. fst (exopal_udp_send P bs w) = 0" "inq (x_world s) = []" "state_ok s"
    "lib_device (x_lib s) = EXO_STATE_GOOD" "x_ops s \<noteq> []" "unat count \<le> length (x_ops s)"
    "\<forall>j < unat count. at_rest (x_ops s ! j) \<or> req_waiting (x_ops s ! j)"
  shows "\<exists>s' ms. until_idle P count s = Some s' \<and> outq (x_world s') = outq (x_world s) @ map encode_msg ms \<and>
     length ms = sum_list (map sends_left (take (unat count) (x_ops s))) \<and>
     (\<forall>m \<in> set ms. wf_msg m \<and> length (encode_msg m) \<le> MINIMUM_DATAGRAM_SIZE)"
  using clocked_pal.unanswered_sends [OF assms(1), of count s] assms(2-) by (simp add: unanswered_def sends_all_def)

theorem unanswered_requests_sent_witness:
  "\<exists>s'. until_idle (posix_pal tick_os) 3 (ex_state [blank_op, ex_pending EXO_READ, ex_new_read] []) = Some s' \<and>
     length (ex_outq (x_world s')) = 9"
proof -
  let ?s = "ex_state [blank_op, ex_pending EXO_READ, ex_new_read] []"
  have ops: "unat (3 :: u8) = 3" "\<forall>j < 3. at_rest (x_ops ?s ! j) \<or> req_waiting (x_ops ?s ! j)"
    "sum_list (map sends_left (take 3 (x_ops ?s))) = 9" "lib_device ex_lib = EXO_STATE_GOOD" "ex_inq (x_world ?s) = []"
    "ex_outq (x_world ?s) = []"
    by code_simp+
  have "\<forall>bs w. fst (exopal_udp_send (posix_pal tick_os) bs w) = 0"
    by (simp add: posix_pal_def posix_udp_send_def tick_os_def script_os_def)
  from unanswered_requests_sent [OF tick.clocked_pal_axioms this ops(5) ex_state_ok(1), of 3] ops show ?thesis
    by auto
qed

text \<open>
  C21. A subscription that nobody answers keeps the application in its loop: with a well-formed state in which some operation other than the
  first is a subscription that is new or pending, and as long as nothing arrives, every call of \<open>exo_operate\<close> returns, whatever the platform
  does with what it is given to send, none returns EXO_IDLE, and after any number of calls the subscription is still new or pending: it is
  never given up. So the loop around \<open>exo_operate\<close> does not end.
\<close>

theorem silent_subscription_hangs:
  assumes "datagram_pal P inq outq" "inq (x_world s) = []" "state_ok s" "i \<noteq> 0" "i < unat count" "unat count \<le> length (x_ops s)"
    "op_type (x_ops s ! i) = EXO_SUBSCRIBE" "op_state (x_ops s ! i) \<in> {EXO_REQUEST_NEW, EXO_REQUEST_PENDING}"
  shows "(\<forall>n. \<exists>rs s'. operate_calls P count n s = Some (rs, s') \<and> length rs = n \<and> EXO_IDLE \<notin> set rs \<and>
       op_type (x_ops s' ! i) = EXO_SUBSCRIBE \<and> op_state (x_ops s' ! i) \<in> {EXO_REQUEST_NEW, EXO_REQUEST_PENDING}) \<and>
     until_idle P count s = None"
  using datagram_pal.unanswered_subscription [OF assms(1-6)] assms(7,8) by (simp add: sub_waiting_def)

theorem silent_subscription_hangs_witness:
  "(\<exists>rs s'. operate_calls ex_pal 2 5 (ex_state [blank_op, exo_subscribe (Some 1) (Some 2) 8 blank_op] []) = Some (rs, s') \<and>
      length rs = 5 \<and> EXO_IDLE \<notin> set rs) \<and>
   until_idle ex_pal 2 (ex_state [blank_op, exo_subscribe (Some 1) (Some 2) 8 blank_op] []) = None"
proof -
  let ?s = "ex_state [blank_op, exo_subscribe (Some 1) (Some 2) 8 blank_op] []"
  have ok: "state_ok ?s" by (simp add: state_ok_def ex_state_def; code_simp)
  have inq: "ex_inq (x_world ?s) = []" by code_simp
  have "(1 :: nat) \<noteq> 0" "1 < unat (2 :: u8)" "unat (2 :: u8) \<le> length (x_ops ?s)" "op_type (x_ops ?s ! 1) = EXO_SUBSCRIBE"
    "op_state (x_ops ?s ! 1) \<in> {EXO_REQUEST_NEW, EXO_REQUEST_PENDING}"
    by (simp_all add: exo_subscribe_def)
  from silent_subscription_hangs [OF script.datagram_pal_axioms inq ok this] show ?thesis by blast
qed


section \<open>client.c\<close>

text \<open>
  C28. \<open>coap_pretty_print\<close> ends on every packet that holds a message, and what it prints is \<open>msg_text\<close>: length, type, code, message id and
  token, then every option in order with its value up to a NUL. The payload is printed only if the message
  has no options.
\<close>

theorem pretty_print_shows:
  assumes "represents pdu m" "pdu_len pdu < 2147483648"
  shows "coap_pretty_print pdu = Some (msg_text m, pdu\<lparr>pdu_opt_ptr := NULL\<rparr>)"
  using assms by (rule pretty_print_correct)

theorem pretty_print_shows_witness:
  "coap_pretty_print (pdu_of no_observe_msg) = Some
     (str_bytes '' ------ Valid CoAP Packet (10) ------ '' @ [10] @ str_bytes ''Type:  0'' @ [10] @ str_bytes ''Code:  2.05'' @ [10] @
      str_bytes ''MID:   0x7'' @ [10] @ str_bytes ''Token: 0x201'' @ [10] @ str_bytes ''Option: 4'' @ [10] @
      str_bytes '' Value: '' @ [9] @ str_bytes '' (1)'' @ [10], pdu_of no_observe_msg)"
proof -
  have m: "wf_msg no_observe_msg" "length (encode_msg no_observe_msg) = 10"
    by code_simp+
  have "represents (pdu_of no_observe_msg) no_observe_msg"
    using m by (intro pdu_of_represents) simp_all
  from pretty_print_shows [OF this] m(2)
  have "coap_pretty_print (pdu_of no_observe_msg) = Some (msg_text no_observe_msg, pdu_of no_observe_msg)"
    by (simp add: pdu_of_def)
  moreover have "msg_text no_observe_msg =
      str_bytes '' ------ Valid CoAP Packet (10) ------ '' @ [10] @ str_bytes ''Type:  0'' @ [10] @ str_bytes ''Code:  2.05'' @ [10] @
      str_bytes ''MID:   0x7'' @ [10] @ str_bytes ''Token: 0x201'' @ [10] @ str_bytes ''Option: 4'' @ [10] @
      str_bytes '' Value: '' @ [9] @ str_bytes '' (1)'' @ [10]"
    by code_simp
  ultimately show ?thesis by simp
qed



end
