(* ===== verification/Dtls_Client.thy ===== *)
theory Dtls_Client
  imports Coap_Client
begin

text \<open>
  The second program of \<^verbatim>\<open>picocoap/examples/posix/client_dtls.c\<close>: a client that writes and reads a
  dataport, and downloads or uploads in blocks, over DTLS. Its packets are those of libcoap and its transport is
  tinydtls, neither of which is in the repository: both are parameters. The variables it uses and does not declare
  are fields of its state.
\<close>

section \<open>The libraries\<close>

text \<open>
  \<open>'p\<close> is \<open>coap_pdu_t\<close>, \<open>'c\<close> \<open>coap_context_t\<close>, \<open>'b\<close> a block option, \<open>'a\<close> a socket address and \<open>'w\<close> the world. The
  three \<open>lc_opt\<close> functions are the macros COAP_OPT_LENGTH, COAP_OPT_VALUE and COAP_OPT_SIZE at the front of a piece of memory;
  \<open>lc_get_data\<close> gives the length of the data and the memory from there on. \<open>dt_write\<close> and \<open>dt_connect\<close> are given the callback they send with;
  \<open>dt_handle_message\<close> gives the callbacks that a datagram leads to, in order.
\<close>

record lc_opt =
  lc_key :: u16
  lc_data :: bytes

datatype 'a dt_call = Call_write 'a bytes | Call_read bytes | Call_event u16 | Call_key

record ('p, 'c, 'b, 'a, 'w) dlibs =
  COAP_MESSAGE_CON :: u8
  COAP_REQUEST_GET :: u8
  COAP_REQUEST_POST :: u8
  COAP_REQUEST_PUT :: u8
  COAP_OPTION_URI_PATH :: u16
  COAP_OPTION_URI_QUERY :: u16
  COAP_OPTION_BLOCK1 :: u16
  COAP_OPTION_BLOCK2 :: u16
  COAP_RESPONSE_CODE :: "nat \<Rightarrow> u8"
  lc_new_pdu :: "'w \<Rightarrow> 'p option \<times> 'w"
  lc_new_message_id :: "'c option \<Rightarrow> 'w \<Rightarrow> u16 \<times> 'w"
  lc_set_type :: "u8 \<Rightarrow> 'p \<Rightarrow> 'p"
  lc_set_id :: "u16 \<Rightarrow> 'p \<Rightarrow> 'p"
  lc_set_code :: "u8 \<Rightarrow> 'p \<Rightarrow> 'p"
  lc_set_token_length :: "nat \<Rightarrow> 'p \<Rightarrow> 'p"
  lc_add_token :: "bytes \<Rightarrow> 'p \<Rightarrow> bool \<times> 'p"
  lc_add_option :: "u16 \<Rightarrow> bytes \<Rightarrow> 'p \<Rightarrow> 'p"
  lc_add_block :: "bytes \<Rightarrow> u32 \<Rightarrow> u32 \<Rightarrow> 'p \<Rightarrow> 'p"
  lc_add_data :: "bytes \<Rightarrow> 'p \<Rightarrow> 'p"
  lc_hdr :: "'p \<Rightarrow> bytes"
  lc_length :: "'p \<Rightarrow> nat"
  lc_hdr_code :: "'p \<Rightarrow> u8"
  lc_hdr_token_length :: "'p \<Rightarrow> nat"
  lc_hdr_token :: "'p \<Rightarrow> bytes"
  lc_get_data :: "'p \<Rightarrow> nat \<times> bytes option"
  lc_find_option :: "u16 list \<Rightarrow> 'p \<Rightarrow> 'b option"
  lc_block_more :: "'b \<Rightarrow> bool"
  lc_block_szx :: "'b \<Rightarrow> u32"
  lc_block_num :: "'b \<Rightarrow> u32"
  lc_more_blocks :: "nat \<Rightarrow> u32 \<Rightarrow> u32 \<Rightarrow> bool"
  lc_encode_var_bytes :: "u32 \<Rightarrow> bytes"
  lc_split_uri :: "bytes \<Rightarrow> bytes \<times> bytes"
  lc_split_path :: "bytes \<Rightarrow> nat \<Rightarrow> int \<times> bytes"
  lc_split_query :: "bytes \<Rightarrow> nat \<Rightarrow> int \<times> bytes"
  lc_opt_length :: "bytes \<Rightarrow> nat"
  lc_opt_value :: "bytes \<Rightarrow> bytes"
  lc_opt_size :: "bytes \<Rightarrow> nat"
  lc_malloc :: "nat \<Rightarrow> 'w \<Rightarrow> bool \<times> 'w"
  lc_new_listnode :: "'w \<Rightarrow> bool \<times> 'w"
  lc_insert :: "lc_opt option \<Rightarrow> (lc_opt option \<Rightarrow> lc_opt option \<Rightarrow> int) \<Rightarrow> lc_opt list \<Rightarrow> lc_opt list"
  lc_pdu_parse :: "bytes \<Rightarrow> 'p \<Rightarrow> bool \<times> 'p"
  lc_addr_size :: nat
  lc_new_context :: "'a \<Rightarrow> 'w \<Rightarrow> 'c option \<times> 'w"
  DTLS_EVENT_CONNECTED :: u16
  dt_new_context :: "'w \<Rightarrow> bool \<times> 'w"
  dt_connect :: "(bytes \<Rightarrow> 'w \<Rightarrow> int \<times> 'w) \<Rightarrow> 'w \<Rightarrow> int \<times> 'w"
  dt_write :: "(bytes \<Rightarrow> 'w \<Rightarrow> int \<times> 'w) \<Rightarrow> bytes \<Rightarrow> 'w \<Rightarrow> int \<times> 'w"
  dt_handle_message :: "'a \<Rightarrow> bytes \<Rightarrow> 'w \<Rightarrow> 'a dt_call list \<times> int \<times> 'w"
  dt_free_context :: "'w \<Rightarrow> 'w"
  ds_getaddrinfo :: "string \<Rightarrow> string \<Rightarrow> 'w \<Rightarrow> int \<times> 'a list \<times> 'w"
  ds_addrlen :: "'a \<Rightarrow> nat"
  ds_inet :: "'a \<Rightarrow> bool"
  ds_no_addr :: 'a
  ds_set_port :: "nat \<Rightarrow> 'a \<Rightarrow> 'a"
  ds_socket :: "'a \<Rightarrow> 'w \<Rightarrow> int \<times> 'w"
  ds_sendto :: "int \<Rightarrow> bytes \<Rightarrow> 'a \<Rightarrow> 'w \<Rightarrow> int \<times> 'w"
  ds_recvfrom :: "int \<Rightarrow> nat \<Rightarrow> 'w \<Rightarrow> int \<times> bytes \<times> 'a \<times> 'w"
  ds_select :: "int \<Rightarrow> nat \<Rightarrow> 'w \<Rightarrow> int \<times> bool \<times> 'w"
  ds_time :: "'w \<Rightarrow> int \<times> 'w"
  ds_save :: "bytes \<Rightarrow> bytes \<Rightarrow> 'w \<Rightarrow> 'w option"

definition BUFSIZE :: nat where
  "BUFSIZE = 2048"

definition MAX_RETRY :: int where
  "MAX_RETRY = 3"

definition TIMEOUT :: int where
  "TIMEOUT = 5"

definition TEST_READ :: nat where
  "TEST_READ = 2"

definition TEST_WRITE :: nat where
  "TEST_WRITE = 4"


section \<open>The program's state\<close>

text \<open>
  An \<open>int\<close> is a word of 32 bits that \<open>sint\<close> reads. \<open>(int)t\<close> of a time keeps the low 32 bits; a sum or difference that is not an
  \<open>int\<close> is undefined.
\<close>

type_synonym c_int = "32 word"

definition int_add :: "c_int \<Rightarrow> c_int \<Rightarrow> c_int option" where
  "int_add x y = (if sint (x + y) = sint x + sint y then Some (x + y) else None)"

definition int_sub :: "c_int \<Rightarrow> c_int \<Rightarrow> c_int option" where
  "int_sub x y = (if sint (x - y) = sint x - sint y then Some (x - y) else None)"

text \<open>\<open>t_data\<close> is the memory \<open>data\<close> points to.\<close>

record trans_data =
  t_out :: c_int
  t_ack :: c_int
  t_data :: "bytes option"
  t_retry :: c_int

text \<open>
  From \<open>d_sent\<close> on the fields are variables without a declaration. \<open>d_download\<close> is the whole array \<open>download_content\<close>.
\<close>

record ('p, 'c, 'a, 'w) dtls =
  d_connected :: bool
  d_ready :: bool
  d_session :: 'a
  d_last :: trans_data
  d_sock :: int
  d_printed :: bytes
  d_world :: 'w
  d_sent :: "'p option"
  d_token :: bytes
  d_block_flag :: bool
  d_block_num :: u32
  d_block_szx :: u32
  d_optlist :: "lc_opt list"
  d_ctx :: "'c option"
  d_tests :: nat
  d_vendor :: bytes
  d_model :: bytes
  d_content_id :: bytes
  d_model_cik :: bytes
  d_file :: bytes
  d_save_file :: bytes
  d_download :: bytes
  d_download_size :: nat

definition dtls_alias :: bytes where
  "dtls_alias = str_bytes ''temp''"

definition dtls_cik :: bytes where
  "dtls_cik = str_bytes ''a32c85ba9dda45823be416246cf8b433baa068d7''"

definition value_to_write :: bytes where
  "value_to_write = str_bytes ''56''"

definition tell :: "bytes \<Rightarrow> ('p, 'c, 'a, 'w) dtls \<Rightarrow> ('p, 'c, 'a, 'w) dtls" where
  "tell line s = s\<lparr>d_printed := d_printed s @ line\<rparr>"

text \<open>\<open>sent_pdu->hdr\<close> of a NULL \<open>sent_pdu\<close> is an error. \<open>time\<close> returns a time_t, which is cast to \<open>int\<close>.\<close>

definition SET_SEND_TIMESTAMP ::
  "('p, 'c, 'b, 'a, 'w) dlibs \<Rightarrow> ('p, 'c, 'a, 'w) dtls \<Rightarrow> ('p, 'c, 'a, 'w) dtls option" where
  "SET_SEND_TIMESTAMP L s =
     do { let (t, w) = ds_time L (d_world s);
          pdu \<leftarrow> d_sent s;
          retry \<leftarrow> int_add (t_retry (d_last s)) 1;
          Some (s\<lparr>d_world := w,
                  d_last := \<lparr>t_out = word_of_int t, t_ack = 0, t_data = Some (lc_hdr L pdu), t_retry = retry\<rparr>\<rparr>) }"

definition SET_ACK_TIMESTAMP ::
  "('p, 'c, 'b, 'a, 'w) dlibs \<Rightarrow> ('p, 'c, 'a, 'w) dtls \<Rightarrow> ('p, 'c, 'a, 'w) dtls" where
  "SET_ACK_TIMESTAMP L s =
     (let (t, w) = ds_time L (d_world s) in
      s\<lparr>d_world := w, d_last := (d_last s)\<lparr>t_ack := word_of_int t, t_retry := 0\<rparr>\<rparr>)"


section \<open>Building requests\<close>

definition order_opts :: "lc_opt option \<Rightarrow> lc_opt option \<Rightarrow> int" where
  "order_opts a b =
     (case (a, b) of
        (Some a, Some b) \<Rightarrow> if lc_key a < lc_key b then -1 else if lc_key a = lc_key b then 1 else 0
      | (None, Some _) \<Rightarrow> -1
      | _ \<Rightarrow> 1)"

fun add_options :: "('p, 'c, 'b, 'a, 'w) dlibs \<Rightarrow> lc_opt list \<Rightarrow> 'p \<Rightarrow> 'p" where
  "add_options L [] pdu = pdu"
| "add_options L (opt # opts) pdu = add_options L opts (lc_add_option L (lc_key opt) (lc_data opt) pdu)"

definition coap_new_request ::
  "('p, 'c, 'b, 'a, 'w) dlibs \<Rightarrow> u8 \<Rightarrow> bytes \<Rightarrow> ('p, 'c, 'a, 'w) dtls \<Rightarrow> 'p option \<times> ('p, 'c, 'a, 'w) dtls" where
  "coap_new_request L meth payload s =
     (case lc_new_pdu L (d_world s) of
        (None, w) \<Rightarrow> (None, s\<lparr>d_world := w\<rparr>)
      | (Some pdu, w) \<Rightarrow>
          (let pdu = lc_set_type L (COAP_MESSAGE_CON L) pdu;
               (mid, w) = lc_new_message_id L (d_ctx s) w;
               pdu = lc_set_token_length L (length (d_token s)) (lc_set_code L meth (lc_set_id L mid pdu));
               (_, pdu) = lc_add_token L (d_token s) pdu;
               pdu = add_options L (d_optlist s) pdu;
               pdu = (if payload = [] then pdu
                      else if d_block_flag s then lc_add_block L payload (d_block_num s) (d_block_szx s) pdu
                      else lc_add_data L payload pdu) in
           (Some pdu, s\<lparr>d_world := w\<rparr>)))"

text \<open>NULL when one of the two allocations fails. The data is read from \<open>mem\<close>.\<close>

definition new_option_node ::
  "('p, 'c, 'b, 'a, 'w) dlibs \<Rightarrow> u16 \<Rightarrow> nat \<Rightarrow> bytes \<Rightarrow> 'w \<Rightarrow> (lc_opt option \<times> 'w) option" where
  "new_option_node L key len mem w =
     (let (ok, w) = lc_malloc L len w in
      if \<not> ok then Some (None, w)
      else do {
        bs \<leftarrow> mem_read mem 0 len;
        let (ok, w) = lc_new_listnode L w;
        Some (if ok then Some \<lparr>lc_key = key, lc_data = bs\<rparr> else None, w) })"

definition insert_opt ::
  "('p, 'c, 'b, 'a, 'w) dlibs \<Rightarrow> u16 \<Rightarrow> nat \<Rightarrow> bytes \<Rightarrow> ('p, 'c, 'a, 'w) dtls \<Rightarrow> ('p, 'c, 'a, 'w) dtls option" where
  "insert_opt L key len mem s =
     do { (node, w) \<leftarrow> new_option_node L key len mem (d_world s);
          Some (s\<lparr>d_world := w, d_optlist := lc_insert L node order_opts (d_optlist s)\<rparr>) }"

text \<open>The loop over the addresses in \<open>get_context\<close>.\<close>

fun context_loop :: "('p, 'c, 'b, 'a, 'w) dlibs \<Rightarrow> 'a list \<Rightarrow> 'w \<Rightarrow> 'c option \<times> 'w" where
  "context_loop L [] w = (None, w)"
| "context_loop L (a # as) w =
     (if ds_addrlen L a \<le> lc_addr_size L then
        (case lc_new_context L a w of
           (Some ctx, w) \<Rightarrow> (Some ctx, w)
         | (None, w) \<Rightarrow> context_loop L as w)
      else context_loop L as w)"

definition get_context :: "('p, 'c, 'b, 'a, 'w) dlibs \<Rightarrow> string \<Rightarrow> string \<Rightarrow> 'w \<Rightarrow> 'c option \<times> 'w" where
  "get_context L node port w =
     (let (e, result, w) = ds_getaddrinfo L node port w in
      if e \<noteq> 0 then (None, w) else context_loop L result w)"

text \<open>
  \<open>while (res--)\<close> over the options that \<open>coap_split_path\<close> and \<open>coap_split_query\<close> left in \<open>buf\<close>.
\<close>

fun insert_segments ::
  "('p, 'c, 'b, 'a, 'w) dlibs \<Rightarrow> u16 \<Rightarrow> nat \<Rightarrow> bytes \<Rightarrow> ('p, 'c, 'a, 'w) dtls \<Rightarrow> ('p, 'c, 'a, 'w) dtls option" where
  "insert_segments L key 0 buf s = Some s"
| "insert_segments L key (Suc n) buf s =
     (if buf = [] then None
      else do { s \<leftarrow> insert_opt L key (lc_opt_length L buf) (lc_opt_value L buf) s;
                insert_segments L key n (drop (lc_opt_size L buf) buf) s })"

text \<open>A negative count is counted down until it overflows, or the loop leaves the buffer before.\<close>

definition insert_split ::
  "('p, 'c, 'b, 'a, 'w) dlibs \<Rightarrow> u16 \<Rightarrow> int \<times> bytes \<Rightarrow> ('p, 'c, 'a, 'w) dtls \<Rightarrow> ('p, 'c, 'a, 'w) dtls option" where
  "insert_split L key split s =
     (let (res, buf) = split in if res < 0 then None else insert_segments L key (nat res) buf s)"

text \<open>\<open>tmp\<close> has four bytes; the block number is an unsigned int, as in libcoap's \<open>coap_block_t\<close>.\<close>

definition get_pdu ::
  "('p, 'c, 'b, 'a, 'w) dlibs \<Rightarrow> bytes \<Rightarrow> u8 \<Rightarrow> bytes \<Rightarrow> ('p, 'c, 'a, 'w) dtls \<Rightarrow>
     ('p option \<times> ('p, 'c, 'a, 'w) dtls) option" where
  "get_pdu L url meth payload s =
     do {
       let s = s\<lparr>d_optlist := []\<rparr>;
       let (path, query) = lc_split_uri L url;
       s \<leftarrow> (if path \<noteq> [] then insert_split L (COAP_OPTION_URI_PATH L) (lc_split_path L path BUFSIZE) s else Some s);
       s \<leftarrow> (if query \<noteq> [] then insert_split L (COAP_OPTION_URI_QUERY L) (lc_split_query L query BUFSIZE) s else Some s);
       let s = (if d_ctx s = None
                then (let (ctx, w) = get_context L ''0.0.0.0'' ''0'' (d_world s) in s\<lparr>d_ctx := ctx, d_world := w\<rparr>)
                else s);
       s \<leftarrow> (if d_block_flag s then
               (let opt = (if meth = COAP_REQUEST_GET L then COAP_OPTION_BLOCK2 L else COAP_OPTION_BLOCK1 L);
                    more = (if lc_more_blocks L (length payload) (d_block_num s) (d_block_szx s) then 8 else 0);
                    tmp = lc_encode_var_bytes L (push_bit 4 (d_block_num s) OR d_block_szx s OR more) in
                if 4 < length tmp then None else insert_opt L opt (length tmp) tmp s)
             else Some s);
       Some (coap_new_request L meth payload s) }"

text \<open>\<open>strcat(dest, s)\<close> where \<open>dest\<close> has BUFSIZE bytes and holds the string \<open>d\<close>.\<close>

definition cat_dest :: "bytes \<Rightarrow> bytes \<Rightarrow> bytes option" where
  "cat_dest s d = (if length d + length s < BUFSIZE then Some (d @ s) else None)"

definition get_pdu_activate ::
  "('p, 'c, 'b, 'a, 'w) dlibs \<Rightarrow> bytes \<Rightarrow> bytes \<Rightarrow> bytes \<Rightarrow> ('p, 'c, 'a, 'w) dtls \<Rightarrow>
     ('p option \<times> ('p, 'c, 'a, 'w) dtls) option" where
  "get_pdu_activate L vendor model serial_number s =
     do { dest \<leftarrow> cat_dest (str_bytes ''coap://0.0.0.0/provision/activate/'') [];
          dest \<leftarrow> cat_dest vendor dest;
          dest \<leftarrow> cat_dest (str_bytes ''/'') dest;
          dest \<leftarrow> cat_dest model dest;
          dest \<leftarrow> cat_dest (str_bytes ''/'') dest;
          dest \<leftarrow> cat_dest serial_number dest;
          get_pdu L dest (COAP_REQUEST_POST L) [] s }"

definition get_pdu_download_content ::
  "('p, 'c, 'b, 'a, 'w) dlibs \<Rightarrow> ('p, 'c, 'a, 'w) dtls \<Rightarrow> ('p option \<times> ('p, 'c, 'a, 'w) dtls) option" where
  "get_pdu_download_content L s =
     do { dest \<leftarrow> cat_dest (str_bytes ''coap://0.0.0.0/provision/download/'') [];
          dest \<leftarrow> cat_dest (d_vendor s) dest;
          dest \<leftarrow> cat_dest (str_bytes ''/'') dest;
          dest \<leftarrow> cat_dest (d_model s) dest;
          dest \<leftarrow> cat_dest (str_bytes ''/'') dest;
          dest \<leftarrow> cat_dest (d_content_id s) dest;
          dest \<leftarrow> cat_dest (str_bytes ''?'') dest;
          dest \<leftarrow> cat_dest (d_model_cik s) dest;
          get_pdu L dest (COAP_REQUEST_GET L) [] (s\<lparr>d_block_flag := True\<rparr>) }"

definition get_pdu_read1p ::
  "('p, 'c, 'b, 'a, 'w) dlibs \<Rightarrow> bytes \<Rightarrow> bytes \<Rightarrow> ('p, 'c, 'a, 'w) dtls \<Rightarrow>
     ('p option \<times> ('p, 'c, 'a, 'w) dtls) option" where
  "get_pdu_read1p L cik alias s =
     do { dest \<leftarrow> cat_dest (str_bytes ''coap://0.0.0.0/1a/'') [];
          dest \<leftarrow> cat_dest alias dest;
          dest \<leftarrow> cat_dest (str_bytes ''?'') dest;
          dest \<leftarrow> cat_dest cik dest;
          get_pdu L dest (COAP_REQUEST_GET L) [] s }"

definition get_pdu_write1p ::
  "('p, 'c, 'b, 'a, 'w) dlibs \<Rightarrow> bytes \<Rightarrow> bytes \<Rightarrow> bytes \<Rightarrow> ('p, 'c, 'a, 'w) dtls \<Rightarrow>
     ('p option \<times> ('p, 'c, 'a, 'w) dtls) option" where
  "get_pdu_write1p L cik alias value s =
     do { dest \<leftarrow> cat_dest (str_bytes ''coap://0.0.0.0/1a/'') [];
          dest \<leftarrow> cat_dest alias dest;
          dest \<leftarrow> cat_dest (str_bytes ''?'') dest;
          dest \<leftarrow> cat_dest cik dest;
          get_pdu L dest (COAP_REQUEST_POST L) value s }"

definition get_pdu_block_upload ::
  "('p, 'c, 'b, 'a, 'w) dlibs \<Rightarrow> bytes \<Rightarrow> bytes \<Rightarrow> bytes \<Rightarrow> ('p, 'c, 'a, 'w) dtls \<Rightarrow>
     ('p option \<times> ('p, 'c, 'a, 'w) dtls) option" where
  "get_pdu_block_upload L cik alias data s =
     do { dest \<leftarrow> cat_dest (str_bytes ''coap://0.0.0.0/1a/'') [];
          dest \<leftarrow> cat_dest alias dest;
          dest \<leftarrow> cat_dest (str_bytes ''?'') dest;
          dest \<leftarrow> cat_dest cik dest;
          get_pdu L dest (COAP_REQUEST_PUT L) data (s\<lparr>d_block_flag := True\<rparr>) }"


section \<open>Received messages\<close>

definition get_block :: "('p, 'c, 'b, 'a, 'w) dlibs \<Rightarrow> 'p \<Rightarrow> 'b option" where
  "get_block L pdu = lc_find_option L [COAP_OPTION_BLOCK1 L, COAP_OPTION_BLOCK2 L] pdu"

definition check_token :: "('p, 'c, 'b, 'a, 'w) dlibs \<Rightarrow> bytes \<Rightarrow> 'p \<Rightarrow> bool option" where
  "check_token L the_token pdu =
     (if lc_hdr_token_length L pdu = length the_token
      then do { bs \<leftarrow> mem_read (lc_hdr_token L pdu) 0 (length the_token); Some (bs = the_token) }
      else Some False)"

definition send_to_peer :: "('p, 'c, 'b, 'a, 'w) dlibs \<Rightarrow> int \<Rightarrow> 'a \<Rightarrow> bytes \<Rightarrow> 'w \<Rightarrow> int \<times> 'w" where
  "send_to_peer L fd session data w = ds_sendto L fd data session w"

text \<open>\<open>dtls_write(dtls_context, &session, mem, len)\<close>; what it returns is dropped.\<close>

definition write_dtls ::
  "('p, 'c, 'b, 'a, 'w) dlibs \<Rightarrow> bytes \<Rightarrow> nat \<Rightarrow> ('p, 'c, 'a, 'w) dtls \<Rightarrow> ('p, 'c, 'a, 'w) dtls option" where
  "write_dtls L mem len s =
     do { bs \<leftarrow> mem_read mem 0 len;
          Some (s\<lparr>d_world := snd (dt_write L (send_to_peer L (d_sock s) (d_session s)) bs (d_world s))\<rparr>) }"

text \<open>\<open>sent_pdu = ...; dtls_write(..., (uint8*)sent_pdu->hdr, sent_pdu->length);\<close>\<close>

definition send_pdu_of ::
  "('p, 'c, 'b, 'a, 'w) dlibs \<Rightarrow> ('p option \<times> ('p, 'c, 'a, 'w) dtls) option \<Rightarrow> ('p, 'c, 'a, 'w) dtls option" where
  "send_pdu_of L built =
     do { (p, s) \<leftarrow> built;
          pdu \<leftarrow> p;
          write_dtls L (lc_hdr L pdu) (lc_length L pdu) (s\<lparr>d_sent := Some pdu\<rparr>) }"

definition next_block ::
  "('p, 'c, 'b, 'a, 'w) dlibs \<Rightarrow> (('p, 'c, 'a, 'w) dtls \<Rightarrow> ('p option \<times> ('p, 'c, 'a, 'w) dtls) option) \<Rightarrow>
     ('p, 'c, 'a, 'w) dtls \<Rightarrow> ('p, 'c, 'a, 'w) dtls option" where
  "next_block L build s =
     do { let s = SET_ACK_TIMESTAMP L s;
          s \<leftarrow> send_pdu_of L (build (s\<lparr>d_block_num := d_block_num s + 1\<rparr>));
          SET_SEND_TIMESTAMP L s }"

definition tell_block :: "('p, 'c, 'b, 'a, 'w) dlibs \<Rightarrow> 'b \<Rightarrow> ('p, 'c, 'a, 'w) dtls \<Rightarrow> ('p, 'c, 'a, 'w) dtls" where
  "tell_block L b =
     tell (str_bytes ''found the M bit, block size is '' @ dec_digits (unat (lc_block_szx L b)) @
       str_bytes '', block nr. '' @ dec_digits (unat (lc_block_num L b)) @ [10])"

text \<open>\<open>if (databuf) PRINTF("payload: '%s'\n", databuf);\<close>\<close>

definition tell_payload :: "bytes option \<Rightarrow> ('p, 'c, 'a, 'w) dtls \<Rightarrow> ('p, 'c, 'a, 'w) dtls option" where
  "tell_payload databuf s =
     (case databuf of
        None \<Rightarrow> Some s
      | Some mem \<Rightarrow> do { v \<leftarrow> cstr mem; Some (tell (str_bytes ''payload: '' @ [39] @ v @ [39, 10]) s) })"

text \<open>\<open>strcat(download_content, (char*)databuf);\<close>\<close>

definition cat_download :: "bytes option \<Rightarrow> ('p, 'c, 'a, 'w) dtls \<Rightarrow> ('p, 'c, 'a, 'w) dtls option" where
  "cat_download databuf s =
     do { mem \<leftarrow> databuf;
          v \<leftarrow> cstr mem;
          n \<leftarrow> strlen (d_download s);
          content \<leftarrow> mem_write (d_download s) n (v @ [0]);
          Some (s\<lparr>d_download := content\<rparr>) }"

text \<open>\<open>fopen\<close>, \<open>fwrite\<close> and \<open>fclose\<close>; a file that cannot be opened is an error, since \<open>fp\<close> is not checked.\<close>

definition save_download :: "('p, 'c, 'b, 'a, 'w) dlibs \<Rightarrow> ('p, 'c, 'a, 'w) dtls \<Rightarrow> ('p, 'c, 'a, 'w) dtls option" where
  "save_download L s =
     do { bs \<leftarrow> mem_read (d_download s) 0 (d_download_size s);
          w \<leftarrow> ds_save L (d_save_file s) bs (d_world s);
          Some (tell (str_bytes ''Downloaded content is saved to file '' @ [39] @ d_save_file s @ [39, 46, 10]) (s\<lparr>d_world := w\<rparr>)) }"

definition message_handler ::
  "('p, 'c, 'b, 'a, 'w) dlibs \<Rightarrow> 'p \<Rightarrow> ('p, 'c, 'a, 'w) dtls \<Rightarrow> ('p, 'c, 'a, 'w) dtls option" where
  "message_handler L pdu s =
     do {
       let code = lc_hdr_code L pdu;
       let s = tell (str_bytes ''Receive '' @ dec_digits (unat (drop_bit 5 code)) @ [46] @
                     zeros 2 (dec_digits (unat (code AND 0x1F))) @ str_bytes '' response.'' @ [10, 10]) s;
       ours \<leftarrow> check_token L (d_token s) pdu;
       if \<not> ours then Some s
       else do {
         let (len, databuf) = lc_get_data L pdu;
         let block_opt = get_block L pdu;
         if code = COAP_RESPONSE_CODE L 205 then
           (case block_opt of
              Some b \<Rightarrow> do {
                let s = s\<lparr>d_download_size := d_download_size s + len\<rparr>;
                if lc_block_more L b then do {
                  s \<leftarrow> cat_download databuf (tell_block L b s);
                  next_block L (get_pdu_download_content L) s }
                else do {
                  s \<leftarrow> cat_download databuf s;
                  s \<leftarrow> save_download L s;
                  Some (s\<lparr>d_ready := False\<rparr>) } }
            | None \<Rightarrow> do { s \<leftarrow> tell_payload databuf s; Some (s\<lparr>d_ready := False\<rparr>) })
         else if code = COAP_RESPONSE_CODE L 204 then do { s \<leftarrow> tell_payload databuf s; Some (s\<lparr>d_ready := False\<rparr>) }
         else
           (case block_opt of
              Some b \<Rightarrow>
                if code = COAP_RESPONSE_CODE L 231 then
                  (if lc_block_more L b
                   then next_block L (\<lambda>s. get_pdu_block_upload L dtls_cik dtls_alias (d_file s) s) (tell_block L b s)
                   else Some s)
                else do { s \<leftarrow> tell_payload databuf s; Some (s\<lparr>d_ready := False\<rparr>) }
            | None \<Rightarrow> do { s \<leftarrow> tell_payload databuf s; Some (s\<lparr>d_ready := False\<rparr>) }) } }"


section \<open>The callbacks of tinydtls\<close>

text \<open>The identity and the key; \<open>key_length\<close> counts the NUL of the literal.\<close>

definition get_key :: "bytes \<times> bytes" where
  "get_key = (take 15 (c_literal ''Client_identity''), take 9 (c_literal ''ex0CoAPs''))"

definition handle_event :: "('p, 'c, 'b, 'a, 'w) dlibs \<Rightarrow> u16 \<Rightarrow> ('p, 'c, 'a, 'w) dtls \<Rightarrow> ('p, 'c, 'a, 'w) dtls" where
  "handle_event L code s = (if code = DTLS_EVENT_CONNECTED L then s\<lparr>d_connected := True\<rparr> else s)"

text \<open>A NULL from \<open>coap_new_pdu\<close> is handed to \<open>coap_pdu_parse\<close>, which is an error.\<close>

definition read_from_server ::
  "('p, 'c, 'b, 'a, 'w) dlibs \<Rightarrow> bytes \<Rightarrow> ('p, 'c, 'a, 'w) dtls \<Rightarrow> ('p, 'c, 'a, 'w) dtls option" where
  "read_from_server L data s =
     do { let (p, w) = lc_new_pdu L (d_world s);
          pdu \<leftarrow> p;
          let (ok, received_pdu) = lc_pdu_parse L data pdu;
          let s = s\<lparr>d_world := w\<rparr>;
          if ok then message_handler L received_pdu s
          else Some (tell (str_bytes ''Invalid CoAP message!'') s) }"

definition dt_callback ::
  "('p, 'c, 'b, 'a, 'w) dlibs \<Rightarrow> 'a dt_call \<Rightarrow> ('p, 'c, 'a, 'w) dtls \<Rightarrow> ('p, 'c, 'a, 'w) dtls option" where
  "dt_callback L call s =
     (case call of
        Call_write session data \<Rightarrow> Some (s\<lparr>d_world := snd (send_to_peer L (d_sock s) session data (d_world s))\<rparr>)
      | Call_read data \<Rightarrow> read_from_server L data s
      | Call_event code \<Rightarrow> Some (handle_event L code s)
      | Call_key \<Rightarrow> Some s)"

fun dt_callbacks ::
  "('p, 'c, 'b, 'a, 'w) dlibs \<Rightarrow> 'a dt_call list \<Rightarrow> ('p, 'c, 'a, 'w) dtls \<Rightarrow> ('p, 'c, 'a, 'w) dtls option" where
  "dt_callbacks L [] s = Some s"
| "dt_callbacks L (c # cs) s = Option.bind (dt_callback L c s) (dt_callbacks L cs)"

definition dtls_handle_read ::
  "('p, 'c, 'b, 'a, 'w) dlibs \<Rightarrow> ('p, 'c, 'a, 'w) dtls \<Rightarrow> (int \<times> ('p, 'c, 'a, 'w) dtls) option" where
  "dtls_handle_read L s =
     (if d_sock s = 0 then Some (-1, s)
      else
        (let (len, data, addr, w) = ds_recvfrom L (d_sock s) BUFSIZE (d_world s); s = s\<lparr>d_world := w\<rparr> in
         if len < 0 then Some (-1, s)
         else
           (let (calls, r, w) = dt_handle_message L addr data (d_world s) in
            do { s \<leftarrow> dt_callbacks L calls (s\<lparr>d_world := w\<rparr>); Some (r, s) })))"


section \<open>The main loop\<close>

text \<open>\<open>result == 0\<close>; the flag says that the loop is left.\<close>

definition on_timeout ::
  "('p, 'c, 'b, 'a, 'w) dlibs \<Rightarrow> ('p, 'c, 'a, 'w) dtls \<Rightarrow> (bool \<times> ('p, 'c, 'a, 'w) dtls) option" where
  "on_timeout L s =
     (if sint (t_out (d_last s)) > 0 \<and> t_ack (d_last s) = 0 then
        (let (t, w) = ds_time L (d_world s); s = s\<lparr>d_world := w\<rparr> in
         do {
           elapsed \<leftarrow> int_sub (word_of_int t) (t_out (d_last s));
           if sint elapsed > TIMEOUT then
             (if sint (t_retry (d_last s)) \<le> MAX_RETRY then do {
                data \<leftarrow> t_data (d_last s);
                pdu \<leftarrow> d_sent s;
                s \<leftarrow> write_dtls L data (lc_length L pdu) s;
                s \<leftarrow> SET_SEND_TIMESTAMP L s;
                Some (False, s) }
              else Some (True, tell (str_bytes ''Failed: reach retry limit'') s))
           else Some (False, s) })
      else Some (False, s))"

definition send_test ::
  "('p, 'c, 'b, 'a, 'w) dlibs \<Rightarrow> nat \<Rightarrow> bytes \<Rightarrow> ('p option \<times> ('p, 'c, 'a, 'w) dtls) option \<Rightarrow>
     ('p, 'c, 'a, 'w) dtls turn option" where
  "send_test L test line built =
     do { s \<leftarrow> send_pdu_of L (do { (p, s) \<leftarrow> built; Some (p, tell line s) });
          Some (Goes (s\<lparr>d_tests := d_tests s - test, d_ready := True\<rparr>)) }"

text \<open>The rest of a turn: start the next test case, or leave when all are done.\<close>

definition next_test ::
  "('p, 'c, 'b, 'a, 'w) dlibs \<Rightarrow> ('p, 'c, 'a, 'w) dtls \<Rightarrow> ('p, 'c, 'a, 'w) dtls turn option" where
  "next_test L s =
     (if d_connected s \<and> \<not> d_ready s \<and> d_tests s AND TEST_WRITE \<noteq> 0 then
        send_test L TEST_WRITE
          (str_bytes ''Write data '' @ [39] @ value_to_write @ [39] @ str_bytes '' to '' @ [39] @ dtls_alias @ [39, 46, 46, 10])
          (get_pdu_write1p L dtls_cik dtls_alias value_to_write s)
      else if d_connected s \<and> \<not> d_ready s \<and> d_tests s AND TEST_READ \<noteq> 0 then
        send_test L TEST_READ
          (str_bytes ''Read data from alias '' @ [39] @ dtls_alias @ [39, 46, 46, 10])
          (get_pdu_read1p L dtls_cik dtls_alias s)
      else if d_tests s = 0 \<and> \<not> d_ready s then Some (Exits 0 s)
      else Some (Goes s))"

definition dtls_turn ::
  "('p, 'c, 'b, 'a, 'w) dlibs \<Rightarrow> ('p, 'c, 'a, 'w) dtls \<Rightarrow> ('p, 'c, 'a, 'w) dtls turn option" where
  "dtls_turn L s =
     (let (result, isset, w) = ds_select L (d_sock s) 2 (d_world s); s = s\<lparr>d_world := w\<rparr> in
      if result < 0 then next_test L s
      else if result = 0 then
        do { (leave, s) \<leftarrow> on_timeout L s; if leave then Some (Exits 0 s) else next_test L s }
      else
        do { s \<leftarrow> (if isset then do { (_, s) \<leftarrow> dtls_handle_read L s; Some s } else Some s); next_test L s })"

text \<open>\<open>while (1)\<close> and the exit; \<open>None\<close> also when it runs for ever.\<close>

partial_function (option) dtls_loop ::
  "('p, 'c, 'b, 'a, 'w) dlibs \<Rightarrow> ('p, 'c, 'a, 'w) dtls \<Rightarrow> (int \<times> ('p, 'c, 'a, 'w) dtls) option" where
  "dtls_loop L s =
     Option.bind (dtls_turn L s) (\<lambda>t.
       case t of Goes s \<Rightarrow> dtls_loop L s
       | Exits code s \<Rightarrow> Some (code, s\<lparr>d_world := dt_free_context L (d_world s)\<rparr>))"

declare dtls_loop.simps [code]

text \<open>\<open>addrstr\<close> has 256 bytes, the last of which has to be the NUL; a missing server is \<^verbatim>\<open>localhost\<close>.\<close>

definition resolve_address ::
  "('p, 'c, 'b, 'a, 'w) dlibs \<Rightarrow> string \<Rightarrow> 'a \<Rightarrow> 'w \<Rightarrow> (int \<times> 'a \<times> 'w) option" where
  "resolve_address L server dst w =
     (if 256 \<le> length server then None
      else
        (let (e, res, w) = ds_getaddrinfo L (if server \<noteq> [] then server else ''localhost'') [] w in
         if e \<noteq> 0 then Some (e, dst, w)
         else
           (case find (ds_inet L) res of
              Some a \<Rightarrow> Some (int (ds_addrlen L a), a, w)
            | None \<Rightarrow> Some (-1, dst, w))))"

text \<open>
  The second \<open>main\<close> up to its loop. \<open>s0\<close> holds the variables without a declaration; \<open>Inl\<close> is an exit.
\<close>

definition dtls_start ::
  "('p, 'c, 'b, 'a, 'w) dlibs \<Rightarrow> ('p, 'c, 'a, 'w) dtls \<Rightarrow> (int + ('p, 'c, 'a, 'w) dtls) option" where
  "dtls_start L s0 =
     (let s = s0\<lparr>d_connected := False, d_ready := False, d_session := ds_no_addr L,
                 d_last := \<lparr>t_out = 0, t_ack = 0, t_data = None, t_retry = 0\<rparr>\<rparr> in
      do {
        (res, addr, w) \<leftarrow> resolve_address L ''173.255.243.158'' (d_session s) (d_world s);
        if res < 0 then Some (Inl (-1))
        else do {
          let addr = ds_set_port L 20220 addr;
          let (sock, w) = ds_socket L addr w;
          let (ok, w) = dt_new_context L w;
          if \<not> ok then Some (Inl (-1))
          else do {
            let (_, w) = dt_connect L (send_to_peer L sock addr) w;
            Some (Inr (s\<lparr>d_session := addr, d_sock := sock, d_world := w\<rparr>)) } } })"


section \<open>get_file_content\<close>

text \<open>
  The content of the file, if it can be opened, and what \<open>fread\<close> of one item of its size returns. \<open>fc_closed\<close> says
  whether the file was closed. The function is not called.
\<close>

record file_content =
  fc_size :: nat
  fc_content :: bytes
  fc_closed :: bool

definition get_file_content :: "bytes option \<Rightarrow> nat \<Rightarrow> file_content option" where
  "get_file_content content items =
     do { bs \<leftarrow> content;
          let size = length bs;
          Some \<lparr>fc_size = size, fc_content = bs, fc_closed = (if size \<noteq> items then False else True)\<rparr> }"

end
