(* ===== verification/Dtls_Runs.thy ===== *)
theory Dtls_Runs
  imports Dtls_Client
begin

text \<open>
  Runs of the DTLS client: what the loop does while nothing arrives, and what a download leaves in the file.
\<close>

section \<open>Requests that are not repeated\<close>

fun dtls_turns ::
  "('p, 'c, 'b, 'a, 'w) dlibs \<Rightarrow> nat \<Rightarrow> ('p, 'c, 'a, 'w) dtls \<Rightarrow> ('p, 'c, 'a, 'w) dtls turn option" where
  "dtls_turns L 0 s = Some (Goes s)"
| "dtls_turns L (Suc n) s =
     Option.bind (dtls_turn L s) (\<lambda>t. case t of Goes s \<Rightarrow> dtls_turns L n s | Exits code s \<Rightarrow> Some (Exits code s))"

text \<open>\<open>select\<close> times out.\<close>

definition times_out :: "('p, 'c, 'b, 'a, 'w) dlibs \<Rightarrow> bool" where
  "times_out L \<longleftrightarrow> (\<forall>fd n w. fst (ds_select L fd n w) = 0)"

definition waited :: "('p, 'c, 'b, 'a, 'w) dlibs \<Rightarrow> ('p, 'c, 'a, 'w) dtls \<Rightarrow> ('p, 'c, 'a, 'w) dtls" where
  "waited L s = s\<lparr>d_world := snd (snd (ds_select L (d_sock s) 2 (d_world s)))\<rparr>"

lemma waited_simps [simp]:
  "d_ready (waited L s) = d_ready s" "d_last (waited L s) = d_last s" "d_sent (waited L s) = d_sent s"
  "d_printed (waited L s) = d_printed s" "d_tests (waited L s) = d_tests s" "d_sock (waited L s) = d_sock s"
  by (simp_all add: waited_def)

lemma quiet_turn_dtls:
  assumes "times_out L"
  shows "dtls_turn L s =
     do { (leave, s) \<leftarrow> on_timeout L (waited L s); if leave then Some (Exits 0 s) else next_test L s }"
  using assms by (simp add: dtls_turn_def times_out_def waited_def split_beta)

lemma next_test_ready: "d_ready s \<Longrightarrow> next_test L s = Some (Goes s)"
  by (simp add: next_test_def)

lemma untimed_turn:
  assumes "times_out L" "sint (t_out (d_last s)) \<le> 0" "d_ready s"
  shows "dtls_turn L s = Some (Goes (waited L s))"
  using assms by (simp add: quiet_turn_dtls on_timeout_def next_test_ready)

lemma dtls_loop_result:
  assumes "dtls_loop L s = Some r" "Q s"
    "\<And>s1 t. dtls_turn L s1 = Some t \<Longrightarrow> Q s1 \<Longrightarrow> \<exists>s2. t = Goes s2 \<and> Q s2"
  shows False
proof -
  have "L = L \<longrightarrow> Q s \<longrightarrow> False"
  proof (rule dtls_loop.raw_induct [where P = "\<lambda>L' s r. L' = L \<longrightarrow> Q s \<longrightarrow> False", OF _ assms(1)], intro impI, goal_cases)
    case (1 loop L' s r)
    obtain t where t: "dtls_turn L s = Some t" using 1(2,3) by (auto simp: bind_eq_Some_conv)
    from assms(3) [OF this 1(4)] obtain s2 where "t = Goes s2" "Q s2" by blast
    with 1(1-3) t show ?case by auto
  qed
  then show ?thesis using assms(2) by simp
qed

lemma untimed_waits:
  assumes "times_out L" "sint (t_out (d_last s)) \<le> 0" "d_ready s"
  shows "dtls_turns L n s = Some (Goes ((waited L ^^ n) s))" "dtls_loop L s = None"
proof -
  show "dtls_turns L n s = Some (Goes ((waited L ^^ n) s))"
    using assms by (induction n arbitrary: s) (simp_all add: untimed_turn funpow_swap1)
  show "dtls_loop L s = None"
  proof (rule ccontr)
    assume "dtls_loop L s \<noteq> None"
    then obtain r where "dtls_loop L s = Some r" by blast
    then show False
      by (rule dtls_loop_result [where Q = "\<lambda>s. sint (t_out (d_last s)) \<le> 0 \<and> d_ready s"])
        (use assms in \<open>auto simp: untimed_turn\<close>)
  qed
qed

text \<open>
  From the year 2038 on, for as long as the cast of the time to \<open>int\<close> is negative, a block is not repeated either: the time stamp is
  negative, which the time-out branch takes for a missing one.
\<close>

lemma late_stamp_waits:
  assumes "times_out L" "SET_SEND_TIMESTAMP L s = Some s'" "d_ready s"
    "2 ^ 31 \<le> fst (ds_time L (d_world s))" "fst (ds_time L (d_world s)) < 2 ^ 32"
  shows "dtls_turns L n s' = Some (Goes ((waited L ^^ n) s'))" "dtls_loop L s' = None"
proof -
  let ?t = "fst (ds_time L (d_world s))"
  have "signed_take_bit 31 (?t - 2 ^ 32) = ?t - 2 ^ 32"
    using assms(4,5) by (intro signed_take_bit_int_eq_self) simp_all
  moreover have "(word_of_int (?t - 2 ^ 32) :: c_int) = word_of_int ?t"
    by (simp add: word_of_int_eq_iff take_bit_eq_mod)
  ultimately have "sint (word_of_int ?t :: c_int) = ?t - 2 ^ 32"
    using sint_sbintrunc' [of "?t - 2 ^ 32", where 'a = 32] by (simp del: of_int_diff)
  moreover have "t_out (d_last s') = word_of_int ?t" "d_ready s'"
    using assms(2,3) by (auto simp: SET_SEND_TIMESTAMP_def split_beta Let_def bind_eq_Some_conv)
  ultimately have "sint (t_out (d_last s')) \<le> 0" "d_ready s'" using assms(5) by simp_all
  with assms(1) show "dtls_turns L n s' = Some (Goes ((waited L ^^ n) s'))" "dtls_loop L s' = None"
    by (rule untimed_waits)+
qed


section \<open>What building a request keeps\<close>

text \<open>A property of the state that the insertion of an option keeps, and that is not about the world or the context.\<close>

locale request_inv =
  fixes L :: "('p, 'c, 'b, 'a, 'w) dlibs" and Q :: "('p, 'c, 'a, 'w) dtls \<Rightarrow> bool"
  assumes insert_law: "Q s \<Longrightarrow> if_returns (insert_opt L key len mem s) Q"
    and world_law: "Q s \<Longrightarrow> Q (s\<lparr>d_world := w\<rparr>)"
    and ctx_law: "Q s \<Longrightarrow> Q (s\<lparr>d_ctx := ctx, d_world := w\<rparr>)"
begin

lemma insert_segments_inv: "Q s \<Longrightarrow> if_returns (insert_segments L key n buf s) Q"
proof (induction n arbitrary: buf s)
  case (Suc n)
  show ?case
    by (auto intro!: if_returns_mono [OF insert_law [OF Suc.prems]] Suc.IH)
qed simp

lemma insert_split_inv: "Q s \<Longrightarrow> if_returns (insert_split L key split s) Q"
  by (auto simp: insert_split_def split_beta Let_def insert_segments_inv)

lemma new_request_inv: "Q s \<Longrightarrow> Q (snd (coap_new_request L meth payload s))"
  using world_law by (auto simp: coap_new_request_def split_beta Let_def split: prod.split option.split)

lemma optional_inv: "(c \<Longrightarrow> if_returns r Q) \<Longrightarrow> Q s \<Longrightarrow> if_returns (if c then r else Some s) Q"
  by simp

lemma guarded_inv: "(\<not> c \<Longrightarrow> if_returns r Q) \<Longrightarrow> if_returns (if c then None else r) Q"
  by simp

lemma get_pdu_inv:
  assumes "Q (s\<lparr>d_optlist := []\<rparr>)"
  shows "if_returns (get_pdu L url meth payload s) (\<lambda>(p, s'). Q s')"
  unfolding get_pdu_def Let_def split_beta if_returns_simps
  by (intro if_returns_mono [OF optional_inv] guarded_inv insert_split_inv insert_law)
    (use assms ctx_law in \<open>auto simp: new_request_inv\<close>)

end

interpretation last: request_inv L "\<lambda>s. d_last s = l" for L l
  by unfold_locales (auto simp: insert_opt_def intro!: if_returnsI)

lemma next_test_last:
  assumes "next_test L s = Some (Goes s')"
  shows "d_last s' = d_last s"
proof -
  have "d_last s2 = d_last s" if "get_pdu L url meth payload s = Some (p, s2)" for url meth payload p s2
    using if_returnsD [OF last.get_pdu_inv that] by simp
  then show ?thesis
    using assms
    by (auto simp: next_test_def send_test_def send_pdu_of_def write_dtls_def get_pdu_write1p_def get_pdu_read1p_def tell_def
        bind_eq_Some_conv split: if_splits)
qed


section \<open>Blocks that are repeated\<close>

text \<open>Machine integers in range.\<close>

lemma sint_time: "0 \<le> t \<Longrightarrow> t < 2 ^ 31 \<Longrightarrow> sint (word_of_int t :: c_int) = t"
  by (simp add: sint_sbintrunc' signed_take_bit_int_eq_self)

lemma int_sub_time:
  assumes "0 \<le> t" "t < 2 ^ 31" "0 < sint x"
  obtains d where "int_sub (word_of_int t) x = Some d" "sint d = t - sint x"
proof -
  have "sint x < 2 ^ 31" using sint_lt [of x] by simp
  then have "sint (word_of_int t - x) = t - sint x"
    using assms by (simp add: sint_word_ariths sint_time signed_take_bit_int_eq_self)
  with assms sint_time that show thesis by (simp add: int_sub_def)
qed

lemma int_add_one:
  assumes "0 \<le> sint x" "sint x < 2 ^ 31 - 1"
  shows "int_add x 1 = Some (x + 1)" "sint (x + 1) = sint x + 1"
proof -
  show "sint (x + 1) = sint x + 1"
    using assms by (simp add: sint_word_ariths signed_take_bit_int_eq_self)
  then show "int_add x 1 = Some (x + 1)" by (simp add: int_add_def)
qed

text \<open>A block that was sent and not answered; \<open>now\<close> is the time.\<close>

definition block_waits :: "('p, 'c, 'b, 'a, 'w) dlibs \<Rightarrow> 'p \<Rightarrow> int \<Rightarrow> ('p, 'c, 'a, 'w) dtls \<Rightarrow> bool" where
  "block_waits L pdu now s \<longleftrightarrow> d_sent s = Some pdu \<and> t_data (d_last s) = Some (lc_hdr L pdu) \<and>
     lc_length L pdu \<le> length (lc_hdr L pdu) \<and> 0 < sint (t_out (d_last s)) \<and> sint (t_out (d_last s)) \<le> now \<and>
     t_ack (d_last s) = 0 \<and> 0 \<le> sint (t_retry (d_last s)) \<and> d_ready s"

text \<open>
  A silent network: \<open>select\<close> times out after the seconds it was given and at most \<open>lag\<close> seconds later, \<open>dtls_write\<close> takes at most \<open>lag\<close>
  seconds, \<open>time\<close> reads the clock, and \<open>wrote\<close> is what was handed to \<open>dtls_write\<close>.
\<close>

locale silent_dtls =
  fixes L :: "('p, 'c, 'b, 'a, 'w) dlibs" and clock :: "'w \<Rightarrow> int" and lag :: int and wrote :: "'w \<Rightarrow> bytes list"
  assumes select_law: "fst (ds_select L fd n w) = 0"
      "clock w + int n \<le> clock (snd (snd (ds_select L fd n w)))"
      "clock (snd (snd (ds_select L fd n w))) \<le> clock w + int n + lag" "wrote (snd (snd (ds_select L fd n w))) = wrote w"
    and time_law: "fst (ds_time L w) = clock w" "clock (snd (ds_time L w)) = clock w" "wrote (snd (ds_time L w)) = wrote w"
    and write_law: "clock w \<le> clock (snd (dt_write L cb bs w))" "clock (snd (dt_write L cb bs w)) \<le> clock w + lag"
      "wrote (snd (dt_write L cb bs w)) = wrote w @ [bs]"
    and free_law: "wrote (dt_free_context L w) = wrote w"
begin

abbreviation now :: "('p, 'c, 'a, 'w) dtls \<Rightarrow> int" where
  "now s \<equiv> clock (d_world s)"

lemma lag_nonneg: "0 \<le> lag"
  using order_trans [OF write_law(1,2)] by simp

lemma silent_times_out: "times_out L"
  by (simp add: times_out_def select_law)

lemma clock_waited: "now s + 2 \<le> now (waited L s)" "now (waited L s) \<le> now s + 2 + lag"
    "wrote (d_world (waited L s)) = wrote (d_world s)"
  using select_law(2) [of "d_world s" 2 "d_sock s"] select_law(3) [of "d_sock s" 2 "d_world s"]
  by (simp_all add: waited_def select_law(4))

text \<open>The three outcomes of a turn, while the time still fits an \<open>int\<close>.\<close>

lemma block_turn:
  assumes "block_waits L pdu (now s) s" "now s + (2 + 2 * lag) < 2 ^ 31"
  shows "\<exists>s'. d_printed s' = d_printed s @ (if sint (t_retry (d_last s)) \<le> MAX_RETRY \<or> now (waited L s) - sint (t_out (d_last s)) \<le> TIMEOUT
       then [] else str_bytes ''Failed: reach retry limit'') \<and>
     now s + 2 \<le> now s' \<and> now s' \<le> now s + (2 + 2 * lag) \<and>
     (if now (waited L s) - sint (t_out (d_last s)) \<le> TIMEOUT then
        dtls_turn L s = Some (Goes s') \<and> block_waits L pdu (now s') s' \<and> d_last s' = d_last s \<and>
        wrote (d_world s') = wrote (d_world s)
      else if sint (t_retry (d_last s)) \<le> MAX_RETRY then
        dtls_turn L s = Some (Goes s') \<and> block_waits L pdu (now s') s' \<and>
        sint (t_retry (d_last s')) = sint (t_retry (d_last s)) + 1 \<and> sint (t_out (d_last s')) = now s' \<and>
        wrote (d_world s') = wrote (d_world s) @ [take (lc_length L pdu) (lc_hdr L pdu)]
      else dtls_turn L s = Some (Exits 0 s') \<and> wrote (d_world s') = wrote (d_world s))"
proof -
  let ?w = "d_world (waited L s)"
  have s: "d_sent s = Some pdu" "t_data (d_last s) = Some (lc_hdr L pdu)" "lc_length L pdu \<le> length (lc_hdr L pdu)"
    "0 < sint (t_out (d_last s))" "sint (t_out (d_last s)) \<le> now s" "t_ack (d_last s) = 0" "0 \<le> sint (t_retry (d_last s))" "d_ready s"
    using assms(1) by (simp_all add: block_waits_def)
  note w = clock_waited [of s]
  have range: "0 \<le> clock ?w" "clock ?w < 2 ^ 31" using w s(4,5) assms(2) lag_nonneg by linarith+
  obtain d where d: "int_sub (word_of_int (clock ?w)) (t_out (d_last s)) = Some d" "sint d = clock ?w - sint (t_out (d_last s))"
    using int_sub_time [OF range s(4)] .
  have turn: "dtls_turn L s = do { (leave, s) \<leftarrow> on_timeout L (waited L s); if leave then Some (Exits 0 s) else next_test L s }"
    by (rule quiet_turn_dtls [OF silent_times_out])
  consider (early) "sint d \<le> TIMEOUT" | (again) "\<not> sint d \<le> TIMEOUT" "sint (t_retry (d_last s)) \<le> MAX_RETRY"
    | (limit) "\<not> sint d \<le> TIMEOUT" "\<not> sint (t_retry (d_last s)) \<le> MAX_RETRY"
    by blast
  then show ?thesis
  proof cases
    case early
    with s w d lag_nonneg show ?thesis
      by (auto simp: turn on_timeout_def time_law split_beta Let_def next_test_ready block_waits_def)
  next
    case again
    have inc: "int_add (t_retry (d_last s)) 1 = Some (t_retry (d_last s) + 1)" "sint (t_retry (d_last s) + 1) = sint (t_retry (d_last s)) + 1"
      using int_add_one [OF s(7)] again(2) by (simp_all add: MAX_RETRY_def)
    let ?w1 = "\<lambda>cb bs. snd (dt_write L cb bs (snd (ds_time L ?w)))"
    have w1: "clock ?w \<le> clock (?w1 cb bs)" "clock (?w1 cb bs) \<le> clock ?w + lag" for cb bs
      using write_law(1) [of "snd (ds_time L ?w)" cb bs] write_law(2) [of cb bs "snd (ds_time L ?w)"] by (simp_all add: time_law)
    have "sint (word_of_int (clock (?w1 cb bs)) :: c_int) = clock (?w1 cb bs)" for cb bs
      using w1 [of cb bs] w range assms(2) by (intro sint_time) linarith+
    moreover have "0 < clock (?w1 cb bs)" for cb bs
      using w1(1) [of cb bs] again(1) s(4) d(2) by (simp add: TIMEOUT_def)
    ultimately show ?thesis
      using again s w w1 d inc lag_nonneg
      by (auto simp: turn on_timeout_def time_law split_beta Let_def next_test_ready block_waits_def write_dtls_def
          SET_SEND_TIMESTAMP_def mem_read_def write_law(3) TIMEOUT_def
          intro: order_trans [OF _ w1(1)] order_trans [OF w1(2)])
  next
    case limit
    with s w d lag_nonneg show ?thesis
      by (auto simp: turn on_timeout_def time_law split_beta Let_def tell_def)
  qed
qed

text \<open>At most how many turns are left: three for every repetition that is left, and those until the present timeout.\<close>

definition turns_left :: "('p, 'c, 'a, 'w) dtls \<Rightarrow> nat" where
  "turns_left s = 3 * nat (MAX_RETRY + 1 - sint (t_retry (d_last s))) + 1 + nat ((TIMEOUT - (now s - sint (t_out (d_last s)))) div 2)"

lemma turns_left_bound: "block_waits L pdu (now s) s \<Longrightarrow> turns_left s \<le> 15"
  by (auto simp: turns_left_def block_waits_def MAX_RETRY_def TIMEOUT_def)

lemma retries_end:
  assumes "block_waits L pdu (now s) s" "now s + int (turns_left s) * (2 + 2 * lag) < 2 ^ 31"
  shows "\<exists>s'. dtls_loop L s = Some (0, s') \<and> d_printed s' = d_printed s @ str_bytes ''Failed: reach retry limit'' \<and>
     wrote (d_world s') =
       wrote (d_world s) @ replicate (nat (MAX_RETRY + 1 - sint (t_retry (d_last s)))) (take (lc_length L pdu) (lc_hdr L pdu))"
  using assms
proof (induction "turns_left s" arbitrary: s rule: less_induct)
  case less
  let ?K = "2 + 2 * lag" and ?t = "now (waited L s) - sint (t_out (d_last s))" and ?r = "sint (t_retry (d_last s))"
  have K: "0 \<le> ?K" "0 < turns_left s" using lag_nonneg by (simp_all add: turns_left_def)
  have now: "now s + ?K + int (n :: nat) * ?K < 2 ^ 31" if "n < turns_left s" for n
  proof -
    have "(int n + 1) * ?K \<le> int (turns_left s) * ?K" using that K(1) by (intro mult_right_mono) simp_all
    with less.prems(2) show ?thesis by (simp add: distrib_right)
  qed
  from block_turn [OF less.prems(1)] now [of 0] K(2) obtain s1 where s1: "d_printed s1 = d_printed s @ (if ?r \<le> MAX_RETRY \<or> ?t \<le> TIMEOUT
       then [] else str_bytes ''Failed: reach retry limit'')" "now s + 2 \<le> now s1" "now s1 \<le> now s + ?K"
     "if ?t \<le> TIMEOUT then
        dtls_turn L s = Some (Goes s1) \<and> block_waits L pdu (now s1) s1 \<and> d_last s1 = d_last s \<and> wrote (d_world s1) = wrote (d_world s)
      else if ?r \<le> MAX_RETRY then
        dtls_turn L s = Some (Goes s1) \<and> block_waits L pdu (now s1) s1 \<and>
        sint (t_retry (d_last s1)) = ?r + 1 \<and> sint (t_out (d_last s1)) = now s1 \<and>
        wrote (d_world s1) = wrote (d_world s) @ [take (lc_length L pdu) (lc_hdr L pdu)]
      else dtls_turn L s = Some (Exits 0 s1) \<and> wrote (d_world s1) = wrote (d_world s)"
    by auto
  have loop: "dtls_loop L s = dtls_loop L s1" if "dtls_turn L s = Some (Goes s1)"
    using that by (subst dtls_loop.simps) simp
  have IH: "\<exists>s'. dtls_loop L s1 = Some (0, s') \<and> d_printed s' = d_printed s1 @ str_bytes ''Failed: reach retry limit'' \<and>
      wrote (d_world s') =
        wrote (d_world s1) @ replicate (nat (MAX_RETRY + 1 - sint (t_retry (d_last s1)))) (take (lc_length L pdu) (lc_hdr L pdu))"
    if "turns_left s1 < turns_left s" "block_waits L pdu (now s1) s1"
    using s1(3) now [OF that(1)] by (intro less.hyps [OF that]) linarith
  consider (early) "?t \<le> TIMEOUT" | (again) "\<not> ?t \<le> TIMEOUT" "?r \<le> MAX_RETRY" | (limit) "\<not> ?t \<le> TIMEOUT" "\<not> ?r \<le> MAX_RETRY"
    by blast
  then show ?case
  proof cases
    case early
    have "nat ((TIMEOUT - (now s1 - sint (t_out (d_last s)))) div 2) < nat ((TIMEOUT - (now s - sint (t_out (d_last s)))) div 2)"
      using early s1(2) clock_waited(1) [of s] by (simp add: TIMEOUT_def) linarith
    then have "turns_left s1 < turns_left s" using early s1(4) by (simp add: turns_left_def)
    with early s1 IH loop show ?thesis by simp
  next
    case again
    then have n: "nat (MAX_RETRY + 1 - ?r) = Suc (nat (MAX_RETRY + 1 - (?r + 1)))" by simp
    have "turns_left s1 < turns_left s" using again s1(4) n by (simp add: turns_left_def TIMEOUT_def)
    with again s1 n IH loop show ?thesis by simp
  next
    case limit
    with s1 show ?thesis by (subst dtls_loop.simps) (simp add: free_law)
  qed
qed

end


section \<open>The order of the options\<close>

text \<open>
  What libcoap's list promises: a node goes behind all those that the order function does not put after it, and a NULL
  node changes nothing.
\<close>

definition inserts_in_order :: "('p, 'c, 'b, 'a, 'w) dlibs \<Rightarrow> bool" where
  "inserts_in_order L \<longleftrightarrow> (\<forall>ord os. lc_insert L None ord os = os \<and>
     (\<forall>x. lc_insert L (Some x) ord os =
        takeWhile (\<lambda>y. 0 \<le> ord (Some x) (Some y)) os @ x # dropWhile (\<lambda>y. 0 \<le> ord (Some x) (Some y)) os))"

lemma order_opts_le: "0 \<le> order_opts (Some x) (Some y) \<longleftrightarrow> lc_key y \<le> lc_key x"
  by (auto simp: order_opts_def)

lemma sorted_insertion:
  fixes f :: "'x \<Rightarrow> 'k :: linorder"
  assumes "sorted (map f os)"
  shows "sorted (map f (takeWhile (\<lambda>y. f y \<le> f x) os @ x # dropWhile (\<lambda>y. f y \<le> f x) os))"
  using assms
proof (induction os)
  case (Cons y os)
  have "f x \<le> f z" if "\<not> f y \<le> f x" "z \<in> set os" for z
    using that Cons.prems by (auto dest: order_trans)
  with Cons show ?case
    by (cases "f y \<le> f x") (auto dest: set_takeWhileD set_dropWhileD)
qed simp

lemma insert_opt_sorted:
  assumes "inserts_in_order L" "sorted (map lc_key (d_optlist s))"
  shows "if_returns (insert_opt L key len mem s) (\<lambda>s'. sorted (map lc_key (d_optlist s')))"
proof (rule if_returnsI)
  fix s' assume "insert_opt L key len mem s = Some s'"
  then obtain node where "d_optlist s' = lc_insert L node order_opts (d_optlist s)"
    by (auto simp: insert_opt_def bind_eq_Some_conv)
  with assms sorted_insertion [OF assms(2)] show "sorted (map lc_key (d_optlist s'))"
    by (cases node) (simp_all add: inserts_in_order_def order_opts_le)
qed

lemma get_pdu_sorted:
  assumes "inserts_in_order L" "get_pdu L url meth payload s = Some (p, s')"
  shows "sorted (map lc_key (d_optlist s'))"
proof -
  have "request_inv L (\<lambda>s. sorted (map lc_key (d_optlist s)))"
    by unfold_locales (simp_all add: insert_opt_sorted [OF assms(1)])
  from if_returnsD [OF request_inv.get_pdu_inv [OF this] assms(2)] show ?thesis by simp
qed


section \<open>A download\<close>

text \<open>The array holds the string \<open>content\<close>, whose length has been counted.\<close>

definition downloaded :: "bytes \<Rightarrow> bytes \<Rightarrow> ('p, 'c, 'a, 'w) dtls \<Rightarrow> bool" where
  "downloaded content junk s \<longleftrightarrow>
     d_download s = content @ [0] @ junk \<and> 0 \<notin> set content \<and> d_download_size s = length content"

text \<open>What \<open>strcat\<close> of a payload, which a NUL follows in memory, leaves in the array behind the content.\<close>

definition cat_bytes :: "bytes \<Rightarrow> bytes \<Rightarrow> bytes" where
  "cat_bytes p junk = (let v = takeWhile (\<lambda>b. b \<noteq> 0) p in v @ [0] @ drop (length v) junk)"

lemma takeWhile_text: "(0 :: u8) \<notin> set p \<Longrightarrow> takeWhile (\<lambda>b. b \<noteq> 0) p = p"
  by (induction p) auto

lemma cat_bytes_text: "0 \<notin> set p \<Longrightarrow> cat_bytes p junk = p @ [0] @ drop (length p) junk"
  by (simp add: cat_bytes_def takeWhile_text)

lemma cat_download_exact:
  assumes "d_download s = content @ [0] @ junk" "0 \<notin> set content" "length p \<le> length junk"
  shows "cat_download (Some (p @ 0 # rest)) s = Some (s\<lparr>d_download := content @ cat_bytes p junk\<rparr>)"
proof -
  let ?v = "takeWhile (\<lambda>b. b \<noteq> 0) p"
  have v: "cstr (p @ 0 # rest) = Some ?v"
    by (auto simp: cstr_def takeWhile_append takeWhile_text)
  have c: "cstr (d_download s) = Some content"
    using assms(1,2) by (simp add: cstr_def takeWhile_append takeWhile_text)
  have "length ?v \<le> length p" by (rule length_takeWhile_le)
  with assms c v show ?thesis
    by (simp add: cat_download_def strlen_def mem_write_def cat_bytes_def Let_def)
qed


lemma last_block_saved:
  assumes "check_token L (d_token s) pdu = Some True" "lc_hdr_code L pdu = COAP_RESPONSE_CODE L 205"
    "get_block L pdu = Some b" "\<not> lc_block_more L b" "lc_get_data L pdu = (length p, Some (p @ 0 # rest))"
    "downloaded content junk s" "length p \<le> length junk"
    "saved = content @ take (length p) (cat_bytes p junk)" "ds_save L (d_save_file s) saved (d_world s) = Some w"
  shows "\<exists>s'. message_handler L pdu s = Some s' \<and> d_world s' = w \<and> \<not> d_ready s'"
proof -
  have s: "d_download s = content @ [0] @ junk" "0 \<notin> set content" "d_download_size s = length content"
    using assms(6) by (simp_all add: downloaded_def)
  then have cat: "cat_download (Some (p @ 0 # rest)) (s\<lparr>d_printed := line, d_download_size := n\<rparr>) =
      Some (s\<lparr>d_printed := line, d_download_size := n, d_download := content @ cat_bytes p junk\<rparr>)" for line n
    by (intro cat_download_exact assms(7)) simp_all
  have "mem_read (content @ cat_bytes p junk) 0 (length content + length p) = Some saved"
    using assms(7,8) length_takeWhile_le [of "\<lambda>b. b \<noteq> 0" p] by (auto simp: mem_read_def cat_bytes_def Let_def)
  with assms(1-5,9) s(3) cat show ?thesis
    by (simp add: message_handler_def save_download_def tell_def Let_def)
qed



section \<open>A scripted system\<close>

text \<open>
  A closed instance of the libraries: packets are byte lists with a header of four bytes, nothing is ever received, and the
  world is the clock, what was written and the file that was saved.
\<close>

record dtls_net =
  dn_clock :: int
  dn_wrote :: "bytes list"
  dn_file :: bytes

definition script_libs :: "(bytes, unit, bool, unit, dtls_net) dlibs" where
  "script_libs =
     \<lparr>COAP_MESSAGE_CON = 0, COAP_REQUEST_GET = 1, COAP_REQUEST_POST = 2, COAP_REQUEST_PUT = 3,
      COAP_OPTION_URI_PATH = 11, COAP_OPTION_URI_QUERY = 15, COAP_OPTION_BLOCK1 = 27, COAP_OPTION_BLOCK2 = 23,
      COAP_RESPONSE_CODE = (\<lambda>n. of_nat (32 * (n div 100) + n mod 100)),
      lc_new_pdu = (\<lambda>w. (Some [64, 0, 0, 0], w)), lc_new_message_id = (\<lambda>c w. (7, w)),
      lc_set_type = (\<lambda>t p. p[0 := 64 OR push_bit 4 t]), lc_set_id = (\<lambda>i p. p[3 := ucast i]),
      lc_set_code = (\<lambda>c p. p[1 := c]), lc_set_token_length = (\<lambda>n p. p[0 := p ! 0 OR of_nat n]),
      lc_add_token = (\<lambda>t p. (True, p @ t)), lc_add_option = (\<lambda>k bs p. p @ [ucast k, of_nat (length bs)] @ bs),
      lc_add_block = (\<lambda>bs n szx p. p @ [255] @ bs), lc_add_data = (\<lambda>bs p. p @ [255] @ bs),
      lc_hdr = id, lc_length = length, lc_hdr_code = (\<lambda>p. p ! 1), lc_hdr_token_length = (\<lambda>p. unat (p ! 0 AND 15)),
      lc_hdr_token = drop 4, lc_get_data = (\<lambda>p. let d = drop (4 + unat (p ! 0 AND 15)) p in (length d, Some (d @ [0]))),
      lc_find_option = (\<lambda>ks p. Some False), lc_block_more = id, lc_block_szx = (\<lambda>b. 5), lc_block_num = (\<lambda>b. 0),
      lc_more_blocks = (\<lambda>n i szx. False), lc_encode_var_bytes = (\<lambda>n. [ucast n]),
      lc_split_uri = (\<lambda>url. ([47], [63])), lc_split_path = (\<lambda>p n. (1, [1, 97])), lc_split_query = (\<lambda>p n. (1, [1, 98])),
      lc_opt_length = (\<lambda>buf. unat (hd buf)), lc_opt_value = tl, lc_opt_size = (\<lambda>buf. 1 + unat (hd buf)),
      lc_malloc = (\<lambda>n w. (True, w)), lc_new_listnode = (\<lambda>w. (True, w)),
      lc_insert = (\<lambda>node ord os. case node of None \<Rightarrow> os
        | Some x \<Rightarrow> takeWhile (\<lambda>y. 0 \<le> ord (Some x) (Some y)) os @ x # dropWhile (\<lambda>y. 0 \<le> ord (Some x) (Some y)) os),
      lc_pdu_parse = (\<lambda>bs p. (True, bs)), lc_addr_size = 28, lc_new_context = (\<lambda>a w. (Some (), w)),
      DTLS_EVENT_CONNECTED = 0x01DE, dt_new_context = (\<lambda>w. (True, w)), dt_connect = (\<lambda>cb w. (0, w)),
      dt_write = (\<lambda>cb bs w. (int (length bs), w\<lparr>dn_wrote := dn_wrote w @ [bs]\<rparr>)),
      dt_handle_message = (\<lambda>a bs w. ([], 0, w)), dt_free_context = id,
      ds_getaddrinfo = (\<lambda>node port w. (0, [()], w)), ds_addrlen = (\<lambda>a. 16), ds_inet = (\<lambda>a. True), ds_no_addr = (),
      ds_set_port = (\<lambda>n a. a), ds_socket = (\<lambda>a w. (3, w)), ds_sendto = (\<lambda>fd bs a w. (int (length bs), w)),
      ds_recvfrom = (\<lambda>fd n w. (-1, [], (), w)),
      ds_select = (\<lambda>fd n w. (0, False, w\<lparr>dn_clock := dn_clock w + int n\<rparr>)), ds_time = (\<lambda>w. (dn_clock w, w)),
      ds_save = (\<lambda>name bs w. Some (w\<lparr>dn_file := bs\<rparr>))\<rparr>"

interpretation script_dtls: silent_dtls script_libs dn_clock 0 dn_wrote
  by unfold_locales (simp_all add: script_libs_def)

text \<open>The program after the connection was made, with both tests to do.\<close>

definition ex_dtls :: "(bytes, unit, unit, dtls_net) dtls" where
  "ex_dtls =
     \<lparr>d_connected = True, d_ready = False, d_session = (), d_last = \<lparr>t_out = 0, t_ack = 0, t_data = None, t_retry = 0\<rparr>,
      d_sock = 3, d_printed = [], d_world = \<lparr>dn_clock = 100, dn_wrote = [], dn_file = []\<rparr>, d_sent = None, d_token = [9],
      d_block_flag = False, d_block_num = 0, d_block_szx = 5, d_optlist = [], d_ctx = None, d_tests = 6, d_vendor = [118],
      d_model = [109], d_content_id = [99], d_model_cik = [107], d_file = [], d_save_file = [102],
      d_download = replicate 8 0, d_download_size = 0\<rparr>"

end
