(* ===== verification/Plain_Client.thy ===== *)
theory Plain_Client
  imports Coap_Client
begin

text \<open>
  The first program of \<^verbatim>\<open>picocoap/examples/posix/client_dtls.c\<close>: the client of \<^verbatim>\<open>client.c\<close> in an older form. It
  works on plain arrays with the functions of a version of picocoap that is not in the repository; these functions, like the system calls,
  are parameters.
\<close>

section \<open>The older packet functions\<close>

text \<open>
  A packet is an array and a length. The functions that change it are given the size of the array; those that read it return
  \<open>None\<close> where they would leave it. \<open>oc_token\<close> is \<open>coap_get_token(pkt, len, 0)\<close>, which yields the
  length of the token; \<open>oc_option\<close> yields the length, the number and the position of an option.
\<close>

record old_coap =
  oc_set_version :: "nat \<Rightarrow> u8 \<Rightarrow> bytes \<times> nat \<Rightarrow> bytes \<times> nat"
  oc_set_type :: "nat \<Rightarrow> u8 \<Rightarrow> bytes \<times> nat \<Rightarrow> bytes \<times> nat"
  oc_set_code :: "nat \<Rightarrow> u8 \<Rightarrow> bytes \<times> nat \<Rightarrow> bytes \<times> nat"
  oc_set_mid :: "nat \<Rightarrow> u16 \<Rightarrow> bytes \<times> nat \<Rightarrow> bytes \<times> nat"
  oc_set_token :: "nat \<Rightarrow> u64 \<Rightarrow> nat \<Rightarrow> bytes \<times> nat \<Rightarrow> bytes \<times> nat"
  oc_add_option :: "nat \<Rightarrow> nat \<Rightarrow> bytes \<Rightarrow> bytes \<times> nat \<Rightarrow> bytes \<times> nat"
  oc_valid :: "bytes \<Rightarrow> nat \<Rightarrow> bool option"
  oc_mid :: "bytes \<Rightarrow> nat \<Rightarrow> u16 option"
  oc_token :: "bytes \<Rightarrow> nat \<Rightarrow> nat option"
  oc_type :: "bytes \<Rightarrow> nat \<Rightarrow> nat option"
  oc_class :: "bytes \<Rightarrow> nat \<Rightarrow> nat option"
  oc_detail :: "bytes \<Rightarrow> nat \<Rightarrow> nat option"
  oc_count :: "bytes \<Rightarrow> nat \<Rightarrow> nat option"
  oc_option :: "bytes \<Rightarrow> nat \<Rightarrow> nat \<Rightarrow> (nat \<times> nat \<times> nat) option"
  oc_payload :: "bytes \<Rightarrow> nat \<Rightarrow> (nat \<times> nat) option"

record ('a, 'w) plain_os =
  pl_getaddrinfo :: "string option \<Rightarrow> string \<Rightarrow> 'w \<Rightarrow> int \<times> 'a list \<times> 'w"
  pl_socket :: "'a \<Rightarrow> 'w \<Rightarrow> int \<times> 'w"
  pl_bind :: "int \<Rightarrow> 'a \<Rightarrow> 'w \<Rightarrow> int \<times> 'w"
  pl_close :: "int \<Rightarrow> 'w \<Rightarrow> 'w"
  pl_sendto :: "int \<Rightarrow> bytes \<Rightarrow> 'a \<Rightarrow> 'w \<Rightarrow> int \<times> 'w"
  pl_recvfrom :: "int \<Rightarrow> nat \<Rightarrow> 'w \<Rightarrow> int \<times> bytes \<times> 'a \<times> 'w"
  pl_srand :: "'w \<Rightarrow> 'w"
  pl_rand :: "'w \<Rightarrow> nat \<times> 'w"
  pl_usleep :: "nat \<Rightarrow> 'w \<Rightarrow> 'w"


section \<open>Printing\<close>

text \<open>\<^verbatim>\<open>%zi\<close> of a size_t: above \<open>2^63\<close> it is a negative number.\<close>

definition signed_digits :: "nat \<Rightarrow> bytes" where
  "signed_digits n = (if n < size_max div 2 then dec_digits n else 45 # dec_digits (size_max - n))"

text \<open>The text of \<open>hex_dump\<close> is that of \<^verbatim>\<open>client.c\<close>.\<close>

definition plain_hex_dump :: "bytes \<Rightarrow> nat \<Rightarrow> bytes option" where
  "plain_hex_dump bytes len = hex_dump bytes len"

text \<open>The options from \<open>i\<close> on, with \<open>n\<close> to go.\<close>

fun plain_options :: "old_coap \<Rightarrow> bytes \<Rightarrow> nat \<Rightarrow> nat \<Rightarrow> nat \<Rightarrow> bytes option" where
  "plain_options C pkt len i 0 = Some []"
| "plain_options C pkt len i (Suc n) =
     do { (k, opt_num, ptr) \<leftarrow> oc_option C pkt len i;
          v \<leftarrow> put_str pkt ptr k;
          rest \<leftarrow> plain_options C pkt len (i + 1) n;
          Some (out_line ''Option: '' (dec_digits opt_num) @
                out_line '' Value: '' (v @ [32, 40] @ dec_digits k @ [41]) @ rest) }"

definition plain_pretty_print :: "old_coap \<Rightarrow> bytes \<Rightarrow> nat \<Rightarrow> bytes option" where
  "plain_pretty_print C pkt len =
     do {
       valid \<leftarrow> oc_valid C pkt len;
       if valid then do {
         let title = str_bytes '' ------ Valid CoAP Packet ('' @ signed_digits len @ str_bytes '') ------ '' @ [10];
         t \<leftarrow> oc_type C pkt len;
         cls \<leftarrow> oc_class C pkt len;
         detail \<leftarrow> oc_detail C pkt len;
         j \<leftarrow> oc_count C pkt len;
         opts \<leftarrow> plain_options C pkt len 0 j;
         (k, ptr) \<leftarrow> oc_payload C pkt len;
         v \<leftarrow> put_str pkt ptr k;
         Some (title @ out_line ''Type: '' (dec_digits t) @
           out_line ''Code: '' (dec_digits cls @ [46] @ zeros 2 (dec_digits detail)) @ opts @
           out_line ''Value: '' (v @ [32, 40] @ dec_digits k @ [41])) }
       else do {
         dump \<leftarrow> plain_hex_dump pkt len;
         Some (str_bytes '' ------ Non-CoAP Message ('' @ signed_digits len @ str_bytes '') ------ '' @ [10] @ dump) } }"


section \<open>The program\<close>

record ('a, 'w) plain =
  pl_local :: int
  pl_remote :: int
  pl_addr :: 'a
  pl_msg_send :: "bytes \<times> nat"
  pl_msg_recv :: bytes
  pl_mid :: u16
  pl_out :: bytes
  pl_world :: 'w

text \<open>The loop that makes and binds the local socket.\<close>

fun plain_bind_loop :: "('a, 'w) plain_os \<Rightarrow> 'a list \<Rightarrow> 'w \<Rightarrow> int option \<times> 'w" where
  "plain_bind_loop os [] w = (None, w)"
| "plain_bind_loop os (p # ps) w =
     (let (fd, w) = pl_socket os p w in
      if fd = -1 then plain_bind_loop os ps w
      else
        (let (rc, w) = pl_bind os fd p w in
         if rc = -1 then plain_bind_loop os ps (pl_close os fd w) else (Some fd, w)))"

fun plain_sock_loop :: "('a, 'w) plain_os \<Rightarrow> 'a list \<Rightarrow> 'w \<Rightarrow> (int \<times> 'a) option \<times> 'w" where
  "plain_sock_loop os [] w = (None, w)"
| "plain_sock_loop os (q # qs) w =
     (let (fd, w) = pl_socket os q w in
      if fd = -1 then plain_sock_loop os qs w else (Some (fd, q), w))"

text \<open>The first \<open>main\<close> up to its loop; \<open>b1\<close> and \<open>b2\<close> are what the two arrays hold.\<close>

definition plain_start ::
  "('a, 'w) plain_os \<Rightarrow> bytes \<Rightarrow> bytes \<Rightarrow> 'w \<Rightarrow> (int \<times> 'w) + ('a, 'w) plain" where
  "plain_start os b1 b2 w =
     (let (r, w) = pl_rand os (pl_srand os w);
          (rv, servinfo, w) = pl_getaddrinfo os None ''5683'' w in
      if rv \<noteq> 0 then Inl (1, w)
      else
        (case plain_bind_loop os servinfo w of
           (None, w) \<Rightarrow> Inl (2, w)
         | (Some lfd, w) \<Rightarrow>
             (let (rv, servinfo, w) = pl_getaddrinfo os (Some ''coap.exosite.com'') ''5683'' w in
              if rv \<noteq> 0 then Inl (1, w)
              else
                (case plain_sock_loop os servinfo w of
                   (None, w) \<Rightarrow> Inl (2, w)
                 | (Some (fd, q), w) \<Rightarrow>
                     Inr \<lparr>pl_local = lfd, pl_remote = fd, pl_addr = q, pl_msg_send = (b1, 0), pl_msg_recv = b2,
                       pl_mid = of_nat r, pl_out = [], pl_world = w\<rparr>))))"

text \<open>The request; \<open>memset\<close> of zero bytes clears nothing.\<close>

definition plain_request :: "old_coap \<Rightarrow> u16 \<Rightarrow> u64 \<Rightarrow> bytes \<Rightarrow> bytes \<times> nat" where
  "plain_request C mid rnd buf =
     (let m = (buf, 0);
          m = oc_set_version C MSG_BUF_LEN (cv_val COAP_V1) m;
          m = oc_set_type C MSG_BUF_LEN (ct_val CT_CON) m;
          m = oc_set_code C MSG_BUF_LEN (cc_val CC_GET) m;
          m = oc_set_mid C MSG_BUF_LEN mid m;
          m = oc_set_token C MSG_BUF_LEN rnd 2 m;
          m = oc_add_option C MSG_BUF_LEN (con_val CON_URI_PATH) (str_bytes ''1a'') m;
          m = oc_add_option C MSG_BUF_LEN (con_val CON_URI_PATH) (str_bytes ''temp'') m in
      oc_add_option C MSG_BUF_LEN (con_val CON_URI_QUERY) (str_bytes ''a32c85ba9dda45823be416246cf8b433baa068d7'') m)"

definition plain_send :: "old_coap \<Rightarrow> ('a, 'w) plain_os \<Rightarrow> ('a, 'w) plain \<Rightarrow> ('a, 'w) plain turn option" where
  "plain_send C os c =
     do {
       let c = c\<lparr>pl_out := pl_out c @ replicate 80 45 @ [10]\<rparr>;
       let (r, w) = pl_rand os (pl_world c);
       let (buf, len) = plain_request C (pl_mid c) (of_nat r) (fst (pl_msg_send c));
       let c = c\<lparr>pl_msg_send := (buf, len), pl_mid := pl_mid c + 1\<rparr>;
       bs \<leftarrow> mem_read buf 0 len;
       let (sent, w) = pl_sendto os (pl_remote c) bs (pl_addr c) w;
       let c = c\<lparr>pl_world := w\<rparr>;
       if sent = -1 then Some (Exits 2 c)
       else do {
         txt \<leftarrow> plain_pretty_print C buf len;
         Some (Goes (c\<lparr>pl_out := pl_out c @ out_line ''Sent.'' [] @ txt\<rparr>)) } }"

text \<open>
  \<open>msg_recv_len\<close> is a size_t, so the test \<open>msg_recv_len < 0\<close> is never true: what \<open>recvfrom\<close> returns is taken
  modulo \<open>2^64\<close>. The sender's address goes over the address the program sends to.
\<close>

definition plain_receive :: "old_coap \<Rightarrow> ('a, 'w) plain_os \<Rightarrow> ('a, 'w) plain \<Rightarrow> ('a, 'w) plain turn option" where
  "plain_receive C os c =
     (let (n, bs, addr, w) = pl_recvfrom os (pl_remote c) MSG_BUF_LEN (pl_world c);
          len = of_int64 n;
          buf = bs @ drop (length bs) (pl_msg_recv c);
          c = c\<lparr>pl_world := w, pl_msg_recv := buf, pl_addr := (if n < 0 then pl_addr c else addr)\<rparr> in
      do {
        valid \<leftarrow> oc_valid C buf len;
        c \<leftarrow> (if valid then do {
                let c = c\<lparr>pl_out := pl_out c @ out_line ''Got Valid CoAP Packet'' []\<rparr>;
                let (sbuf, slen) = pl_msg_send c;
                m1 \<leftarrow> oc_mid C buf len;
                m2 \<leftarrow> oc_mid C sbuf slen;
                same \<leftarrow> (if m1 = m2 then do { t1 \<leftarrow> oc_token C buf len; t2 \<leftarrow> oc_token C sbuf slen; Some (t1 = t2) }
                         else Some False);
                if same then do {
                  txt \<leftarrow> plain_pretty_print C buf len;
                  Some (c\<lparr>pl_out := pl_out c @ out_line ''Is Response to Last Message'' [] @ txt\<rparr>) }
                else Some c }
              else do {
                dump \<leftarrow> plain_hex_dump buf len;
                Some (c\<lparr>pl_out := pl_out c @ out_line ''Received '' (signed_digits len @ str_bytes '' Bytes, Not Valid CoAP'') @ dump\<rparr>) });
        Some (Goes (c\<lparr>pl_world := pl_usleep os 1000000 (pl_world c)\<rparr>)) })"

definition plain_turn :: "old_coap \<Rightarrow> ('a, 'w) plain_os \<Rightarrow> ('a, 'w) plain \<Rightarrow> ('a, 'w) plain turn option" where
  "plain_turn C os c =
     do { t \<leftarrow> plain_send C os c;
          case t of Exits code c \<Rightarrow> Some (Exits code c) | Goes c \<Rightarrow> plain_receive C os c }"


section \<open>A failed receive\<close>

text \<open>A dump of more bytes than there are leaves the array.\<close>

lemma hex_cells_outside: "i + j \<le> length buf \<Longrightarrow> length buf < i + j + n \<Longrightarrow> length buf < len \<Longrightarrow> hex_cells buf len i j n = None"
proof (induction n arbitrary: j)
  case (Suc n)
  then show ?case by (cases "i + j = length buf") (auto simp: rd_def bind_eq_None_conv)
qed simp

lemma hex_dump_outside:
  assumes "length buf < len"
  shows "hex_dump buf len = None"
proof -
  have "i \<le> length buf \<Longrightarrow> hex_dump_loop buf len i = None" for i
  proof (induction "length buf - i" arbitrary: i rule: less_induct)
    case less
    have "hex_dump_loop buf len (i + 16) = None" if "i + 16 \<le> length buf"
      using less.hyps [of "i + 16"] that by simp
    moreover have "hex_cells buf len i 0 16 = None" if "\<not> i + 16 \<le> length buf"
      using hex_cells_outside [of i 0 buf 16 len] that less.prems assms by simp
    ultimately show ?case
      using less.prems assms by (subst hex_dump_loop.simps, cases "i + 16 \<le> length buf") (auto simp: bind_eq_None_conv)
  qed
  then show ?thesis by (simp add: hex_dump_def)
qed

text \<open>What becomes of a datagram that is not valid, and of a receive that failed.\<close>

lemma receive_not_valid:
  assumes "pl_recvfrom os (pl_remote c) MSG_BUF_LEN (pl_world c) = (n, bs, addr, w)" "length (pl_msg_recv c) = MSG_BUF_LEN"
    "n = -1 \<and> bs = [] \<or> n = int (length bs) \<and> length bs \<le> MSG_BUF_LEN"
    "buf = bs @ drop (length bs) (pl_msg_recv c)" "oc_valid C buf (of_int64 n) = Some False"
  shows "plain_receive C os c =
     (if n = -1 then None
      else Some (Goes (c\<lparr>pl_world := pl_usleep os 1000000 w, pl_msg_recv := buf, pl_addr := addr,
        pl_out := pl_out c @ out_line ''Received '' (dec_digits (length bs) @ str_bytes '' Bytes, Not Valid CoAP'') @ hex_text bs\<rparr>)))"
proof (cases "n = -1")
  case True
  have "of_int64 (-1) = size_max - 1" by (simp add: of_int64_def size_max_def)
  moreover have "hex_dump (pl_msg_recv c) (size_max - 1) = None"
    using assms(2) by (intro hex_dump_outside) (simp add: MSG_BUF_LEN_def size_max_def)
  ultimately show ?thesis
    using assms True by (simp add: plain_receive_def plain_hex_dump_def)
next
  case False
  then have n: "n = int (length bs)" "length bs \<le> MSG_BUF_LEN" using assms(3) by auto
  then have len: "of_int64 n = length bs" "length bs < size_max div 2"
    by (simp_all add: of_int64_def size_max_def MSG_BUF_LEN_def)
  moreover have "hex_dump buf (length bs) = Some (hex_text bs)"
    using hex_dump_correct [of "length bs" buf] assms(4) by simp
  ultimately show ?thesis
    using assms(1,4,5) n(1) False by (simp add: plain_receive_def plain_hex_dump_def signed_digits_def Let_def)
qed

end
