(* ===== verification/Dtls_Properties.thy ===== *)
theory Dtls_Properties
  imports Dtls_Runs Plain_Client
begin

text \<open>
  The properties of the two programs in \<^verbatim>\<open>client_dtls.c\<close>.
\<close>

section \<open>The DTLS client\<close>

text \<open>
  C22. A block transfer that is no longer answered comes to an end, if it does so before the year 2038: on a network where every \<open>select\<close>
  times out at most \<open>lag\<close> seconds late and a write takes at most \<open>lag\<close> seconds, the loop sends the last block again, unchanged, whenever
  more than TIMEOUT seconds have passed since it was sent, until it has been sent MAX_RETRY times more than the first time; then the program
  prints that the limit is reached and exits with 0. If the retry counter is \<open>r\<close>, the block is sent \<open>MAX_RETRY + 1 - r\<close> times more. The
  fifteen turns this takes at most have to end before the time no longer fits an \<open>int\<close>; \<open>late_stamp_waits\<close> shows what happens
  afterwards.
\<close>

theorem dtls_block_retries:
  assumes "silent_dtls L clock lag wrote" "d_sent s = Some pdu" "t_data (d_last s) = Some (lc_hdr L pdu)"
    "lc_length L pdu \<le> length (lc_hdr L pdu)" "0 < sint (t_out (d_last s))" "sint (t_out (d_last s)) \<le> clock (d_world s)"
    "t_ack (d_last s) = 0" "0 \<le> sint (t_retry (d_last s))" "d_ready s" "clock (d_world s) + 15 * (2 + 2 * lag) < 2 ^ 31"
  shows "\<exists>s'. dtls_loop L s = Some (0, s') \<and> d_printed s' = d_printed s @ str_bytes ''Failed: reach retry limit'' \<and>
     wrote (d_world s') =
       wrote (d_world s) @ replicate (nat (MAX_RETRY + 1 - sint (t_retry (d_last s)))) (take (lc_length L pdu) (lc_hdr L pdu))"
proof -
  note end_law = silent_dtls.retries_end [OF assms(1)] and bound = silent_dtls.turns_left_bound [OF assms(1)]
  have waits: "block_waits L pdu (clock (d_world s)) s" using assms(2-9) by (simp add: block_waits_def)
  have "int (silent_dtls.turns_left clock s) * (2 + 2 * lag) \<le> 15 * (2 + 2 * lag)"
    using bound [OF waits] silent_dtls.lag_nonneg [OF assms(1)] by (intro mult_right_mono) simp_all
  with assms(10) show ?thesis by (intro end_law [OF waits]) linarith
qed

theorem dtls_block_retries_witness:
  "\<exists>s'. dtls_loop script_libs (ex_dtls\<lparr>d_ready := True, d_sent := Some [1, 2],
       d_last := \<lparr>t_out = 90, t_ack = 0, t_data = Some [1, 2], t_retry = 1\<rparr>\<rparr>) = Some (0, s') \<and>
     dn_wrote (d_world s') = [[1, 2], [1, 2], [1, 2]]"
proof -
  let ?s = "ex_dtls\<lparr>d_ready := True, d_sent := Some [1, 2],
    d_last := \<lparr>t_out = 90, t_ack = 0, t_data = Some [1, 2], t_retry = 1\<rparr>\<rparr>"
  have h: "lc_hdr script_libs [1, 2] = [1, 2]" "lc_length script_libs [1, 2] = 2" "dn_wrote (d_world ?s) = []"
    "dn_clock (d_world ex_dtls) = 100"
    by (simp_all add: script_libs_def ex_dtls_def)
  have "replicate (nat (MAX_RETRY + 1 - 1)) (take 2 [1, 2]) = [[1, 2], [1, 2], [1, 2] :: bytes]" by code_simp
  with dtls_block_retries [OF script_dtls.silent_dtls_axioms, of ?s "[1, 2]"] h show ?thesis by auto
qed

text \<open>
  C29. The options of a request are in the order CoAP asks for: whatever the URL and the block, if the list of libcoap inserts a
  node where the order function puts it, the list \<open>get_pdu\<close> leaves, from which the packet is made, is sorted by option number.
\<close>

theorem dtls_options_sorted:
  assumes "inserts_in_order L" "get_pdu L url meth payload s = Some (p, s')"
  shows "sorted (map lc_key (d_optlist s'))"
  using assms by (rule get_pdu_sorted)

theorem dtls_options_sorted_witness:
  "(case get_pdu script_libs [99] 2 [53] (ex_dtls\<lparr>d_block_flag := True\<rparr>) of
      Some (p, s') \<Rightarrow> sorted (map lc_key (d_optlist s')) \<and> map lc_key (d_optlist s') = [11, 15, 27]
    | None \<Rightarrow> False)"
proof -
  have "map_option (\<lambda>(p, s'). map lc_key (d_optlist s')) (get_pdu script_libs [99] 2 [53] (ex_dtls\<lparr>d_block_flag := True\<rparr>)) =
      Some [11, 15, 27]"
    by code_simp
  then obtain p s' where r: "get_pdu script_libs [99] 2 [53] (ex_dtls\<lparr>d_block_flag := True\<rparr>) = Some (p, s')"
    "map lc_key (d_optlist s') = [11, 15, 27]" by auto
  have "inserts_in_order script_libs" by (simp add: inserts_in_order_def script_libs_def)
  from dtls_options_sorted [OF this r(1)] r show ?thesis by simp
qed

text \<open>
  C30. What a download leaves in the file: when the last block arrives, the file gets the content collected so far and as many bytes
  as the payload has, but these are the payload up to its first NUL, a NUL, and what the array held before. So the file is the
  content followed by the payload if the payload has no NUL byte, and binary content is not preserved.
\<close>

theorem download_saved:
  assumes "check_token L (d_token s) pdu = Some True" "lc_hdr_code L pdu = COAP_RESPONSE_CODE L 205"
    "get_block L pdu = Some b" "\<not> lc_block_more L b" "lc_get_data L pdu = (length p, Some (p @ 0 # rest))"
    "d_download s = content @ [0] @ junk" "0 \<notin> set content" "d_download_size s = length content" "length p \<le> length junk"
    "v = takeWhile (\<lambda>b. b \<noteq> 0) p" "saved = content @ take (length p) (v @ [0] @ drop (length v) junk)"
    "ds_save L (d_save_file s) saved (d_world s) = Some w"
  shows "(\<exists>s'. message_handler L pdu s = Some s' \<and> d_world s' = w \<and> \<not> d_ready s') \<and> (0 \<notin> set p \<longrightarrow> saved = content @ p)"
proof
  have "saved = content @ take (length p) (cat_bytes p junk)" using assms(10,11) by (simp add: cat_bytes_def Let_def)
  moreover have "downloaded content junk s" using assms(6-8) by (simp add: downloaded_def)
  ultimately show "\<exists>s'. message_handler L pdu s = Some s' \<and> d_world s' = w \<and> \<not> d_ready s'"
    using last_block_saved [OF assms(1-5) _ assms(9) _ assms(12)] by blast
  show "0 \<notin> set p \<longrightarrow> saved = content @ p" using assms(10,11) by (simp add: takeWhile_text)
qed

theorem download_saved_witness:
  "\<exists>s'. message_handler script_libs [0x41, 69, 0, 7, 9, 50, 0, 51] ex_dtls = Some s' \<and> dn_file (d_world s') = [50, 0, 0]"
proof -
  let ?pdu = "[0x41, 69, 0, 7, 9, 50, 0, 51] :: bytes" and ?w = "(d_world ex_dtls)\<lparr>dn_file := [50, 0, 0]\<rparr>"
  have h: "check_token script_libs (d_token ex_dtls) ?pdu = Some True" "lc_hdr_code script_libs ?pdu = COAP_RESPONSE_CODE script_libs 205"
    "get_block script_libs ?pdu = Some False" "\<not> lc_block_more script_libs False"
    "lc_get_data script_libs ?pdu = (length [50, 0, 51 :: u8], Some ([50, 0, 51] @ 0 # []))"
    "d_download ex_dtls = [] @ [0] @ replicate 7 0" "d_download_size ex_dtls = length ([] :: bytes)"
    "([50] :: bytes) = takeWhile (\<lambda>b. b \<noteq> 0) [50, 0, 51 :: u8]"
    "([50, 0, 0] :: bytes) = [] @ take (length [50, 0, 51 :: u8]) ([50] @ [0] @ drop (length [50 :: u8]) (replicate 7 0))"
    "ds_save script_libs (d_save_file ex_dtls) [50, 0, 0] (d_world ex_dtls) = Some ?w"
    by code_simp+
  from download_saved [OF h(1-6) _ h(7) _ h(8-10)] show ?thesis by auto
qed

text \<open>
  C32. The write and the read are not repeated: a test case is started without a time stamp, so \<open>last_sent.out\<close> is still 0 and the
  time-out branch does nothing. If nothing arrives after such a request was sent, every later turn only waits, nothing is sent
  again, and the program never ends.
\<close>

theorem dtls_request_not_repeated:
  assumes "\<And>fd n w. fst (ds_select L fd n w) = 0" "t_out (d_last s) = 0" "next_test L s = Some (Goes s')" "d_ready s'"
  shows "dtls_loop L s' = None \<and> (\<forall>n. dtls_turns L n s' = Some (Goes ((waited L ^^ n) s')))"
proof -
  have "times_out L" "sint (t_out (d_last s')) \<le> 0"
    using assms(1,2) next_test_last [OF assms(3)] by (simp_all add: times_out_def)
  with untimed_waits assms(4) show ?thesis by blast
qed

theorem dtls_request_not_repeated_witness:
  "(case next_test script_libs ex_dtls of
      Some (Goes s') \<Rightarrow> dtls_loop script_libs s' = None \<and> length (dn_wrote (d_world s')) = 1
    | _ \<Rightarrow> False)"
proof -
  have "(case next_test script_libs ex_dtls of Some (Goes s') \<Rightarrow> d_ready s' \<and> length (dn_wrote (d_world s')) = 1 | _ \<Rightarrow> False)"
    by code_simp
  then obtain s' where s': "next_test script_libs ex_dtls = Some (Goes s')" "d_ready s'" "length (dn_wrote (d_world s')) = 1"
    by (auto split: option.splits turn.splits)
  have "fst (ds_select script_libs fd n w) = 0" for fd n w by (simp add: script_libs_def)
  moreover have "t_out (d_last ex_dtls) = 0" by (simp add: ex_dtls_def)
  ultimately show ?thesis using dtls_request_not_repeated [OF _ _ s'(1,2)] s' by simp
qed


section \<open>The plain client\<close>

text \<open>
  C36. What the plain client does with what it receives if the older \<open>coap_validate_pkt\<close>, which is not in the repository, does not accept it. A
  datagram is printed with its length as a hex dump, the sender becomes the address of the next request, and the program goes on after a
  second. When \<open>recvfrom\<close> fails its -1 becomes the largest size_t and the test for a negative length fails: the program does not
  exit, and if the array it still has is not accepted as a packet of that length, the dump reads behind its 64 bytes.
\<close>

theorem plain_receive_error:
  assumes "pl_recvfrom os (pl_remote c) MSG_BUF_LEN (pl_world c) = (n, bs, addr, w)" "length (pl_msg_recv c) = MSG_BUF_LEN"
    "n = -1 \<and> bs = [] \<or> n = int (length bs) \<and> length bs \<le> MSG_BUF_LEN"
    "buf = bs @ drop (length bs) (pl_msg_recv c)" "oc_valid C buf (if n = -1 then 2 ^ 64 - 1 else length bs) = Some False"
  shows "plain_receive C os c =
     (if n = -1 then None
      else Some (Goes (c\<lparr>pl_world := pl_usleep os 1000000 w, pl_msg_recv := buf, pl_addr := addr,
        pl_out := pl_out c @ out_line ''Received '' (dec_digits (length bs) @ str_bytes '' Bytes, Not Valid CoAP'') @ hex_text bs\<rparr>)))"
proof -
  have "of_int64 n = (if n = -1 then 2 ^ 64 - 1 else length bs)"
    using assms(3) by (auto simp: of_int64_def size_max_def MSG_BUF_LEN_def)
  with receive_not_valid [OF assms(1-4)] assms(5) show ?thesis by simp
qed

text \<open>A packet interface that accepts nothing, and a system on which nothing can be received.\<close>

definition no_coap :: old_coap where
  "no_coap = \<lparr>oc_set_version = \<lambda>n v m. m, oc_set_type = \<lambda>n v m. m, oc_set_code = \<lambda>n v m. m, oc_set_mid = \<lambda>n v m. m,
     oc_set_token = \<lambda>n v k m. m, oc_add_option = \<lambda>n k v m. m, oc_valid = \<lambda>b n. Some False, oc_mid = \<lambda>b n. Some 0,
     oc_token = \<lambda>b n. Some 0, oc_type = \<lambda>b n. Some 0, oc_class = \<lambda>b n. Some 0, oc_detail = \<lambda>b n. Some 0,
     oc_count = \<lambda>b n. Some 0, oc_option = \<lambda>b n i. Some (0, 0, 0), oc_payload = \<lambda>b n. Some (0, 0)\<rparr>"

definition deaf_os :: "(unit, unit) plain_os" where
  "deaf_os = \<lparr>pl_getaddrinfo = \<lambda>h p w. (0, [()], w), pl_socket = \<lambda>a w. (3, w), pl_bind = \<lambda>fd a w. (0, w), pl_close = \<lambda>fd w. w,
     pl_sendto = \<lambda>fd bs a w. (int (length bs), w), pl_recvfrom = \<lambda>fd n w. (-1, [], (), w), pl_srand = \<lambda>w. w,
     pl_rand = \<lambda>w. (77, w), pl_usleep = \<lambda>n w. w\<rparr>"

theorem plain_receive_error_witness:
  "\<exists>c. plain_start deaf_os (replicate 64 0) (replicate 64 0) () = Inr c \<and> plain_receive no_coap deaf_os c = None \<and>
     (\<exists>c'. plain_receive no_coap (deaf_os\<lparr>pl_recvfrom := \<lambda>fd n w. (1, [7], (), w)\<rparr>) c = Some (Goes c') \<and>
        pl_out c' = out_line ''Received '' (dec_digits 1 @ str_bytes '' Bytes, Not Valid CoAP'') @ hex_text [7])"
proof -
  obtain c where c: "plain_start deaf_os (replicate 64 0) (replicate 64 0) () = Inr c" "pl_msg_recv c = replicate 64 0" "pl_out c = []"
    by (simp add: plain_start_def deaf_os_def)
  have "plain_receive no_coap deaf_os c = None"
    using plain_receive_error [of deaf_os c "-1" "[]" "()" "()" _ no_coap] c(2) by (simp add: deaf_os_def no_coap_def MSG_BUF_LEN_def)
  moreover have "\<exists>c'. plain_receive no_coap (deaf_os\<lparr>pl_recvfrom := \<lambda>fd n w. (1, [7], (), w)\<rparr>) c = Some (Goes c') \<and>
      pl_out c' = out_line ''Received '' (dec_digits 1 @ str_bytes '' Bytes, Not Valid CoAP'') @ hex_text [7]"
    using plain_receive_error [of "deaf_os\<lparr>pl_recvfrom := \<lambda>fd n w. (1, [7], (), w)\<rparr>" c 1 "[7]" "()" "()" _ no_coap] c(2,3)
    by (simp add: no_coap_def MSG_BUF_LEN_def)
  ultimately show ?thesis using c(1) by blast
qed

end
