(* ===== verification/Spec2Isabelle.thy ===== *)
theory Spec2Isabelle
  imports Coap_Properties Exo_Properties Exo_Request_Properties Exo_Exchange_Properties App_Properties
    Dtls_Properties
begin

text \<open>
  \<^bold>\<open>A verification development for libexositecoap.\<close>

  The program is a C library with which a device talks to the Exosite One Platform over CoAP. An
  application owns an array of operations (\<open>exo_op\<close>), queues reads, writes and subscriptions in it and
  calls \<open>exo_operate\<close> again and again; each call first handles the datagrams that arrived and then sends
  what is due: new requests, retransmissions, acknowledgements of notifications. Entry 0 of the
  array belongs to the library, which activates the device with it. Messages are built and taken apart by
  picocoap, and the network, the clock and the storage of the device's key (CIK) are behind a
  platform layer.

  \<^bold>\<open>The conventions of the model.\<close> Machine integers keep their width; size_t has 64 bits and its sums and
  differences wrap (\<open>add64\<close>, \<open>sub64\<close>); the int time stamps of the DTLS client are 32-bit words, a cast to int wraps, and a sum or
  difference of ints that overflows is \<open>None\<close> (\<open>int_add\<close>, \<open>int_sub\<close>). A packet is a byte list with bounds-checked reads and
  writes, a \<open>char *\<close> of the application is an address in a heap of blocks. A function of the code has a
  result of type \<open>'a option\<close>: \<open>None\<close> is a run that leaves a memory object, goes through NULL, shifts too
  far, overflows an int, or does not end; the error codes of the code are values inside \<open>Some\<close>. Hence a theorem that
  gives \<open>Some\<close> says that the code returns and stays inside its memory. The model is LP64 and little
  endian. The model of the code uses no fuel: a loop has a termination measure, or is a \<open>partial_function\<close> whose divergence is
  \<open>None\<close>: \<open>recv_loop\<close>, which runs as long as datagrams arrive, \<open>get_option_by_num_loop\<close> and \<open>print_opts\<close>, which an
  ill-formed packet can send round in circles, \<open>until_idle\<close>, an application's loop around \<open>exo_operate\<close>, and \<open>dtls_loop\<close>, the
  main loop of the DTLS client. Where such a loop ends, that is proved as part of the theorem; where a theorem
  says that it does not end, it also gives the result of any number of turns (\<open>operate_calls\<close>, \<open>dtls_turns\<close>), so that the \<open>None\<close> is not a fault. (A caller's loop over all options of a
  packet, \<open>read_options\<close>, which is not code of the repository, has the length of the packet plus one as its bound, and that is enough for every message.)

  \<^bold>\<open>picocoap\<close> (\<^verbatim>\<open>picocoap/src/coap.c\<close>, \<^verbatim>\<open>coap.h\<close>).
  \<^item> \<open>Coap_Pdu\<close>: the enumerations, \<open>coap_pdu\<close>, the header getters and setters and the token.
  \<^item> \<open>Coap_Option\<close>: \<open>coap_decode_option\<close>, \<open>coap_build_option_header\<close>, \<open>coap_compute_option_header_len\<close>, and the
    encoding of option headers they implement; decoding inverts building.
  \<^item> \<open>Coap_Message\<close>: \<open>coap_validate_pkt\<close>, the option iterator, the search by number, the payload, \<open>coap_add_option\<close>
    with \<open>coap_adjust_option_deltas\<close>, \<open>coap_set_payload\<close>.
  \<^item> \<open>Coap_Spec\<close>: the abstract specification, a message (\<open>coap_msg\<close>) with its encoding, and \<open>represents\<close>, which says
    that a packet holds a message. \<open>Coap_Refine\<close> and \<open>Coap_Iter\<close> prove that each function implements its
    abstract counterpart on such packets. \<open>Packet_Ops\<close> collects what the writers promise as the
    locale \<open>packet_ops\<close> and interprets it on picocoap's functions.
  \<^item> \<open>Coap_Roundtrip\<close>: whole messages, written call by call (\<open>build_pdu\<close>) and read back (\<open>read_pdu\<close>). The locale \<open>packet_limits\<close> adds to
    the contract that a call which finds no room says so, and is interpreted on the same functions.
  \<^item> \<open>Coap_Properties\<close>: the properties of picocoap.

  \<^bold>\<open>The Exosite library\<close> (\<^verbatim>\<open>src/exosite.c\<close>, \<^verbatim>\<open>exosite.h\<close>).
  \<^item> \<open>Exo_Op\<close>: the operation record, and the functions an application queues, inspects and retires operations with.
  \<^item> \<open>Exo_Msg\<close>: the six message builders, and the abstract messages they refine.
  \<^item> \<open>Exo_Pal\<close>: the platform interface as a record of functions on a world, the locales with its contracts (\<open>pal\<close>,
    \<open>datagram_pal\<close>), \<^verbatim>\<open>pal/posix\<close> over the system calls (\<open>posix_os\<close>, \<open>posix_file\<close>) and
    \<^verbatim>\<open>pal/template\<close>; a scripted system is the instance examples run on.
  \<^item> \<open>Exo_Operate\<close>: \<open>exo_init\<close>, \<open>exo_operate\<close>, \<open>exo_process_waiting_datagrams\<close>, \<open>exo_process_active_ops\<close>, cut into one
    definition per branch, on the state \<open>exo\<close>: the static variables, the application's memory, the
    operations and the world.
  \<^item> \<open>Exo_Steps\<close>: the life of an operation as the step relation \<open>op_step\<close>, and the locales \<open>pass_rel\<close> and \<open>engine_rel\<close>: a
    relation on states that every handler of one message and every step of a pass respects is respected by
    \<open>exo_operate\<close>. Interpreted with the step relation they give the protocol and the invariant of operations.
  \<^item> \<open>Exo_Frame\<close>, \<open>Exo_Value\<close>: two more interpretations: the memory objects that survive a call, and that a reported
    value is a terminated string.
  \<^item> \<open>Exo_Safety\<close>, \<open>Exo_Receive\<close>, \<open>Exo_Send\<close>: memory safety and termination of a call, and what is received and sent.
  \<^item> \<open>Exo_Dispatch\<close>: the effect of each kind of received message.
  \<^item> \<open>Exo_Request\<close>: the request an operation stands for (\<open>op_request\<close>), and the passes that send it and repeat it.
  \<^item> \<open>Exo_Round\<close>: a whole call of \<open>exo_operate\<close> with any number of answers waiting.
  \<^item> \<open>Exo_Restart\<close>: an activation in a call of \<open>exo_operate\<close>, from the request to the answer, and the CIK after a restart. An
    activation that times out before the device is activated is made new, not repeated (\<open>call_activates\<close>). The locale
    \<open>cik_pal\<close> is the contract of \<open>exopal_store_cik\<close> and \<open>exopal_retrieve_cik\<close>; the POSIX layer keeps it (\<open>posix_disk\<close>).
  \<^item> \<open>Exo_Notify\<close>: a notification in a call of \<open>exo_operate\<close>, with its acknowledgement; one without Observe, which the call does not survive.
  \<^item> \<open>Exo_Example\<close>: the states the witnesses run on. \<open>Exo_Properties\<close>, \<open>Exo_Request_Properties\<close> and \<open>Exo_Exchange_Properties\<close>: the
    properties of the engine, of its requests and \<open>exo_init\<close>, and of whole exchanges with the server.

  \<^bold>\<open>The example programs.\<close>
  \<^item> \<open>Format\<close>: the conversions of printf they use.
  \<^item> \<open>Exo_App\<close>: \<^verbatim>\<open>examples/subscribe.c\<close>; \<open>main\<close> up to its loop is \<open>app_start\<close>, a turn of the loop is \<open>app_turn\<close>, and \<open>app_reaches\<close>
    gives the states between turns; their invariant is proved by rule induction. \<open>operate_calls\<close> is any number of turns of its inner
    loop, with what they return.
  \<^item> \<open>Coap_Client\<close>: \<^verbatim>\<open>picocoap/examples/posix/client.c\<close> with \<open>hex_dump\<close> and \<open>coap_pretty_print\<close>, over system calls that are
    parameters; what is printed is proved equal to a specification on messages.
  \<^item> \<open>Exo_Silence\<close>: an application's loop around \<open>exo_operate\<close> when no datagram arrives. \<open>pass_step\<close> is what a pass does to an
    operation; the locale \<open>world_order\<close> follows an order on worlds through a call, and is used three times: with \<open>datagram_pal\<close>
    for the queue that stays empty, with \<open>clocked_pal\<close> for the clock, and with \<open>cik_pal\<close> for the stored CIK. Unanswered reads, writes and activations of an
    activated device fail and the loop ends; with an unanswered subscription every call returns and the loop never ends.
  \<^item> \<open>Exo_Budget\<close>: how many datagrams that loop sends. What has been sent and what the waiting requests are still entitled to
    (\<open>sends_left\<close>) have the same sum before and after every call.
  \<^item> \<open>App_Properties\<close>: the properties of both programs and of the loop.

  \<^bold>\<open>client_dtls.c\<close> (\<^verbatim>\<open>picocoap/examples/posix\<close>) holds two programs with a \<open>main\<close> each, written against libraries
  that are not in the repository, and uses variables it does not declare; it does not compile. Each program is modelled as it stands, with
  the libraries as records of functions and the undeclared variables as fields of the state.
  \<^item> \<open>Plain_Client\<close>: the first program, with an older interface of picocoap (\<open>old_coap\<close>); a failed receive is not noticed.
  \<^item> \<open>Dtls_Client\<close>: the second program with libcoap and tinydtls (\<open>dlibs\<close>): building requests (\<open>get_pdu\<close>), the
    answers to them (\<open>message_handler\<close>), the callbacks, and the loop around \<open>select\<close> (\<open>dtls_turn\<close>, \<open>dtls_loop\<close>). tinydtls reports
    a datagram as the list of callbacks it leads to.
  \<^item> \<open>Dtls_Runs\<close>: runs of the second program on a silent network (locale \<open>silent_dtls\<close>, with a bound \<open>lag\<close> on what a wait and a write take, and
    runs that end before the time no longer fits an int; \<open>late_stamp_waits\<close> is what happens afterwards), what building a request keeps
    (locale \<open>request_inv\<close>), and what a download leaves in the file. \<open>Dtls_Properties\<close>: the properties of both programs.

  \<^bold>\<open>Not modelled.\<close> The test programs and the vendored cmocka. In \<^verbatim>\<open>client_dtls.c\<close> the statements behind the \<open>return\<close> of two functions are
  not modelled. Printing of error messages in the POSIX layer and in the clients has no effect on what is modelled and is left out, and so are
  the flags of sockets and address hints, which only reach the system calls.
\<close>

end
